(* ===== verification/Go_Prelude.thy ===== *)
theory Go_Prelude
  imports Complex_Main
    "HOL-Library.Word" "HOL-Library.Signed_Division" "HOL-Library.Monad_Syntax"
    "HOL-Library.Finite_Map" "HOL-Library.List_Lexorder" "HOL-Library.Char_ord"
begin

text \<open>
  The part of the Go language and its standard library that the components use: 64-bit
  signed integers with wrap-around, division that truncates and panics on zero,
  \<open>time.Duration\<close> in nanoseconds, maps and their unspecified iteration order,
  \<open>strconv.ParseInt\<close>, the \<open>%d\<close> verbs of \<open>fmt.Sprintf\<close> and \<open>fmt.Sscanf\<close>, and the
  byte-string functions of \<open>strings\<close>. A value of type \<open>'a option\<close> returned by an
  operation that divides or indexes is \<open>None\<close> exactly when the Go code panics.
\<close>

section \<open>Theorem collections\<close>

named_theorems go_arith \<open>values of the 64-bit operations on operands in range\<close>
named_theorems go_unfold \<open>definitions of the thin wrappers around the runtime\<close>

section \<open>int64\<close>

definition i64 :: "int \<Rightarrow> int" where
  "i64 x = (x + 9223372036854775808) mod 18446744073709551616 - 9223372036854775808"

definition in64 :: "int \<Rightarrow> bool" where
  "in64 x \<longleftrightarrow> - 9223372036854775808 \<le> x \<and> x < 9223372036854775808"

lemma i64_id [go_arith, simp]: "in64 x \<Longrightarrow> i64 x = x"
  by (simp add: i64_def in64_def)

lemma in64_i64 [simp]: "in64 (i64 x)"
  unfolding i64_def in64_def by (simp add: pos_mod_bound pos_mod_sign)

lemma in64_small [simp]: "in64 0" "in64 1" "in64 (- 1)" "in64 (numeral n) \<longleftrightarrow> (numeral n :: int) < 9223372036854775808"
  by (simp_all add: in64_def)

lemma i64_i64 [simp]: "i64 (i64 x) = i64 x"
  by simp

lemma i64_numerals [simp]: "i64 0 = 0" "i64 1 = 1" "i64 (- 1) = - 1"
  by (simp_all add: i64_def)

lemma i64_add_left [simp]: "i64 (i64 x + y) = i64 (x + y)"
proof -
  have "((x + 9223372036854775808) mod 18446744073709551616 - 9223372036854775808 + y
          + 9223372036854775808) mod 18446744073709551616
        = (x + y + 9223372036854775808) mod (18446744073709551616 :: int)"
    by (simp add: mod_simps algebra_simps)
  then show ?thesis by (simp add: i64_def)
qed

definition add64 :: "int \<Rightarrow> int \<Rightarrow> int" where "add64 a b = i64 (a + b)"
definition sub64 :: "int \<Rightarrow> int \<Rightarrow> int" where "sub64 a b = i64 (a - b)"
definition mul64 :: "int \<Rightarrow> int \<Rightarrow> int" where "mul64 a b = i64 (a * b)"
definition neg64 :: "int \<Rightarrow> int" where "neg64 a = i64 (- a)"

text \<open>Go's \<open>/\<close> and \<open>%\<close> truncate towards zero and panic on a zero divisor.\<close>

definition div64 :: "int \<Rightarrow> int \<Rightarrow> int option" where
  "div64 a b = (if b = 0 then None else Some (i64 (a sdiv b)))"

definition mod64 :: "int \<Rightarrow> int \<Rightarrow> int option" where
  "mod64 a b = (if b = 0 then None else Some (a smod b))"

lemma add64_id [go_arith]: "in64 (a + b) \<Longrightarrow> add64 a b = a + b"
  by (simp add: add64_def)

lemma sub64_id [go_arith]: "in64 (a - b) \<Longrightarrow> sub64 a b = a - b"
  by (simp add: sub64_def)

lemma mul64_id [go_arith]: "in64 (a * b) \<Longrightarrow> mul64 a b = a * b"
  by (simp add: mul64_def)

lemma neg64_id [go_arith]: "in64 (- a) \<Longrightarrow> neg64 a = - a"
  by (simp add: neg64_def)

lemma in64_add64 [simp]: "in64 (add64 a b)"
  by (simp add: add64_def)

lemma in64_sub64 [simp]: "in64 (sub64 a b)"
  by (simp add: sub64_def)

lemma in64_mul64 [simp]: "in64 (mul64 a b)"
  by (simp add: mul64_def)

lemma sdiv_nonneg_eq [go_arith]: "0 \<le> a \<Longrightarrow> 0 < b \<Longrightarrow> a sdiv b = a div (b :: int)"
  by (cases "a = 0") (simp_all add: signed_divide_int_def sgn_if)

lemma smod_nonneg_eq [go_arith]: "0 \<le> a \<Longrightarrow> 0 < b \<Longrightarrow> a smod b = a mod (b :: int)"
  by (cases "a = 0") (simp_all add: signed_modulo_int_def sgn_if)

lemma div_le_self: "0 \<le> a \<Longrightarrow> 0 < b \<Longrightarrow> a div b \<le> (a :: int)"
  using zdiv_mono2 [of a 1 b] by simp

lemma in64_div_nonneg:
  assumes "0 \<le> a" "in64 a" "0 < b"
  shows "in64 (a div b)"
proof -
  have "a div b \<le> a" using assms(1,3) by (rule div_le_self)
  moreover have "0 \<le> a div b" using assms by (simp add: pos_imp_zdiv_nonneg_iff)
  ultimately show ?thesis using assms(2) by (simp add: in64_def)
qed

lemma div64_nonneg [go_arith]:
  "0 \<le> a \<Longrightarrow> in64 a \<Longrightarrow> 0 < b \<Longrightarrow> div64 a b = Some (a div b)"
  by (simp add: div64_def sdiv_nonneg_eq in64_div_nonneg)

lemma mod64_nonneg [go_arith]: "0 \<le> a \<Longrightarrow> 0 < b \<Longrightarrow> mod64 a b = Some (a mod b)"
  by (simp add: mod64_def smod_nonneg_eq)

lemma div64_eq_None [simp]: "div64 a b = None \<longleftrightarrow> b = 0"
  by (simp add: div64_def)

lemma mod64_eq_None [simp]: "mod64 a b = None \<longleftrightarrow> b = 0"
  by (simp add: mod64_def)

text \<open>
  A \<open>time.Duration\<close> is a number of nanoseconds; \<open>int64(d.Seconds())\<close> truncates it to
  whole seconds.
\<close>

type_synonym Duration = int

definition Second :: Duration where "Second = 1000000000"
definition Minute :: Duration where "Minute = 60 * Second"
definition Hour :: Duration where "Hour = 60 * Minute"

definition seconds64 :: "Duration \<Rightarrow> int" where
  "seconds64 d = d sdiv 1000000000"

lemma seconds64_mult [simp]: "seconds64 (n * Second) = n"
  by (simp add: seconds64_def Second_def signed_divide_int_def abs_mult sgn_mult mult_sgn_abs)

section \<open>Maps and their iteration order\<close>

text \<open>
  A Go map is a finite map. \<open>for k := range m\<close> visits the keys in an order the language
  leaves open: an operation that ranges over a map takes the order as an argument, a
  function from the set of keys to the list in which they are visited.
\<close>

type_synonym 'k key_order = "'k set \<Rightarrow> 'k list"

definition range_order :: "'k key_order \<Rightarrow> bool" where
  "range_order r \<longleftrightarrow> (\<forall>S. finite S \<longrightarrow> set (r S) = S \<and> distinct (r S))"

lemma range_order_set [simp]: "range_order r \<Longrightarrow> finite S \<Longrightarrow> set (r S) = S"
  by (simp add: range_order_def)

lemma range_order_distinct: "range_order r \<Longrightarrow> finite S \<Longrightarrow> distinct (r S)"
  by (simp add: range_order_def)

lemma range_order_empty [simp]: "range_order r \<Longrightarrow> r {} = []"
  using range_order_set [of r "{}"] by (simp del: range_order_set)

lemma range_order_sorted: "range_order (sorted_list_of_set :: 'a :: linorder key_order)"
  by (simp add: range_order_def)

definition map_len :: "('k, 'v) fmap \<Rightarrow> int" where
  "map_len m = int (card (fmdom' m))"

lemma map_len_nonneg [simp]: "0 \<le> map_len m"
  by (simp add: map_len_def)

lemma map_len_empty [simp]: "map_len fmempty = 0"
  by (simp add: map_len_def)

section \<open>Strings\<close>

definition HasPrefix :: "string \<Rightarrow> string \<Rightarrow> bool" where
  "HasPrefix s p \<longleftrightarrow> take (length p) s = p"

fun Contains :: "string \<Rightarrow> string \<Rightarrow> bool" where
  "Contains [] p = (p = [])"
| "Contains (c # s) p = (HasPrefix (c # s) p \<or> Contains s p)"

definition is_digit :: "char \<Rightarrow> bool" where
  "is_digit c \<longleftrightarrow> 48 \<le> (of_char c :: nat) \<and> (of_char c :: nat) \<le> 57"

definition digit_val :: "char \<Rightarrow> int" where
  "digit_val c = int (of_char c) - 48"

definition digits_val :: "string \<Rightarrow> int" where
  "digits_val s = foldl (\<lambda>v c. 10 * v + digit_val c) 0 s"

text \<open>\<open>strconv.ParseInt(s, 10, 64)\<close>; \<open>None\<close> is a syntax or range error.\<close>

definition ParseInt :: "string \<Rightarrow> int option" where
  "ParseInt s =
     (case s of [] \<Rightarrow> None
      | c # rest \<Rightarrow>
          let signed = c = CHR ''-'' \<or> c = CHR ''+'';
              body = (if signed then rest else s);
              v = (if c = CHR ''-'' then - digits_val body else digits_val body)
          in if body = [] \<or> \<not> list_all is_digit body then None
             else if in64 v then Some v else None)"

text \<open>
  \<open>fmt.Sscanf(s, "%d", &key)\<close>: leading blanks are skipped, a newline among them is an
  error, then an optional sign and a non-empty run of digits; what follows is ignored.
\<close>

definition is_blank :: "char \<Rightarrow> bool" where
  "is_blank c \<longleftrightarrow> (of_char c :: nat) \<in> {9, 11, 12, 13, 32}"

definition Sscanf_d :: "string \<Rightarrow> int option" where
  "Sscanf_d s =
     (let t = dropWhile is_blank s
      in case t of [] \<Rightarrow> None
         | c # rest \<Rightarrow>
             let signed = c = CHR ''-'' \<or> c = CHR ''+'';
                 digits = takeWhile is_digit (if signed then rest else t)
             in ParseInt ((if signed then [c] else []) @ digits))"

definition digit_char :: "nat \<Rightarrow> char" where
  "digit_char d = char_of (48 + d)"

fun Sprintf_nat :: "nat \<Rightarrow> string" where
  "Sprintf_nat n =
     (if n < 10 then [digit_char n] else Sprintf_nat (n div 10) @ [digit_char (n mod 10)])"

declare Sprintf_nat.simps [simp del]

definition Sprintf_d :: "int \<Rightarrow> string" where
  "Sprintf_d x = (if x < 0 then CHR ''-'' # Sprintf_nat (nat (- x)) else Sprintf_nat (nat x))"

lemma of_char_digit_char [simp]: "d < 10 \<Longrightarrow> (of_char (digit_char d) :: nat) = 48 + d"
  by (simp add: digit_char_def)

lemma digit_char_facts [simp]:
  assumes "d < 10"
  shows "is_digit (digit_char d)" "digit_val (digit_char d) = int d"
  using assms by (simp_all add: is_digit_def digit_val_def)

lemma Sprintf_nat_digits: "list_all is_digit (Sprintf_nat n)"
  by (induction n rule: Sprintf_nat.induct) (subst Sprintf_nat.simps, simp)

lemma Sprintf_nat_nonempty [simp]: "Sprintf_nat n \<noteq> []"
  by (subst Sprintf_nat.simps) simp

lemma digits_val_Sprintf_nat [simp]: "digits_val (Sprintf_nat n) = int n"
proof (induction n rule: Sprintf_nat.induct)
  case (1 n)
  show ?case
  proof (cases "n < 10")
    case True
    then show ?thesis by (subst Sprintf_nat.simps) (simp add: digits_val_def)
  next
    case False
    with 1 have "digits_val (Sprintf_nat (n div 10)) = int (n div 10)" by simp
    then show ?thesis using False
      by (subst Sprintf_nat.simps) (simp add: digits_val_def zdiv_int zmod_int)
  qed
qed

lemma is_digit_not_special:
  assumes "is_digit c"
  shows "c \<noteq> CHR ''-''" "c \<noteq> CHR ''+''" "\<not> is_blank c"
  using assms by (auto simp: is_digit_def is_blank_def)

lemma ParseInt_digits:
  assumes "s \<noteq> []" "list_all is_digit s" "in64 (digits_val s)"
  shows "ParseInt s = Some (digits_val s)"
  using assms by (cases s) (auto simp: ParseInt_def Let_def is_digit_not_special)

lemma ParseInt_neg_digits:
  assumes "s \<noteq> []" "list_all is_digit s" "in64 (- digits_val s)"
  shows "ParseInt (CHR ''-'' # s) = Some (- digits_val s)"
  using assms by (auto simp: ParseInt_def Let_def)

lemma takeWhile_digits [simp]: "list_all is_digit s \<Longrightarrow> takeWhile is_digit s = s"
  by (simp add: list_all_iff)

lemma Sscanf_d_digits:
  assumes "s \<noteq> []" "list_all is_digit s" "in64 (digits_val s)"
  shows "Sscanf_d s = Some (digits_val s)"
  using assms ParseInt_digits [OF assms]
  by (cases s) (auto simp: Sscanf_d_def Let_def is_digit_not_special)

lemma Sscanf_d_neg_digits:
  assumes "s \<noteq> []" "list_all is_digit s" "in64 (- digits_val s)"
  shows "Sscanf_d (CHR ''-'' # s) = Some (- digits_val s)"
  using assms ParseInt_neg_digits [OF assms] by (simp add: Sscanf_d_def Let_def is_blank_def)

text \<open>A key printed with \<open>%d\<close> and scanned with \<open>%d\<close> is the key again.\<close>

lemma Sscanf_Sprintf [simp]: "in64 k \<Longrightarrow> Sscanf_d (Sprintf_d k) = Some k"
  using Sscanf_d_digits [of "Sprintf_nat (nat k)"] Sscanf_d_neg_digits [of "Sprintf_nat (nat (- k))"]
  by (simp add: Sprintf_d_def Sprintf_nat_digits)

lemma Sprintf_d_nonempty [simp]: "Sprintf_d k \<noteq> []"
  by (simp add: Sprintf_d_def)

lemma ParseInt_in64: "ParseInt s = Some v \<Longrightarrow> in64 v"
  by (auto simp: ParseInt_def Let_def split: list.splits if_splits)

end
