(* ===== verification/Job_Types.thy ===== *)
theory Job_Types
  imports Go_Prelude
begin

text \<open>
  The data types of \<open>internal/store/types\<close> (\<open>job.go\<close>, \<open>slot.go\<close>, \<open>status.go\<close>,
  \<open>command.go\<close>, \<open>webhook.go\<close>): jobs, slots, execution attempts and states, Raft
  commands, and the operations on them: \<open>Clone\<close>, \<open>Validate\<close>, \<open>ParseTimestamp\<close> and
  \<open>ToJob\<close>. Strings that the code uses as enumerations are datatypes with one
  constructor per constant and one for any other string. \<open>time.Now\<close>, \<open>uuid.New\<close>,
  \<open>time.Parse\<close> and the cron parser are arguments of the operations that call them.
\<close>

section \<open>JSON payloads\<close>

text \<open>
  A payload is a decoded JSON object. A number is kept as the text \<open>encoding/json\<close>
  prints for it, an object as the list of its members in the order of the encoder (Go
  sorts the keys).
\<close>

datatype json =
    JNull
  | JBool bool
  | JNumber string
  | JString string
  | JArray "json list"
  | JObject "(string \<times> json) list"

type_synonym payload = "(string \<times> json) list"

section \<open>Jobs\<close>

datatype JobType = JobUnico | JobRecurrente | OtherJobType string

record Job =
  Job_ID :: string
  Job_Type :: JobType
  Job_Timestamp :: "int option"
  Job_CronExpr :: string
  Job_LastDate :: "int option"
  Job_CreatedAt :: int
  Job_WebhookURL :: string
  Job_Payload :: "payload option"

text \<open>The value that \<open>j.Clone()\<close> points to; a nil receiver gives nil.\<close>

definition Job_Clone :: "Job option \<Rightarrow> Job option" where
  "Job_Clone j =
     (case j of None \<Rightarrow> None
      | Some j \<Rightarrow>
          let clone = j;
              clone = (case Job_Timestamp j of None \<Rightarrow> clone
                       | Some ts \<Rightarrow> clone\<lparr>Job_Timestamp := Some ts\<rparr>);
              clone = (case Job_LastDate j of None \<Rightarrow> clone
                       | Some ld \<Rightarrow> clone\<lparr>Job_LastDate := Some ld\<rparr>);
              clone = (case Job_Payload j of None \<Rightarrow> clone
                       | Some p \<Rightarrow> clone\<lparr>Job_Payload := Some (map (\<lambda>(k, v). (k, v)) p)\<rparr>)
          in Some clone)"

lemma Job_Clone_id [simp]: "Job_Clone j = j"
  by (auto simp: Job_Clone_def Let_def split: option.splits)

datatype job_error =
    JobIDRequired
  | InvalidJobType string
  | TimestampRequired
  | TimestampNotFuture
  | CronExprRequired
  | InvalidCron
  | InvalidTimestamp string
  | InvalidLastDate string

fun job_type_string :: "JobType \<Rightarrow> string" where
  "job_type_string JobUnico = ''unico''"
| "job_type_string JobRecurrente = ''recurrente''"
| "job_type_string (OtherJobType s) = s"

text \<open>
  \<open>cron.Parser.Parse\<close> of the robfig/cron package: \<open>None\<close> is a parse error, a schedule
  is its \<open>Next\<close> function on Unix seconds.
\<close>

type_synonym cron_parser = "string \<Rightarrow> (int \<Rightarrow> int) option"

definition Validate :: "cron_parser \<Rightarrow> int \<Rightarrow> Job \<Rightarrow> job_error option" where
  "Validate cron now j =
     (if Job_ID j = '''' then Some JobIDRequired
      else if Job_Type j \<noteq> JobUnico \<and> Job_Type j \<noteq> JobRecurrente
        then Some (InvalidJobType (job_type_string (Job_Type j)))
      else if Job_Type j = JobUnico \<and> Job_Timestamp j = None then Some TimestampRequired
      else if Job_Type j = JobUnico \<and> the (Job_Timestamp j) \<le> now then Some TimestampNotFuture
      else if Job_Type j = JobRecurrente \<and> Job_CronExpr j = '''' then Some CronExprRequired
      else if Job_Type j = JobRecurrente \<and> cron (Job_CronExpr j) = None then Some InvalidCron
      else None)"

record CreateJobRequest =
  Req_ID :: string
  Req_Type :: JobType
  Req_Timestamp :: string
  Req_CronExpr :: string
  Req_LastDate :: string
  Req_WebhookURL :: string
  Req_Payload :: "payload option"

text \<open>\<open>time.Parse(layout, value)\<close> followed by \<open>Unix()\<close>; \<open>None\<close> is an error.\<close>

type_synonym time_parser = "string \<Rightarrow> string \<Rightarrow> int option"

definition RFC3339 :: string where "RFC3339 = ''2006-01-02T15:04:05Z07:00''"

definition timestamp_layouts :: "string list" where
  "timestamp_layouts =
     [''2006-01-02T15:04:05Z07:00'', ''2006-01-02T15:04:05-07:00'',
      ''2006-01-02T15:04:05+07:00'', ''2006-01-02 15:04:05'']"

fun first_layout :: "time_parser \<Rightarrow> string list \<Rightarrow> string \<Rightarrow> int option" where
  "first_layout tp [] ts = None"
| "first_layout tp (layout # ls) ts =
     (case tp layout ts of Some t \<Rightarrow> Some t | None \<Rightarrow> first_layout tp ls ts)"

definition ParseTimestamp :: "time_parser \<Rightarrow> string \<Rightarrow> int option" where
  "ParseTimestamp tp ts =
     (if ts = '''' then Some 0
      else case ParseInt ts of Some epoch \<Rightarrow> Some epoch
      | None \<Rightarrow>
          (case tp RFC3339 ts of Some t \<Rightarrow> Some t
           | None \<Rightarrow> first_layout tp timestamp_layouts ts))"

definition ToJob ::
  "time_parser \<Rightarrow> int \<Rightarrow> string \<Rightarrow> CreateJobRequest \<Rightarrow> job_error + Job" where
  "ToJob tp now uuid r =
     (let job = \<lparr>Job_ID = Req_ID r, Job_Type = Req_Type r, Job_Timestamp = None,
                 Job_CronExpr = Req_CronExpr r, Job_LastDate = None, Job_CreatedAt = now,
                 Job_WebhookURL = Req_WebhookURL r, Job_Payload = Req_Payload r\<rparr>;
          job = (if Job_ID job = '''' then job\<lparr>Job_ID := uuid\<rparr> else job);
          unico = Req_Type r = JobUnico \<and> Req_Timestamp r \<noteq> '''';
          first = Req_Type r = JobRecurrente \<and> Req_Timestamp r \<noteq> '''';
          final = Req_Type r = JobRecurrente \<and> Req_LastDate r \<noteq> ''''
      in if unico \<and> ParseTimestamp tp (Req_Timestamp r) = None
           then Inl (InvalidTimestamp (Req_Timestamp r))
         else let job = (if unico
                then job\<lparr>Job_Timestamp := ParseTimestamp tp (Req_Timestamp r)\<rparr> else job)
         in if first \<and> ParseTimestamp tp (Req_Timestamp r) = None
           then Inl (InvalidTimestamp (Req_Timestamp r))
         else let job = (if first
                then job\<lparr>Job_CreatedAt := the (ParseTimestamp tp (Req_Timestamp r))\<rparr> else job)
         in if final \<and> ParseTimestamp tp (Req_LastDate r) = None
           then Inl (InvalidLastDate (Req_LastDate r))
         else let job = (if final
                then job\<lparr>Job_LastDate := ParseTimestamp tp (Req_LastDate r)\<rparr> else job)
         in Inr job)"

section \<open>Slots, attempts and execution states\<close>

record SlotData =
  Slot_Key :: int
  Slot_MinTime :: int
  Slot_MaxTime :: int
  Slot_JobIDs :: "string list"

definition Slot_Clone :: "SlotData option \<Rightarrow> SlotData option" where
  "Slot_Clone s =
     (case s of None \<Rightarrow> None
      | Some s \<Rightarrow> Some (s\<lparr>Slot_JobIDs := map (\<lambda>i. Slot_JobIDs s ! i) [0..<length (Slot_JobIDs s)]\<rparr>))"

lemma Slot_Clone_id [simp]: "Slot_Clone s = s"
  by (auto simp: Slot_Clone_def map_nth split: option.splits)

datatype JobStatus =
    StatusPending
  | StatusInProgress
  | StatusCompleted
  | StatusFailed
  | StatusCancelled
  | StatusTimeout
  | OtherStatus string

record ExecutionAttempt =
  Att_AttemptNum :: int
  Att_StartTime :: int
  Att_EndTime :: int
  Att_NodeID :: string
  Att_Status :: JobStatus
  Att_HTTPStatus :: int
  Att_ResponseTime :: int
  Att_ErrorMessage :: string
  Att_ErrorType :: string

record JobExecutionState =
  Exec_JobID :: string
  Exec_Status :: JobStatus
  Exec_AttemptCount :: int
  Exec_CreatedAt :: int
  Exec_FirstAttemptAt :: int
  Exec_LastAttemptAt :: int
  Exec_CompletedAt :: int
  Exec_CancelledAt :: int
  Exec_CancellationReason :: string
  Exec_ExecutingNodeID :: string
  Exec_Attempts :: "ExecutionAttempt list"

definition Exec_Clone :: "JobExecutionState option \<Rightarrow> JobExecutionState option" where
  "Exec_Clone s =
     (case s of None \<Rightarrow> None
      | Some s \<Rightarrow>
          Some (s\<lparr>Exec_Attempts := map (\<lambda>i. Exec_Attempts s ! i) [0..<length (Exec_Attempts s)]\<rparr>))"

lemma Exec_Clone_id [simp]: "Exec_Clone s = s"
  by (auto simp: Exec_Clone_def map_nth split: option.splits)

section \<open>Commands\<close>

datatype CommandType =
    CommandCreateJob
  | CommandDeleteJob
  | CommandCreateSlot
  | CommandDeleteSlot
  | CommandArchiveSlot
  | CommandUnarchiveSlot
  | CommandUpdateJobStatus
  | CommandRecordAttempt
  | CommandPruneAttempts
  | CommandUpdateMemoryUsage
  | CommandUpdateJobCount
  | OtherCommand string

record StatusCommand =
  SC_JobID :: string
  SC_Status :: JobStatus
  SC_NodeID :: string
  SC_Attempt :: "ExecutionAttempt option"
  SC_Timestamp :: int
  SC_CancellationReason :: string

record Command =
  Cmd_Type :: CommandType
  Cmd_Job :: "Job option"
  Cmd_ID :: string
  Cmd_Slot :: "SlotData option"
  Cmd_ColdSlot :: "SlotData option"
  Cmd_StatusCommand :: "StatusCommand option"
  Cmd_Attempts :: "ExecutionAttempt list"
  Cmd_MemoryDelta :: int
  Cmd_JobCountDelta :: int

text \<open>
  A composite literal of Go leaves the fields it does not name at their zero values;
  the empty string is no status constant.
\<close>

definition zero_StatusCommand :: StatusCommand where
  "zero_StatusCommand =
     \<lparr>SC_JobID = '''', SC_Status = OtherStatus '''', SC_NodeID = '''', SC_Attempt = None,
      SC_Timestamp = 0, SC_CancellationReason = ''''\<rparr>"

definition zero_Command :: Command where
  "zero_Command =
     \<lparr>Cmd_Type = OtherCommand '''', Cmd_Job = None, Cmd_ID = '''', Cmd_Slot = None,
      Cmd_ColdSlot = None, Cmd_StatusCommand = None, Cmd_Attempts = [],
      Cmd_MemoryDelta = 0, Cmd_JobCountDelta = 0\<rparr>"

definition zero_Attempt :: ExecutionAttempt where
  "zero_Attempt =
     \<lparr>Att_AttemptNum = 0, Att_StartTime = 0, Att_EndTime = 0, Att_NodeID = '''',
      Att_Status = OtherStatus '''', Att_HTTPStatus = 0, Att_ResponseTime = 0,
      Att_ErrorMessage = '''', Att_ErrorType = ''''\<rparr>"

text \<open>
  What \<open>json.Unmarshal\<close> makes of what \<open>json.Marshal\<close> wrote. Every field of a command
  comes back as it was, but \<open>omitempty\<close> drops an empty payload map, which comes back
  nil. (Empty and nil slices are one value here, and strings are valid UTF-8.)
\<close>

definition wire_Job :: "Job \<Rightarrow> Job" where
  "wire_Job j = j\<lparr>Job_Payload := (if Job_Payload j = Some [] then None else Job_Payload j)\<rparr>"

definition wire_Command :: "Command \<Rightarrow> Command" where
  "wire_Command c = c\<lparr>Cmd_Job := map_option wire_Job (Cmd_Job c)\<rparr>"

lemma wire_Job_ID [simp]: "Job_ID (wire_Job j) = Job_ID j"
  and wire_Job_Type [simp]: "Job_Type (wire_Job j) = Job_Type j"
  and wire_Job_Timestamp [simp]: "Job_Timestamp (wire_Job j) = Job_Timestamp j"
  and wire_Job_CreatedAt [simp]: "Job_CreatedAt (wire_Job j) = Job_CreatedAt j"
  and wire_Job_CronExpr [simp]: "Job_CronExpr (wire_Job j) = Job_CronExpr j"
  and wire_Job_LastDate [simp]: "Job_LastDate (wire_Job j) = Job_LastDate j"
  and wire_Job_WebhookURL [simp]: "Job_WebhookURL (wire_Job j) = Job_WebhookURL j"
  by (simp_all add: wire_Job_def)

lemma wire_Job_id: "Job_Payload j \<noteq> Some [] \<Longrightarrow> wire_Job j = j"
  by (simp add: wire_Job_def)

lemma wire_Job_idem [simp]: "wire_Job (wire_Job j) = wire_Job j"
  by (simp add: wire_Job_def)

lemma wire_Command_simps [simp]:
  "Cmd_Type (wire_Command c) = Cmd_Type c"
  "Cmd_Job (wire_Command c) = map_option wire_Job (Cmd_Job c)"
  "Cmd_ID (wire_Command c) = Cmd_ID c"
  "Cmd_Slot (wire_Command c) = Cmd_Slot c"
  "Cmd_ColdSlot (wire_Command c) = Cmd_ColdSlot c"
  "Cmd_StatusCommand (wire_Command c) = Cmd_StatusCommand c"
  "Cmd_Attempts (wire_Command c) = Cmd_Attempts c"
  "Cmd_MemoryDelta (wire_Command c) = Cmd_MemoryDelta c"
  "Cmd_JobCountDelta (wire_Command c) = Cmd_JobCountDelta c"
  by (simp_all add: wire_Command_def)

section \<open>Validation and requests\<close>

lemma Validate_None_iff:
  "Validate cron now j = None \<longleftrightarrow>
     Job_ID j \<noteq> '''' \<and>
     ((Job_Type j = JobUnico \<and> (\<exists>ts. Job_Timestamp j = Some ts \<and> now < ts)) \<or>
      (Job_Type j = JobRecurrente \<and> Job_CronExpr j \<noteq> '''' \<and> cron (Job_CronExpr j) \<noteq> None))"
  by (cases "Job_Type j") (auto simp: Validate_def not_le)

lemma ParseTimestamp_epoch: "in64 t \<Longrightarrow> ParseTimestamp tp (Sprintf_d t) = Some t"
proof -
  assume t: "in64 t"
  have "ParseInt (Sprintf_d t) = Some t"
    using t ParseInt_digits [of "Sprintf_nat (nat t)"] ParseInt_neg_digits [of "Sprintf_nat (nat (- t))"]
    by (simp add: Sprintf_d_def Sprintf_nat_digits)
  then show ?thesis by (simp add: ParseTimestamp_def)
qed

lemma ToJob_fields:
  assumes "ToJob tp now uuid r = Inr j"
  shows "Job_ID j = (if Req_ID r = '''' then uuid else Req_ID r)"
    and "Job_Type j = Req_Type r"
    and "Job_CronExpr j = Req_CronExpr r"
    and "Job_WebhookURL j = Req_WebhookURL r"
    and "Job_Payload j = Req_Payload r"
  using assms by (auto simp: ToJob_def Let_def split: if_splits)

lemma ToJob_times:
  assumes "ToJob tp now uuid r = Inr j"
  shows "Job_Timestamp j =
           (if Req_Type r = JobUnico \<and> Req_Timestamp r \<noteq> '''' then ParseTimestamp tp (Req_Timestamp r) else None)"
    and "Job_CreatedAt j =
           (if Req_Type r = JobRecurrente \<and> Req_Timestamp r \<noteq> ''''
            then the (ParseTimestamp tp (Req_Timestamp r)) else now)"
    and "Job_LastDate j =
           (if Req_Type r = JobRecurrente \<and> Req_LastDate r \<noteq> '''' then ParseTimestamp tp (Req_LastDate r) else None)"
  using assms by (auto simp: ToJob_def Let_def split: if_splits)

lemmas ToJob_result = ToJob_fields ToJob_times

end
