(* ===== verification/Cold_Store.thy ===== *)
theory Cold_Store
  imports Job_Types
begin

text \<open>
  The archive of cold slots: the interface \<open>ColdSlotStore\<close> of \<open>internal/store/fsm.go\<close>
  and its implementation \<open>BoltColdSlotStore\<close> of \<open>internal/store/cold_store.go\<close> over the
  bbolt database. The operations of bbolt are parameters; \<open>bolt_laws\<close> names what the
  code relies on. The contract of the interface is the locale \<open>cold_slot_store\<close>; the
  bolt store satisfies it for every lawful database, because \<open>itob\<close> is injective.
\<close>

section \<open>The interface and its contract\<close>

record 'c ColdSlotStore =
  PutColdSlot :: "int \<Rightarrow> SlotData \<Rightarrow> 'c \<Rightarrow> string option \<times> 'c"
  GetColdSlot :: "int \<Rightarrow> 'c \<Rightarrow> string + SlotData option"
  DeleteColdSlot :: "int \<Rightarrow> 'c \<Rightarrow> string option \<times> 'c"

text \<open>
  The contract: an archive holds a map from keys to slots; a put or a delete that returns
  no error changes the map at its key only, one that returns an error changes nothing,
  and a get that returns no error returns the entry of the map.
\<close>

locale cold_slot_store =
  fixes C :: "'c ColdSlotStore"
    and archived :: "'c \<Rightarrow> int \<Rightarrow> SlotData option"
  assumes put_ok: "in64 k \<Longrightarrow> PutColdSlot C k d c = (None, c') \<Longrightarrow>
      in64 q \<Longrightarrow> archived c' q = (if q = k then Some d else archived c q)"
    and put_error: "PutColdSlot C k d c = (Some e, c') \<Longrightarrow> archived c' q = archived c q"
    and get_ok: "GetColdSlot C k c = Inr r \<Longrightarrow> r = archived c k"
    and delete_ok: "in64 k \<Longrightarrow> DeleteColdSlot C k c = (None, c') \<Longrightarrow>
      in64 q \<Longrightarrow> archived c' q = (if q = k then None else archived c q)"
    and delete_error: "DeleteColdSlot C k c = (Some e, c') \<Longrightarrow> archived c' q = archived c q"
begin

lemma put_get:
  assumes "in64 k" "PutColdSlot C k d c = (None, c')" "GetColdSlot C k c' = Inr r"
  shows "r = Some d"
  using put_ok [OF assms(1,2,1)] get_ok [OF assms(3)] by simp

lemma put_get_other:
  assumes "in64 k" "in64 q" "q \<noteq> k" "PutColdSlot C k d c = (None, c')"
    and "GetColdSlot C q c = Inr r" "GetColdSlot C q c' = Inr r'"
  shows "r' = r"
  using put_ok [OF assms(1,4,2)] get_ok [OF assms(5)] get_ok [OF assms(6)] assms(3) by simp

lemma delete_get:
  assumes "in64 k" "DeleteColdSlot C k c = (None, c')" "GetColdSlot C k c' = Inr r"
  shows "r = None"
  using delete_ok [OF assms(1,2,1)] get_ok [OF assms(3)] by simp

end

section \<open>The bolt implementation\<close>

type_synonym byte = "8 word"

text \<open>
  The calls of bbolt made by \<open>cold_store.go\<close>: whether the bucket \<open>cold_slots\<close> exists, and
  a transaction that puts, gets or deletes one key of it. A transaction that cannot
  start or commit returns an error. A stored value is the JSON document of a slot, here
  the slot itself.
\<close>

record 'b bolt =
  bolt_bucket :: "'b \<Rightarrow> bool"
  bolt_put :: "byte list \<Rightarrow> SlotData \<Rightarrow> 'b \<Rightarrow> string option \<times> 'b"
  bolt_get :: "byte list \<Rightarrow> 'b \<Rightarrow> string + SlotData option"
  bolt_delete :: "byte list \<Rightarrow> 'b \<Rightarrow> string option \<times> 'b"

definition bolt_laws :: "'b bolt \<Rightarrow> ('b \<Rightarrow> byte list \<Rightarrow> SlotData option) \<Rightarrow> bool" where
  "bolt_laws B content \<longleftrightarrow>
     (\<forall>k d b b'. bolt_put B k d b = (None, b') \<longrightarrow> content b' = (content b)(k \<mapsto> d)) \<and>
     (\<forall>k d b b' e. bolt_put B k d b = (Some e, b') \<longrightarrow> content b' = content b) \<and>
     (\<forall>k b r. bolt_get B k b = Inr r \<longrightarrow> r = content b k) \<and>
     (\<forall>k b b'. bolt_delete B k b = (None, b') \<longrightarrow> content b' = (content b)(k := None)) \<and>
     (\<forall>k b b' e. bolt_delete B k b = (Some e, b') \<longrightarrow> content b' = content b) \<and>
     (\<forall>k b. \<not> bolt_bucket B b \<longrightarrow> content b k = None)"

text \<open>The big-endian bytes of the key: \<open>byte(v >> n)\<close> for \<open>n = 56, 48, \<dots>, 0\<close>.\<close>

definition itob :: "int \<Rightarrow> byte list" where
  "itob v = map (\<lambda>n. ucast (drop_bit n (word_of_int v :: 64 word)) :: byte)
              [56, 48, 40, 32, 24, 16, 8, 0]"

definition Bolt_PutColdSlot :: "'b bolt \<Rightarrow> int \<Rightarrow> SlotData \<Rightarrow> 'b \<Rightarrow> string option \<times> 'b" where
  "Bolt_PutColdSlot B key data b =
     (if \<not> bolt_bucket B b then (Some ''cold slots bucket not found'', b)
      else bolt_put B (itob key) data b)"

definition Bolt_GetColdSlot :: "'b bolt \<Rightarrow> int \<Rightarrow> 'b \<Rightarrow> string + SlotData option" where
  "Bolt_GetColdSlot B key b =
     (if \<not> bolt_bucket B b then Inl ''cold slots bucket not found''
      else case bolt_get B (itob key) b of
        Inl err \<Rightarrow> Inl err
      | Inr None \<Rightarrow> Inr None
      | Inr (Some slotData) \<Rightarrow> Inr (Some slotData))"

definition Bolt_DeleteColdSlot :: "'b bolt \<Rightarrow> int \<Rightarrow> 'b \<Rightarrow> string option \<times> 'b" where
  "Bolt_DeleteColdSlot B key b =
     (if \<not> bolt_bucket B b then (None, b) else bolt_delete B (itob key) b)"

definition BoltColdSlotStore :: "'b bolt \<Rightarrow> 'b ColdSlotStore" where
  "BoltColdSlotStore B =
     \<lparr>PutColdSlot = Bolt_PutColdSlot B, GetColdSlot = Bolt_GetColdSlot B,
      DeleteColdSlot = Bolt_DeleteColdSlot B\<rparr>"

lemma length_itob [simp]: "length (itob v) = 8"
  by (simp add: itob_def)

lemma itob_word_inj:
  assumes "itob v = itob v'"
  shows "(word_of_int v :: 64 word) = word_of_int v'"
proof (rule bit_word_eqI)
  fix n assume n: "n < LENGTH(64)"
  let ?w = "word_of_int v :: 64 word" and ?w' = "word_of_int v' :: 64 word"
  let ?m = "8 * (n div 8)"
  have "n div 8 < 8" using n by simp
  then have "n div 8 \<in> {0, 1, 2, 3, 4, 5, 6, 7}" by auto
  then have "?m \<in> set [56, 48, 40, 32, 24, 16, 8, 0 :: nat]" by auto
  then have "(ucast (drop_bit ?m ?w) :: byte) = ucast (drop_bit ?m ?w')"
    using assms by (auto simp: itob_def)
  then have "bit (ucast (drop_bit ?m ?w) :: byte) (n mod 8) = bit (ucast (drop_bit ?m ?w') :: byte) (n mod 8)"
    by simp
  then show "bit ?w n = bit ?w' n"
    by (simp add: bit_ucast_iff bit_drop_bit_eq)
qed

lemma itob_inj:
  assumes "in64 v" "in64 v'" "itob v = itob v'"
  shows "v = v'"
proof -
  have "sint (word_of_int v :: 64 word) = sint (word_of_int v' :: 64 word)"
    using itob_word_inj [OF assms(3)] by simp
  moreover have "sint (word_of_int x :: 64 word) = x" if "in64 x" for x
    using that i64_id [OF that] by (simp add: int_word_sint i64_def)
  ultimately show ?thesis using assms by simp
qed

lemma itob_eq_iff [simp]: "in64 v \<Longrightarrow> in64 v' \<Longrightarrow> itob v = itob v' \<longleftrightarrow> v = v'"
  using itob_inj by blast

lemma bolt_laws_error:
  assumes "bolt_laws B content"
  shows "bolt_put B k d b = (Some e, b') \<Longrightarrow> content b' = content b"
    and "bolt_delete B k b = (Some e, b') \<Longrightarrow> content b' = content b"
  using assms unfolding bolt_laws_def by metis+

lemma bolt_laws_ok:
  assumes "bolt_laws B content"
  shows "bolt_put B k d b = (None, b') \<Longrightarrow> content b' = (content b)(k \<mapsto> d)"
    and "bolt_get B k b = Inr r \<Longrightarrow> content b k = r"
    and "bolt_delete B k b = (None, b') \<Longrightarrow> content b' = (content b)(k := None)"
    and "\<not> bolt_bucket B b \<Longrightarrow> content b k = None"
  using assms unfolding bolt_laws_def by metis+

text \<open>Every lawful database makes the bolt store an archive as the contract wants it.\<close>

lemma bolt_cold_slot_store:
  assumes "bolt_laws B content"
  shows "cold_slot_store (BoltColdSlotStore B) (\<lambda>b k. content b (itob k))"
  by unfold_locales
    (auto simp: bolt_laws_ok [OF assms] bolt_laws_error [OF assms] BoltColdSlotStore_def
       Bolt_PutColdSlot_def Bolt_GetColdSlot_def Bolt_DeleteColdSlot_def
       split: if_splits sum.splits option.splits)

text \<open>A database held in memory, whose transactions all commit.\<close>

definition memory_bolt :: "(byte list \<Rightarrow> SlotData option) bolt" where
  "memory_bolt =
     \<lparr>bolt_bucket = (\<lambda>b. True), bolt_put = (\<lambda>k d b. (None, b(k \<mapsto> d))),
      bolt_get = (\<lambda>k b. Inr (b k)), bolt_delete = (\<lambda>k b. (None, b(k := None)))\<rparr>"

lemma memory_bolt_laws: "bolt_laws memory_bolt (\<lambda>b. b)"
  by (simp add: bolt_laws_def memory_bolt_def)

abbreviation memory_archive :: "(byte list \<Rightarrow> SlotData option) ColdSlotStore" where
  "memory_archive \<equiv> BoltColdSlotStore memory_bolt"

interpretation bolt_archive: cold_slot_store memory_archive "\<lambda>b k. b (itob k)"
  by (rule bolt_cold_slot_store [OF memory_bolt_laws])

lemma memory_archive_simps [simp]:
  "PutColdSlot memory_archive k d b = (None, b(itob k \<mapsto> d))"
  "GetColdSlot memory_archive k b = Inr (b (itob k))"
  "DeleteColdSlot memory_archive k b = (None, b(itob k := None))"
  by (auto simp: BoltColdSlotStore_def Bolt_PutColdSlot_def Bolt_GetColdSlot_def
      Bolt_DeleteColdSlot_def memory_bolt_def split: option.splits)

end
