(* ===== verification/FSM.thy ===== *)
theory FSM
  imports Cold_Store
begin

text \<open>
  The replicated state machine of \<open>internal/store/fsm.go\<close>: the record \<open>FSM\<close>, the
  dispatcher \<open>applyCommandInternal\<close> with its eleven commands, the status machine
  \<open>validTransitions\<close>, the read operations and the snapshot. The archive behind
  \<open>coldStore\<close> is reached through the interface \<open>ColdSlotStore\<close>, the first argument
  \<open>C\<close> of the operations that call it. The mutex makes every operation atomic, so a run
  of the machine is a sequence of commands.
\<close>

named_theorems fsm_defs \<open>the operations of the state machine\<close>
named_theorems fsm_inv \<open>preservation of the invariants, command by command\<close>

section \<open>State and results\<close>

record 'c FSM =
  jobs :: "(string, Job) fmap"
  slots :: "(int, SlotData) fmap"
  coldSlotMeta :: "(int, bool) fmap"
  coldStore :: "'c option"
  executionStates :: "(string, JobExecutionState) fmap"
  memoryUsage :: int
  jobCount :: int

definition NewFSM :: "'c FSM" where
  "NewFSM = \<lparr>jobs = fmempty, slots = fmempty, coldSlotMeta = fmempty, coldStore = None,
             executionStates = fmempty, memoryUsage = 0, jobCount = 0\<rparr>"

definition NewFSMWithColdStore :: "'c \<Rightarrow> 'c FSM" where
  "NewFSMWithColdStore c =
     \<lparr>jobs = fmempty, slots = fmempty, coldSlotMeta = fmempty, coldStore = Some c,
      executionStates = fmempty, memoryUsage = 0, jobCount = 0\<rparr>"

datatype fsm_error =
    ErrJobRequired
  | ErrJobIDRequired
  | ErrSlotRequired
  | ErrSlotKeyRequired
  | ErrInvalidSlotKey string
  | ErrColdSlotRequired
  | ErrColdStoreNotEnabled
  | ErrArchiveFailed int string
  | ErrUnarchiveFailed int string
  | ErrStatusCommandRequired
  | ErrUnknownStatus JobStatus
  | ErrInvalidTransition JobStatus JobStatus
  | ErrStateNotFound string
  | ErrAttemptRequired
  | ErrUnknownCommand CommandType
  | ErrUnmarshal

text \<open>The \<open>interface{}\<close> that \<open>applyCommandInternal\<close> returns.\<close>

datatype apply_result = RNil | RJob Job | RSlot SlotData | RInt int | RError fsm_error

section \<open>The status machine\<close>

definition validTransitions :: "JobStatus \<Rightarrow> JobStatus list option" where
  "validTransitions st =
     (case st of
        StatusPending \<Rightarrow> Some [StatusInProgress, StatusCancelled]
      | StatusInProgress \<Rightarrow> Some [StatusCompleted, StatusFailed, StatusTimeout, StatusCancelled]
      | StatusTimeout \<Rightarrow> Some [StatusInProgress]
      | StatusFailed \<Rightarrow> Some [StatusInProgress]
      | StatusCompleted \<Rightarrow> Some []
      | StatusCancelled \<Rightarrow> Some []
      | OtherStatus s \<Rightarrow> None)"

definition validateStateTransition :: "JobStatus \<Rightarrow> JobStatus \<Rightarrow> fsm_error option" where
  "validateStateTransition from_st to_st =
     (case validTransitions from_st of
        None \<Rightarrow> Some (ErrUnknownStatus from_st)
      | Some allowed \<Rightarrow>
          if to_st \<in> set allowed then None else Some (ErrInvalidTransition from_st to_st))"

section \<open>Commands\<close>

definition new_execution_state :: "string \<Rightarrow> int \<Rightarrow> JobExecutionState" where
  "new_execution_state jobID createdAt =
     \<lparr>Exec_JobID = jobID, Exec_Status = StatusPending, Exec_AttemptCount = 0,
      Exec_CreatedAt = createdAt, Exec_FirstAttemptAt = 0, Exec_LastAttemptAt = 0,
      Exec_CompletedAt = 0, Exec_CancelledAt = 0, Exec_CancellationReason = '''',
      Exec_ExecutingNodeID = '''', Exec_Attempts = []\<rparr>"

text \<open>The assignments of the \<open>switch cmd.Status\<close> in \<open>applyStatusUpdate\<close>.\<close>

definition status_fields :: "StatusCommand \<Rightarrow> JobExecutionState \<Rightarrow> JobExecutionState" where
  "status_fields cmd state =
     (case SC_Status cmd of
        StatusInProgress \<Rightarrow>
          state\<lparr>Exec_FirstAttemptAt :=
                  (if Exec_FirstAttemptAt state = 0 then SC_Timestamp cmd else Exec_FirstAttemptAt state),
                Exec_LastAttemptAt := SC_Timestamp cmd,
                Exec_ExecutingNodeID := SC_NodeID cmd,
                Exec_AttemptCount := add64 (Exec_AttemptCount state) 1\<rparr>
      | StatusCompleted \<Rightarrow>
          state\<lparr>Exec_CompletedAt := SC_Timestamp cmd, Exec_ExecutingNodeID := ''''\<rparr>
      | StatusFailed \<Rightarrow>
          state\<lparr>Exec_CompletedAt := SC_Timestamp cmd, Exec_ExecutingNodeID := ''''\<rparr>
      | StatusCancelled \<Rightarrow>
          state\<lparr>Exec_CompletedAt := SC_Timestamp cmd, Exec_CancelledAt := SC_Timestamp cmd,
                Exec_CancellationReason := SC_CancellationReason cmd, Exec_ExecutingNodeID := ''''\<rparr>
      | StatusTimeout \<Rightarrow> state\<lparr>Exec_ExecutingNodeID := ''''\<rparr>
      | _ \<Rightarrow> state)"

definition applyStatusUpdate :: "StatusCommand \<Rightarrow> 'c FSM \<Rightarrow> apply_result \<times> 'c FSM" where
  "applyStatusUpdate cmd f =
     (let (state, f) =
            (case fmlookup (executionStates f) (SC_JobID cmd) of
               Some state \<Rightarrow> (state, f)
             | None \<Rightarrow>
                 let state = new_execution_state (SC_JobID cmd) (SC_Timestamp cmd)
                 in (state, f\<lparr>executionStates := fmupd (SC_JobID cmd) state (executionStates f)\<rparr>))
      in case validateStateTransition (Exec_Status state) (SC_Status cmd) of
           Some err \<Rightarrow> (RError err, f)
         | None \<Rightarrow>
             let state = status_fields cmd (state\<lparr>Exec_Status := SC_Status cmd\<rparr>)
             in (RNil, f\<lparr>executionStates := fmupd (SC_JobID cmd) state (executionStates f)\<rparr>))"

definition applyRecordAttempt :: "StatusCommand \<Rightarrow> 'c FSM \<Rightarrow> apply_result \<times> 'c FSM" where
  "applyRecordAttempt cmd f =
     (case fmlookup (executionStates f) (SC_JobID cmd) of
        None \<Rightarrow> (RError (ErrStateNotFound (SC_JobID cmd)), f)
      | Some state \<Rightarrow>
          (case SC_Attempt cmd of
             None \<Rightarrow> (RError ErrAttemptRequired, f)
           | Some attempt \<Rightarrow>
               (RNil, f\<lparr>executionStates :=
                  fmupd (SC_JobID cmd) (state\<lparr>Exec_Attempts := Exec_Attempts state @ [attempt]\<rparr>)
                    (executionStates f)\<rparr>)))"

definition applyPruneAttempts ::
  "StatusCommand \<Rightarrow> ExecutionAttempt list \<Rightarrow> 'c FSM \<Rightarrow> apply_result \<times> 'c FSM" where
  "applyPruneAttempts cmd keptAttempts f =
     (case fmlookup (executionStates f) (SC_JobID cmd) of
        None \<Rightarrow> (RError (ErrStateNotFound (SC_JobID cmd)), f)
      | Some state \<Rightarrow>
          (RNil, f\<lparr>executionStates :=
             fmupd (SC_JobID cmd) (state\<lparr>Exec_Attempts := keptAttempts\<rparr>) (executionStates f)\<rparr>))"

text \<open>\<open>Add\<close> wraps around; a negative sum is stored as 0.\<close>

definition applyMemoryUpdate :: "int \<Rightarrow> 'c FSM \<Rightarrow> apply_result \<times> 'c FSM" where
  "applyMemoryUpdate delta f =
     (let newVal = add64 (memoryUsage f) delta;
          f = f\<lparr>memoryUsage := newVal\<rparr>;
          f = (if newVal < 0 then f\<lparr>memoryUsage := 0\<rparr> else f)
      in (RInt (memoryUsage f), f))"

definition applyJobCountUpdate :: "int \<Rightarrow> 'c FSM \<Rightarrow> apply_result \<times> 'c FSM" where
  "applyJobCountUpdate delta f =
     (let newVal = add64 (jobCount f) delta;
          f = f\<lparr>jobCount := newVal\<rparr>;
          f = (if newVal < 0 then f\<lparr>jobCount := 0\<rparr> else f)
      in (RInt (jobCount f), f))"

definition applyCreateJob :: "Command \<Rightarrow> 'c FSM \<Rightarrow> apply_result \<times> 'c FSM" where
  "applyCreateJob cmd f =
     (case Cmd_Job cmd of
        None \<Rightarrow> (RError ErrJobRequired, f)
      | Some job \<Rightarrow>
          (RJob job,
           f\<lparr>jobs := fmupd (Job_ID job) job (jobs f),
             executionStates :=
               fmupd (Job_ID job) (new_execution_state (Job_ID job) (Job_CreatedAt job))
                 (executionStates f)\<rparr>))"

definition applyDeleteJob :: "Command \<Rightarrow> 'c FSM \<Rightarrow> apply_result \<times> 'c FSM" where
  "applyDeleteJob cmd f =
     (if Cmd_ID cmd = '''' then (RError ErrJobIDRequired, f)
      else (RNil, f\<lparr>jobs := fmdrop (Cmd_ID cmd) (jobs f),
                    executionStates := fmdrop (Cmd_ID cmd) (executionStates f)\<rparr>))"

definition applyCreateSlot :: "Command \<Rightarrow> 'c FSM \<Rightarrow> apply_result \<times> 'c FSM" where
  "applyCreateSlot cmd f =
     (case Cmd_Slot cmd of
        None \<Rightarrow> (RError ErrSlotRequired, f)
      | Some slot \<Rightarrow> (RSlot slot, f\<lparr>slots := fmupd (Slot_Key slot) slot (slots f)\<rparr>))"

definition applyDeleteSlot :: "'c ColdSlotStore \<Rightarrow> Command \<Rightarrow> 'c FSM \<Rightarrow> apply_result \<times> 'c FSM" where
  "applyDeleteSlot C cmd f =
     (if Cmd_ID cmd = '''' then (RError ErrSlotKeyRequired, f)
      else case Sscanf_d (Cmd_ID cmd) of
        None \<Rightarrow> (RError (ErrInvalidSlotKey (Cmd_ID cmd)), f)
      | Some key \<Rightarrow>
          (RNil, f\<lparr>slots := fmdrop key (slots f), coldSlotMeta := fmdrop key (coldSlotMeta f),
                   coldStore := map_option (\<lambda>c. snd (DeleteColdSlot C key c)) (coldStore f)\<rparr>))"

definition applyArchiveSlot :: "'c ColdSlotStore \<Rightarrow> Command \<Rightarrow> 'c FSM \<Rightarrow> apply_result \<times> 'c FSM" where
  "applyArchiveSlot C cmd f =
     (case Cmd_ColdSlot cmd of
        None \<Rightarrow> (RError ErrColdSlotRequired, f)
      | Some slot \<Rightarrow>
          (case coldStore f of
             None \<Rightarrow> (RError ErrColdStoreNotEnabled, f)
           | Some c \<Rightarrow>
               (case PutColdSlot C (Slot_Key slot) slot c of
                  (Some err, c) \<Rightarrow> (RError (ErrArchiveFailed (Slot_Key slot) err), f\<lparr>coldStore := Some c\<rparr>)
                | (None, c) \<Rightarrow>
                    (RNil, f\<lparr>coldStore := Some c, slots := fmdrop (Slot_Key slot) (slots f),
                             coldSlotMeta := fmupd (Slot_Key slot) True (coldSlotMeta f)\<rparr>))))"

definition applyUnarchiveSlot :: "'c ColdSlotStore \<Rightarrow> Command \<Rightarrow> 'c FSM \<Rightarrow> apply_result \<times> 'c FSM" where
  "applyUnarchiveSlot C cmd f =
     (if Cmd_ID cmd = '''' then (RError ErrSlotKeyRequired, f)
      else case coldStore f of
        None \<Rightarrow> (RError ErrColdStoreNotEnabled, f)
      | Some c \<Rightarrow>
          (case Sscanf_d (Cmd_ID cmd) of
             None \<Rightarrow> (RError (ErrInvalidSlotKey (Cmd_ID cmd)), f)
           | Some key \<Rightarrow>
               (case GetColdSlot C key c of
                  Inl err \<Rightarrow> (RError (ErrUnarchiveFailed key err), f)
                | Inr slotData \<Rightarrow>
                    (RNil, f\<lparr>slots := (case slotData of None \<Rightarrow> slots f
                                       | Some d \<Rightarrow> fmupd key d (slots f)),
                             coldStore := Some (snd (DeleteColdSlot C key c)),
                             coldSlotMeta := fmdrop key (coldSlotMeta f)\<rparr>))))"

definition applyCommandInternal ::
  "'c ColdSlotStore \<Rightarrow> Command \<Rightarrow> 'c FSM \<Rightarrow> apply_result \<times> 'c FSM" where
  "applyCommandInternal C cmd f =
     (case Cmd_Type cmd of
        CommandCreateJob \<Rightarrow> applyCreateJob cmd f
      | CommandDeleteJob \<Rightarrow> applyDeleteJob cmd f
      | CommandCreateSlot \<Rightarrow> applyCreateSlot cmd f
      | CommandDeleteSlot \<Rightarrow> applyDeleteSlot C cmd f
      | CommandArchiveSlot \<Rightarrow> applyArchiveSlot C cmd f
      | CommandUnarchiveSlot \<Rightarrow> applyUnarchiveSlot C cmd f
      | CommandUpdateJobStatus \<Rightarrow>
          (case Cmd_StatusCommand cmd of None \<Rightarrow> (RError ErrStatusCommandRequired, f)
           | Some sc \<Rightarrow> applyStatusUpdate sc f)
      | CommandRecordAttempt \<Rightarrow>
          (case Cmd_StatusCommand cmd of None \<Rightarrow> (RError ErrStatusCommandRequired, f)
           | Some sc \<Rightarrow> applyRecordAttempt sc f)
      | CommandPruneAttempts \<Rightarrow>
          (case Cmd_StatusCommand cmd of None \<Rightarrow> (RError ErrStatusCommandRequired, f)
           | Some sc \<Rightarrow> applyPruneAttempts sc (Cmd_Attempts cmd) f)
      | CommandUpdateMemoryUsage \<Rightarrow> applyMemoryUpdate (Cmd_MemoryDelta cmd) f
      | CommandUpdateJobCount \<Rightarrow> applyJobCountUpdate (Cmd_JobCountDelta cmd) f
      | OtherCommand s \<Rightarrow> (RError (ErrUnknownCommand (Cmd_Type cmd)), f))"

definition ApplyCommand :: "'c ColdSlotStore \<Rightarrow> Command \<Rightarrow> 'c FSM \<Rightarrow> apply_result \<times> 'c FSM" where
  "ApplyCommand C cmd f = applyCommandInternal C cmd f"

section \<open>Reads\<close>

definition GetJob :: "'c FSM \<Rightarrow> string \<Rightarrow> Job option" where
  "GetJob f i = (case fmlookup (jobs f) i of None \<Rightarrow> None | Some job \<Rightarrow> Job_Clone (Some job))"

definition GetAllJobs :: "'c FSM \<Rightarrow> (string, Job) fmap" where
  "GetAllJobs f = fmmap (\<lambda>v. the (Job_Clone (Some v))) (jobs f)"

definition IsSlotCold :: "'c FSM \<Rightarrow> int \<Rightarrow> bool" where
  "IsSlotCold f key = (case fmlookup (coldSlotMeta f) key of None \<Rightarrow> False | Some b \<Rightarrow> b)"

definition GetSlot :: "'c ColdSlotStore \<Rightarrow> 'c FSM \<Rightarrow> int \<Rightarrow> SlotData option" where
  "GetSlot C f key =
     (case fmlookup (slots f) key of
        Some slot \<Rightarrow> Slot_Clone (Some slot)
      | None \<Rightarrow>
          (case coldStore f of
             None \<Rightarrow> None
           | Some c \<Rightarrow>
               if IsSlotCold f key
               then (case GetColdSlot C key c of
                       Inl err \<Rightarrow> None
                     | Inr coldSlot \<Rightarrow> Slot_Clone coldSlot)
               else None))"

definition GetAllSlots :: "'c FSM \<Rightarrow> (int, SlotData) fmap" where
  "GetAllSlots f = fmmap (\<lambda>v. the (Slot_Clone (Some v))) (slots f)"

definition GetColdSlotKeys :: "int key_order \<Rightarrow> 'c FSM \<Rightarrow> int list" where
  "GetColdSlotKeys r f = r (fmdom' (coldSlotMeta f))"

definition GetHotSlotCount :: "'c FSM \<Rightarrow> int" where
  "GetHotSlotCount f = map_len (slots f)"

definition GetColdSlotCount :: "'c FSM \<Rightarrow> int" where
  "GetColdSlotCount f = map_len (coldSlotMeta f)"

definition GetExecutionState :: "'c FSM \<Rightarrow> string \<Rightarrow> JobExecutionState option" where
  "GetExecutionState f jobID =
     (case fmlookup (executionStates f) jobID of None \<Rightarrow> None | Some st \<Rightarrow> Exec_Clone (Some st))"

definition GetAllExecutionStates :: "'c FSM \<Rightarrow> (string, JobExecutionState) fmap" where
  "GetAllExecutionStates f = fmmap (\<lambda>v. the (Exec_Clone (Some v))) (executionStates f)"

definition GetMemoryUsage :: "'c FSM \<Rightarrow> int" where "GetMemoryUsage f = memoryUsage f"
definition GetJobCount :: "'c FSM \<Rightarrow> int" where "GetJobCount f = jobCount f"

record Snapshot =
  Snap_jobs :: "(string, Job) fmap"
  Snap_slots :: "(int, SlotData) fmap"
  Snap_coldSlotMeta :: "(int, bool) fmap"
  Snap_executionStates :: "(string, JobExecutionState) fmap"
  Snap_memoryUsage :: int
  Snap_jobCount :: int

definition GetSnapshot :: "'c FSM \<Rightarrow> Snapshot" where
  "GetSnapshot f =
     \<lparr>Snap_jobs = fmmap (\<lambda>v. the (Job_Clone (Some v))) (jobs f),
      Snap_slots = fmmap (\<lambda>v. the (Slot_Clone (Some v))) (slots f),
      Snap_coldSlotMeta = coldSlotMeta f,
      Snap_executionStates = fmmap (\<lambda>v. the (Exec_Clone (Some v))) (executionStates f),
      Snap_memoryUsage = memoryUsage f,
      Snap_jobCount = jobCount f\<rparr>"

lemma fmmap_id [simp]: "fmmap (\<lambda>v. v) m = m"
  by (rule fmap_ext) (simp add: option.map_ident)

lemma reads_simps [simp]:
  "GetJob f i = fmlookup (jobs f) i"
  "GetAllJobs f = jobs f"
  "GetAllSlots f = slots f"
  "GetExecutionState f i = fmlookup (executionStates f) i"
  "GetAllExecutionStates f = executionStates f"
  "GetMemoryUsage f = memoryUsage f"
  "GetJobCount f = jobCount f"
  by (simp_all add: GetJob_def GetAllJobs_def GetAllSlots_def GetExecutionState_def
      GetAllExecutionStates_def GetMemoryUsage_def GetJobCount_def split: option.splits)

lemma GetSlot_hot [simp]: "fmlookup (slots f) k = Some s \<Longrightarrow> GetSlot C f k = Some s"
  by (simp add: GetSlot_def)

lemmas apply_defs [fsm_defs] =
  applyCommandInternal_def applyCreateJob_def applyDeleteJob_def applyCreateSlot_def
  applyDeleteSlot_def applyArchiveSlot_def applyUnarchiveSlot_def applyStatusUpdate_def
  applyRecordAttempt_def applyPruneAttempts_def applyMemoryUpdate_def applyJobCountUpdate_def

end
