(* ===== verification/FSM_Invariants.thy ===== *)
theory FSM_Invariants
  imports FSM
begin

text \<open>
  What the state machine of theory \<open>FSM\<close> keeps: well-formedness of its maps in every
  reachable state, the life cycle of a job status against an independent description of
  it, saturation of the two counters, what an error leaves behind, and the archive and
  unarchive commands against the contract of the cold store.
\<close>

section \<open>Life cycle of a status\<close>

text \<open>The intended life cycle, stated apart from the table \<open>validTransitions\<close>.\<close>

inductive legal_transition :: "JobStatus \<Rightarrow> JobStatus \<Rightarrow> bool" where
  start: "legal_transition StatusPending StatusInProgress"
| cancel_pending: "legal_transition StatusPending StatusCancelled"
| complete: "legal_transition StatusInProgress StatusCompleted"
| fail: "legal_transition StatusInProgress StatusFailed"
| expire: "legal_transition StatusInProgress StatusTimeout"
| cancel_running: "legal_transition StatusInProgress StatusCancelled"
| retry_failed: "legal_transition StatusFailed StatusInProgress"
| retry_expired: "legal_transition StatusTimeout StatusInProgress"

inductive_simps legal_simps [simp]:
  "legal_transition StatusPending t"
  "legal_transition StatusInProgress t"
  "legal_transition StatusCompleted t"
  "legal_transition StatusFailed t"
  "legal_transition StatusCancelled t"
  "legal_transition StatusTimeout t"
  "legal_transition (OtherStatus s) t"

lemma validate_iff_legal: "validateStateTransition a b = None \<longleftrightarrow> legal_transition a b"
  by (cases a) (auto simp: validateStateTransition_def validTransitions_def)

lemma legal_rtranclp_terminal:
  assumes "legal_transition\<^sup>*\<^sup>* a b" and "a = StatusCompleted \<or> a = StatusCancelled"
  shows "b = a"
  using assms by (induction rule: rtranclp_induct) auto

section \<open>Effect of a command on one execution state\<close>

text \<open>Commands that replace or remove the state of job \<open>i\<close>.\<close>

definition resets_job :: "string \<Rightarrow> Command \<Rightarrow> bool" where
  "resets_job i cmd \<longleftrightarrow>
     (Cmd_Type cmd = CommandCreateJob \<and> (\<exists>j. Cmd_Job cmd = Some j \<and> Job_ID j = i)) \<or>
     (Cmd_Type cmd = CommandDeleteJob \<and> Cmd_ID cmd = i)"

lemma status_fields_status [simp]:
  "Exec_Status (status_fields cmd s) = Exec_Status s"
  "Exec_JobID (status_fields cmd s) = Exec_JobID s"
  "Exec_Attempts (status_fields cmd s) = Exec_Attempts s"
  "Exec_CreatedAt (status_fields cmd s) = Exec_CreatedAt s"
  by (simp_all add: status_fields_def split: JobStatus.splits)

lemma status_fields_count:
  "Exec_AttemptCount (status_fields cmd s) =
     (if SC_Status cmd = StatusInProgress then add64 (Exec_AttemptCount s) 1 else Exec_AttemptCount s)"
  by (simp add: status_fields_def split: JobStatus.splits)

text \<open>
  One command either keeps the status of an execution state and its count of attempts, or
  moves the status along a legal transition.
\<close>

definition same_progress :: "JobExecutionState \<Rightarrow> JobExecutionState \<Rightarrow> bool" where
  "same_progress s s' \<longleftrightarrow>
     Exec_Status s' = Exec_Status s \<and> Exec_AttemptCount s' = Exec_AttemptCount s \<and>
     Exec_CompletedAt s' = Exec_CompletedAt s \<and> Exec_CancelledAt s' = Exec_CancelledAt s \<and>
     Exec_CancellationReason s' = Exec_CancellationReason s"

lemma same_progress_refl [simp]: "same_progress s s"
  by (simp add: same_progress_def)

lemma applyStatusUpdate_effect:
  assumes "fmlookup (executionStates f) i = Some s" "applyStatusUpdate sc f = (r, f')"
  obtains (same) "fmlookup (executionStates f') i = Some s"
  | (moved) s' where "SC_JobID sc = i" "r = RNil" "legal_transition (Exec_Status s) (SC_Status sc)"
      "s' = status_fields sc (s\<lparr>Exec_Status := SC_Status sc\<rparr>)"
      "fmlookup (executionStates f') i = Some s'"
proof (cases "SC_JobID sc = i")
  case True
  show ?thesis
  proof (cases "validateStateTransition (Exec_Status s) (SC_Status sc)")
    case None
    with True assms have "r = RNil" "fmlookup (executionStates f') i =
        Some (status_fields sc (s\<lparr>Exec_Status := SC_Status sc\<rparr>))"
      by (auto simp: applyStatusUpdate_def Let_def)
    with None True show ?thesis by (intro moved) (simp_all add: validate_iff_legal)
  next
    case (Some e)
    with True assms have "fmlookup (executionStates f') i = Some s"
      by (auto simp: applyStatusUpdate_def Let_def)
    then show ?thesis by (rule same)
  qed
next
  case False
  with assms have "fmlookup (executionStates f') i = Some s"
    by (auto simp: applyStatusUpdate_def Let_def split: option.splits)
  then show ?thesis by (rule same)
qed

lemma other_commands_effect:
  assumes "fmlookup (executionStates f) i = Some s" "applyCommandInternal C cmd f = (r, f')"
    and "\<not> resets_job i cmd" "Cmd_Type cmd \<noteq> CommandUpdateJobStatus"
  shows "\<exists>s'. fmlookup (executionStates f') i = Some s' \<and> same_progress s s'"
  using assms
  by (cases "Cmd_Type cmd")
    (auto simp: fsm_defs Let_def same_progress_def resets_job_def
       split: option.splits if_splits prod.splits sum.splits)

lemma command_effect:
  assumes "fmlookup (executionStates f) i = Some s" "applyCommandInternal C cmd f = (r, f')"
    and "\<not> resets_job i cmd"
  obtains s' where "fmlookup (executionStates f') i = Some s'" "same_progress s s'"
  | s' where "fmlookup (executionStates f') i = Some s'"
      "legal_transition (Exec_Status s) (Exec_Status s')"
proof (cases "Cmd_Type cmd = CommandUpdateJobStatus")
  case False
  then show ?thesis using other_commands_effect [OF assms] that by blast
next
  case True
  show ?thesis
  proof (cases "Cmd_StatusCommand cmd")
    case None
    with True assms(1,2) have "fmlookup (executionStates f') i = Some s"
      by (auto simp: applyCommandInternal_def)
    then show ?thesis by (rule that(1)) simp
  next
    case (Some sc)
    with True assms(2) have "applyStatusUpdate sc f = (r, f')"
      by (simp add: applyCommandInternal_def)
    with assms(1) show ?thesis
      by (cases rule: applyStatusUpdate_effect) (auto intro: that)
  qed
qed

section \<open>Runs\<close>

fun run :: "'c ColdSlotStore \<Rightarrow> Command list \<Rightarrow> 'c FSM \<Rightarrow> 'c FSM" where
  "run C [] f = f"
| "run C (cmd # cmds) f = run C cmds (snd (applyCommandInternal C cmd f))"

lemma run_append: "run C (xs @ ys) f = run C ys (run C xs f)"
  by (induction xs arbitrary: f) auto

lemma run_status_path:
  assumes "fmlookup (executionStates f) i = Some s" "\<forall>cmd \<in> set cmds. \<not> resets_job i cmd"
  shows "\<exists>s'. fmlookup (executionStates (run C cmds f)) i = Some s' \<and>
              legal_transition\<^sup>*\<^sup>* (Exec_Status s) (Exec_Status s')"
  using assms
proof (induction cmds arbitrary: f s)
  case Nil
  then show ?case by auto
next
  case (Cons cmd cmds)
  obtain r f' where step: "applyCommandInternal C cmd f = (r, f')" by fastforce
  from Cons.prems have "\<not> resets_job i cmd" by simp
  with Cons.prems(1) step obtain s1 where
    s1: "fmlookup (executionStates f') i = Some s1"
    and path: "legal_transition\<^sup>*\<^sup>* (Exec_Status s) (Exec_Status s1)"
    by (cases rule: command_effect) (auto simp: same_progress_def)
  from Cons.IH [OF s1] Cons.prems(2) path show ?case
    by (fastforce simp: step)
qed

lemma run_terminal:
  assumes "fmlookup (executionStates f) i = Some s"
    and "Exec_Status s = StatusCompleted \<or> Exec_Status s = StatusCancelled"
    and "\<forall>cmd \<in> set cmds. \<not> resets_job i cmd"
  shows "\<exists>s'. fmlookup (executionStates (run C cmds f)) i = Some s' \<and> same_progress s s'"
  using assms
proof (induction cmds arbitrary: f s)
  case Nil
  then show ?case by auto
next
  case (Cons cmd cmds)
  obtain r f' where step: "applyCommandInternal C cmd f = (r, f')" by fastforce
  from Cons.prems have "\<not> resets_job i cmd" by simp
  with Cons.prems(1) step obtain s1 where
    s1: "fmlookup (executionStates f') i = Some s1" and same: "same_progress s s1"
    using Cons.prems(2) by (cases rule: command_effect) auto
  have "Exec_Status s1 = StatusCompleted \<or> Exec_Status s1 = StatusCancelled"
    using same Cons.prems(2) by (simp add: same_progress_def)
  from Cons.IH [OF s1 this] Cons.prems(3) same show ?case
    by (fastforce simp: step same_progress_def)
qed

section \<open>Well-formed states\<close>

definition fsm_wf :: "'c FSM \<Rightarrow> bool" where
  "fsm_wf f \<longleftrightarrow>
     (\<forall>i j. fmlookup (jobs f) i = Some j \<longrightarrow> Job_ID j = i) \<and>
     (\<forall>i s. fmlookup (executionStates f) i = Some s \<longrightarrow> Exec_JobID s = i) \<and>
     (\<forall>k s. fmlookup (slots f) k = Some s \<longrightarrow> Slot_Key s = k) \<and>
     fmdom' (jobs f) \<subseteq> fmdom' (executionStates f) \<and>
     0 \<le> memoryUsage f \<and> in64 (memoryUsage f) \<and> 0 \<le> jobCount f \<and> in64 (jobCount f)"

text \<open>Every slot of the archive is filed under its own key.\<close>

definition archive_wf :: "('c \<Rightarrow> int \<Rightarrow> SlotData option) \<Rightarrow> 'c FSM \<Rightarrow> bool" where
  "archive_wf archived f \<longleftrightarrow>
     (\<forall>c k d. coldStore f = Some c \<longrightarrow> in64 k \<longrightarrow> archived c k = Some d \<longrightarrow> Slot_Key d = k)"

text \<open>The keys a command carries are \<open>int64\<close> values.\<close>

definition well_typed_command :: "Command \<Rightarrow> bool" where
  "well_typed_command cmd \<longleftrightarrow>
     (\<forall>s. Cmd_Slot cmd = Some s \<longrightarrow> in64 (Slot_Key s)) \<and>
     (\<forall>s. Cmd_ColdSlot cmd = Some s \<longrightarrow> in64 (Slot_Key s))"

lemma NewFSM_wf [simp]: "fsm_wf NewFSM" "fsm_wf (NewFSMWithColdStore c)"
  by (simp_all add: fsm_wf_def NewFSM_def NewFSMWithColdStore_def in64_def)

lemma new_execution_state_JobID [simp]: "Exec_JobID (new_execution_state i t) = i"
  by (simp add: new_execution_state_def)

lemma Sscanf_in64: "Sscanf_d s = Some k \<Longrightarrow> in64 k"
  by (auto simp: Sscanf_d_def Let_def dest: ParseInt_in64 split: list.splits if_splits)

lemma wf_create_delete [fsm_inv]:
  assumes "fsm_wf f"
  shows "fsm_wf (snd (applyCreateJob cmd f))" "fsm_wf (snd (applyDeleteJob cmd f))"
    "fsm_wf (snd (applyCreateSlot cmd f))" "fsm_wf (snd (applyDeleteSlot C cmd f))"
    "fsm_wf (snd (applyArchiveSlot C cmd f))"
  using assms
  by (auto simp: fsm_wf_def applyCreateJob_def applyDeleteJob_def applyCreateSlot_def
      applyDeleteSlot_def applyArchiveSlot_def split: option.splits prod.splits if_splits)

lemma wf_counters [fsm_inv]:
  assumes "fsm_wf f"
  shows "fsm_wf (snd (applyMemoryUpdate d f))" "fsm_wf (snd (applyJobCountUpdate d f))"
  using assms
  by (simp_all add: fsm_wf_def applyMemoryUpdate_def applyJobCountUpdate_def Let_def not_less)

lemma wf_attempts [fsm_inv]:
  assumes "fsm_wf f"
  shows "fsm_wf (snd (applyRecordAttempt sc f))" "fsm_wf (snd (applyPruneAttempts sc xs f))"
  using assms
  by (auto simp: fsm_wf_def applyRecordAttempt_def applyPruneAttempts_def split: option.splits)

lemma wf_status [fsm_inv]:
  assumes "fsm_wf f"
  shows "fsm_wf (snd (applyStatusUpdate sc f))"
  using assms
  by (auto simp: fsm_wf_def applyStatusUpdate_def Let_def split: option.splits)

context cold_slot_store
begin

lemma wf_unarchive:
  assumes "fsm_wf f" "archive_wf archived f"
  shows "fsm_wf (snd (applyUnarchiveSlot C cmd f))"
  using assms
  by (auto simp: fsm_wf_def archive_wf_def applyUnarchiveSlot_def
      dest!: get_ok Sscanf_in64 split: option.splits sum.splits if_splits)

lemma archived_put:
  assumes "in64 k" "in64 q"
  shows "archived (snd (PutColdSlot C k d c)) q \<in> {archived c q, if q = k then Some d else archived c q}"
  using put_ok [OF assms(1) _ assms(2), of d c] put_error [of k d c _ _ q]
  by (cases "PutColdSlot C k d c"; cases "fst (PutColdSlot C k d c)") auto

lemma archived_delete:
  assumes "in64 k" "in64 q"
  shows "archived (snd (DeleteColdSlot C k c)) q \<in> {archived c q, None}"
  using delete_ok [OF assms(1) _ assms(2), of c] delete_error [of k c _ _ q]
  by (cases "DeleteColdSlot C k c"; cases "fst (DeleteColdSlot C k c)") auto

text \<open>How the archive of the machine after a command comes from the one before.\<close>

lemma archive_step:
  assumes "well_typed_command cmd" "coldStore (snd (applyCommandInternal C cmd f)) = Some c'"
  obtains (same) "coldStore f = Some c'"
  | (put) c d where "coldStore f = Some c" "in64 (Slot_Key d)" "c' = snd (PutColdSlot C (Slot_Key d) d c)"
  | (delete) c k where "coldStore f = Some c" "in64 k" "c' = snd (DeleteColdSlot C k c)"
proof (cases "Cmd_Type cmd")
  case CommandArchiveSlot
  with assms show ?thesis
    by (auto simp: applyCommandInternal_def applyArchiveSlot_def well_typed_command_def
        intro: same put split: option.splits prod.splits)
next
  case CommandDeleteSlot
  with assms(2) show ?thesis
    by (auto simp: applyCommandInternal_def applyDeleteSlot_def intro: same delete dest: Sscanf_in64
        split: option.splits if_splits)
next
  case CommandUnarchiveSlot
  with assms(2) show ?thesis
    by (auto simp: applyCommandInternal_def applyUnarchiveSlot_def intro: same delete dest: Sscanf_in64
        split: option.splits if_splits sum.splits)
qed (use assms(2) in \<open>auto simp: fsm_defs Let_def intro!: same split: option.splits if_splits\<close>)

lemma archive_wf_command:
  assumes "archive_wf archived f" "well_typed_command cmd"
  shows "archive_wf archived (snd (applyCommandInternal C cmd f))"
  unfolding archive_wf_def
proof (intro allI impI)
  fix c' k x
  assume *: "coldStore (snd (applyCommandInternal C cmd f)) = Some c'" "in64 k" "archived c' k = Some x"
  from assms(2) *(1) show "Slot_Key x = k"
  proof (cases rule: archive_step)
    case same
    with * assms(1) show ?thesis by (simp add: archive_wf_def)
  next
    case (put c d)
    have "archived c' k = archived c k \<or> (k = Slot_Key d \<and> archived c' k = Some d)"
      using archived_put [OF put(2) *(2), of d c] unfolding put(3) by (cases "k = Slot_Key d") simp_all
    with * assms(1) put(1) show ?thesis unfolding archive_wf_def by (metis option.inject)
  next
    case (delete c q)
    with archived_delete [of q k c] * assms(1) show ?thesis by (auto simp: archive_wf_def)
  qed
qed

lemma wf_command:
  assumes "fsm_wf f" "archive_wf archived f"
  shows "fsm_wf (snd (applyCommandInternal C cmd f))"
  using assms fsm_inv [OF assms(1)] wf_unarchive [OF assms]
  by (cases "Cmd_Type cmd") (simp_all add: applyCommandInternal_def split: option.splits)

end

text \<open>
  The states the machine can reach by applying commands, from a fresh machine with or
  without a cold store.
\<close>

inductive fsm_reachable :: "'c ColdSlotStore \<Rightarrow> 'c option \<Rightarrow> 'c FSM \<Rightarrow> bool" for C c0 where
  init_hot: "c0 = None \<Longrightarrow> fsm_reachable C c0 NewFSM"
| init_cold: "c0 = Some c \<Longrightarrow> fsm_reachable C c0 (NewFSMWithColdStore c)"
| step: "fsm_reachable C c0 f \<Longrightarrow> well_typed_command cmd \<Longrightarrow>
     applyCommandInternal C cmd f = (r, f') \<Longrightarrow> fsm_reachable C c0 f'"

context cold_slot_store
begin

lemma reachable_inv:
  assumes "fsm_reachable C c0 f"
    and "\<And>c k d. c0 = Some c \<Longrightarrow> in64 k \<Longrightarrow> archived c k = Some d \<Longrightarrow> Slot_Key d = k"
  shows "fsm_wf f \<and> archive_wf archived f"
  using assms(1)
proof induction
  case init_hot
  show ?case by (simp add: archive_wf_def) (simp add: NewFSM_def)
next
  case (init_cold c)
  then show ?case using assms(2) by (simp add: archive_wf_def) (simp add: NewFSMWithColdStore_def)
next
  case (step f cmd r f')
  then show ?case
    using wf_command [of f cmd] archive_wf_command [of f cmd] by simp
qed

end

section \<open>Archive and unarchive\<close>

context cold_slot_store
begin

lemma archive_ok:
  assumes "applyArchiveSlot C cmd f = (RNil, f')" "Cmd_ColdSlot cmd = Some d" "in64 (Slot_Key d)"
  obtains c' where "coldStore f' = Some c'" "archived c' (Slot_Key d) = Some d"
    "slots f' = fmdrop (Slot_Key d) (slots f)" "IsSlotCold f' (Slot_Key d)"
    "executionStates f' = executionStates f" "jobs f' = jobs f"
  using assms put_ok [OF assms(3) _ assms(3), of d]
  by (auto simp: applyArchiveSlot_def IsSlotCold_def split: option.splits prod.splits)

lemma archived_slot_readable:
  assumes "applyArchiveSlot C cmd f = (RNil, f')" "Cmd_ColdSlot cmd = Some d" "in64 (Slot_Key d)"
    and "\<And>c e. coldStore f' = Some c \<Longrightarrow> GetColdSlot C (Slot_Key d) c \<noteq> Inl e"
  shows "GetSlot C f' (Slot_Key d) = Some d"
proof -
  from archive_ok [OF assms(1-3)] obtain c' where
    c': "coldStore f' = Some c'" "archived c' (Slot_Key d) = Some d"
      "slots f' = fmdrop (Slot_Key d) (slots f)" "IsSlotCold f' (Slot_Key d)" by metis
  moreover obtain r where r: "GetColdSlot C (Slot_Key d) c' = Inr r"
    using assms(4) [OF c'(1)] by (cases "GetColdSlot C (Slot_Key d) c'") auto
  moreover from get_ok [OF r] c'(2) have "r = Some d" by simp
  ultimately show ?thesis by (simp add: GetSlot_def)
qed

lemma unarchive_ok:
  assumes "applyUnarchiveSlot C cmd f = (RNil, f')" "Sscanf_d (Cmd_ID cmd) = Some k"
    and "coldStore f = Some c" "archived c k = Some d"
  shows "slots f' = fmupd k d (slots f) \<and> \<not> IsSlotCold f' k \<and> jobs f' = jobs f \<and>
         executionStates f' = executionStates f"
  using assms
  by (auto simp: applyUnarchiveSlot_def IsSlotCold_def dest!: get_ok split: if_splits sum.splits)

end

section \<open>Properties\<close>


definition sample_job :: Job where
  "sample_job = \<lparr>Job_ID = ''a'', Job_Type = JobUnico, Job_Timestamp = Some 105, Job_CronExpr = '''',
     Job_LastDate = None, Job_CreatedAt = 90, Job_WebhookURL = '''', Job_Payload = None\<rparr>"

definition create_command :: "Job \<Rightarrow> Command" where
  "create_command j = zero_Command\<lparr>Cmd_Type := CommandCreateJob, Cmd_Job := Some j\<rparr>"

definition status_command :: "string \<Rightarrow> JobStatus \<Rightarrow> int \<Rightarrow> Command" where
  "status_command i st t = zero_Command\<lparr>Cmd_Type := CommandUpdateJobStatus,
     Cmd_StatusCommand := Some (zero_StatusCommand\<lparr>SC_JobID := i, SC_Status := st, SC_Timestamp := t\<rparr>)\<rparr>"


text \<open>The table of transitions is the intended life cycle: an update is accepted exactly
  for the eight legal transitions.\<close>
theorem transition_table_is_life_cycle:
  "validateStateTransition a b = None \<longleftrightarrow> legal_transition a b"
  by (rule validate_iff_legal)


definition sample_fsm :: "'c FSM" where
  "sample_fsm = NewFSM\<lparr>jobs := fmupd ''a'' sample_job fmempty,
     executionStates := fmupd ''a'' (new_execution_state ''a'' 90) fmempty\<rparr>"


text \<open>A completed or cancelled job stays completed or cancelled, with the same count of
  attempts, completion and cancellation times and reason, under every sequence of
  commands that does not create or delete it again.\<close>
theorem terminal_status_is_final:
  assumes "fmlookup (executionStates f) i = Some s"
    and "Exec_Status s \<in> {StatusCompleted, StatusCancelled}"
    and "\<forall>cmd \<in> set cmds. \<not> resets_job i cmd"
  shows "\<exists>s'. fmlookup (executionStates (run C cmds f)) i = Some s' \<and>
     Exec_Status s' = Exec_Status s \<and> Exec_AttemptCount s' = Exec_AttemptCount s \<and>
     Exec_CompletedAt s' = Exec_CompletedAt s \<and> Exec_CancelledAt s' = Exec_CancelledAt s \<and>
     Exec_CancellationReason s' = Exec_CancellationReason s"
  using run_terminal [OF assms(1) _ assms(3)] assms(2) by (auto simp: same_progress_def)

definition cancelled_fsm :: "'c FSM" where
  "cancelled_fsm = NewFSM\<lparr>executionStates :=
     fmupd ''a'' (new_execution_state ''a'' 90\<lparr>Exec_Status := StatusCancelled\<rparr>) fmempty\<rparr>"

lemma terminal_status_is_final_witness:
  "\<exists>s'. fmlookup (executionStates (run memory_archive
           [status_command ''a'' StatusInProgress 100] cancelled_fsm)) ''a'' = Some s' \<and>
        Exec_Status s' = StatusCancelled"
proof -
  let ?s = "new_execution_state ''a'' 90\<lparr>Exec_Status := StatusCancelled\<rparr>"
  have "\<not> resets_job ''a'' (status_command ''a'' StatusInProgress 100)"
    by (simp add: resets_job_def status_command_def)
  moreover have "fmlookup (executionStates cancelled_fsm) ''a'' = Some ?s"
    by (simp add: cancelled_fsm_def)
  ultimately show ?thesis
    using terminal_status_is_final [of cancelled_fsm "''a''" ?s
        "[status_command ''a'' StatusInProgress 100]" memory_archive]
    by (simp del: run.simps) blast
qed



text \<open>The memory counter and the job counter saturate at zero: unless the sum leaves the
  \<open>int64\<close> range, an update makes the counter the sum or zero, whichever is larger, returns
  it, and changes nothing else.\<close>
theorem counters_saturate:
  assumes "in64 (memoryUsage f + d)" "in64 (jobCount f + n)"
  shows "applyMemoryUpdate d f = (RInt (max 0 (memoryUsage f + d)), f\<lparr>memoryUsage := max 0 (memoryUsage f + d)\<rparr>)
    \<and> applyJobCountUpdate n f = (RInt (max 0 (jobCount f + n)), f\<lparr>jobCount := max 0 (jobCount f + n)\<rparr>)"
  using assms by (auto simp: applyMemoryUpdate_def applyJobCountUpdate_def Let_def go_arith max_def)

lemma counters_saturate_witness:
  "applyMemoryUpdate (- 7) (NewFSM\<lparr>memoryUsage := 5\<rparr>)
     = (RInt 0, (NewFSM :: (byte list \<Rightarrow> SlotData option) FSM)\<lparr>memoryUsage := 0\<rparr>)"
  using counters_saturate [of "NewFSM\<lparr>memoryUsage := 5\<rparr> :: (byte list \<Rightarrow> SlotData option) FSM" "- 7" 1]
  by (simp add: NewFSM_def in64_def)


definition sample_slot :: SlotData where
  "sample_slot = \<lparr>Slot_Key = 10, Slot_MinTime = 100, Slot_MaxTime = 109, Slot_JobIDs = [''a'']\<rparr>"

definition archive_command :: "SlotData \<Rightarrow> Command" where
  "archive_command d = zero_Command\<lparr>Cmd_Type := CommandArchiveSlot, Cmd_ColdSlot := Some d\<rparr>"

definition unarchive_command :: "int \<Rightarrow> Command" where
  "unarchive_command k = zero_Command\<lparr>Cmd_Type := CommandUnarchiveSlot, Cmd_ID := Sprintf_d k\<rparr>"

definition slot_fsm :: "(byte list \<Rightarrow> SlotData option) FSM" where
  "slot_fsm = (NewFSMWithColdStore (\<lambda>_. None))\<lparr>slots := fmupd 10 sample_slot fmempty\<rparr>"

lemma archive_slot_fsm:
  "applyArchiveSlot memory_archive (archive_command sample_slot) slot_fsm =
     (RNil, slot_fsm\<lparr>coldStore := Some [itob 10 \<mapsto> sample_slot], slots := fmdrop 10 (slots slot_fsm),
                     coldSlotMeta := fmupd 10 True (coldSlotMeta slot_fsm)\<rparr>)"
  by (simp add: applyArchiveSlot_def archive_command_def slot_fsm_def NewFSMWithColdStore_def
      sample_slot_def zero_Command_def)


text \<open>Unarchiving undoes archiving: after an accepted archive command and an accepted
  unarchive command for its key, over a lawful bolt database, the hot map holds the slot
  again, the slot is no longer cold, and all other slots, the jobs and the execution
  states are those of before.\<close>
theorem archive_unarchive_round_trip:
  assumes "bolt_laws B content"
    and "applyArchiveSlot (BoltColdSlotStore B) cmd f = (RNil, f1)"
    and "Cmd_ColdSlot cmd = Some d" "in64 (Slot_Key d)"
    and "applyUnarchiveSlot (BoltColdSlotStore B) (unarchive_command (Slot_Key d)) f1 = (RNil, f2)"
  shows "slots f2 = fmupd (Slot_Key d) d (slots f) \<and> \<not> IsSlotCold f2 (Slot_Key d) \<and>
     jobs f2 = jobs f \<and> executionStates f2 = executionStates f"
proof -
  note L = bolt_cold_slot_store [OF assms(1)]
  obtain b where b: "coldStore f1 = Some b" "content b (itob (Slot_Key d)) = Some d"
    and f1: "slots f1 = fmdrop (Slot_Key d) (slots f)" "jobs f1 = jobs f"
      "executionStates f1 = executionStates f"
    by (rule cold_slot_store.archive_ok [OF L assms(2-4)])
  have "Sscanf_d (Cmd_ID (unarchive_command (Slot_Key d))) = Some (Slot_Key d)"
    using assms(4) by (simp add: unarchive_command_def)
  from cold_slot_store.unarchive_ok [OF L assms(5) this b] f1 show ?thesis
    by (auto intro!: fmap_ext)
qed

lemma archive_unarchive_round_trip_witness:
  "slots (snd (applyUnarchiveSlot memory_archive (unarchive_command 10)
      (snd (applyArchiveSlot memory_archive (archive_command sample_slot) slot_fsm))))
     = fmupd 10 sample_slot (slots slot_fsm)"
proof -
  let ?f1 = "snd (applyArchiveSlot memory_archive (archive_command sample_slot) slot_fsm)"
  have key: "Slot_Key sample_slot = 10" by (simp add: sample_slot_def)
  have 1: "applyArchiveSlot memory_archive (archive_command sample_slot) slot_fsm = (RNil, ?f1)"
    by (simp add: archive_slot_fsm)
  have 2: "applyUnarchiveSlot memory_archive (unarchive_command (Slot_Key sample_slot)) ?f1 =
      (RNil, snd (applyUnarchiveSlot memory_archive (unarchive_command 10) ?f1))"
    by (simp add: archive_slot_fsm key applyUnarchiveSlot_def unarchive_command_def zero_Command_def)
  show ?thesis
    using archive_unarchive_round_trip [OF memory_bolt_laws 1 _ _ 2]
    by (simp add: archive_command_def key)
qed

text \<open>A status update for a job without an execution state, to any status other than
  in progress or cancelled, is rejected and nevertheless leaves a pending state behind
  for that job.\<close>
theorem rejected_update_leaves_pending_state:
  assumes "fmlookup (executionStates f) (SC_JobID sc) = None"
    and "SC_Status sc \<noteq> StatusInProgress" "SC_Status sc \<noteq> StatusCancelled"
  shows "applyStatusUpdate sc f =
     (RError (ErrInvalidTransition StatusPending (SC_Status sc)),
      f\<lparr>executionStates := fmupd (SC_JobID sc) (new_execution_state (SC_JobID sc) (SC_Timestamp sc))
          (executionStates f)\<rparr>)"
  using assms
  by (simp add: applyStatusUpdate_def new_execution_state_def validateStateTransition_def
      validTransitions_def Let_def)

lemma rejected_update_leaves_pending_state_witness:
  "fmlookup (executionStates (snd (applyStatusUpdate
      (zero_StatusCommand\<lparr>SC_JobID := ''gone'', SC_Status := StatusCompleted\<rparr>)
      (NewFSM :: unit FSM)))) ''gone'' \<noteq> None"
  using rejected_update_leaves_pending_state [of "NewFSM :: unit FSM"
      "zero_StatusCommand\<lparr>SC_JobID := ''gone'', SC_Status := StatusCompleted\<rparr>"]
  by (simp add: NewFSM_def)

text \<open>Unarchiving overwrites the hot slot: when a slot has been written to the hot map
  after it was archived, an accepted unarchive command replaces it by the archived
  version, and the job identifiers only the newer version holds are lost.\<close>
theorem unarchive_overwrites_newer_slot:
  assumes "bolt_laws B content" "coldStore f = Some b" "in64 k"
    and "content b (itob k) = Some old" "fmlookup (slots f) k = Some new"
    and "applyUnarchiveSlot (BoltColdSlotStore B) (unarchive_command k) f = (RNil, f')"
  shows "fmlookup (slots f') k = Some old"
proof -
  have "Sscanf_d (Cmd_ID (unarchive_command k)) = Some k"
    using assms(3) by (simp add: unarchive_command_def)
  from cold_slot_store.unarchive_ok [OF bolt_cold_slot_store [OF assms(1)] assms(6) this assms(2,4)]
  show ?thesis by simp
qed

definition newer_slot :: SlotData where
  "newer_slot = sample_slot\<lparr>Slot_JobIDs := [''a'', ''b'']\<rparr>"

definition rewritten_fsm :: "(byte list \<Rightarrow> SlotData option) FSM" where
  "rewritten_fsm = slot_fsm\<lparr>coldStore := Some [itob 10 \<mapsto> sample_slot],
     slots := fmupd 10 newer_slot fmempty, coldSlotMeta := fmupd 10 True fmempty\<rparr>"

lemma unarchive_overwrites_newer_slot_witness:
  "fmlookup (slots (snd (applyUnarchiveSlot memory_archive (unarchive_command 10) rewritten_fsm))) 10
     = Some sample_slot"
proof (rule unarchive_overwrites_newer_slot [OF memory_bolt_laws, of _ "[itob 10 \<mapsto> sample_slot]" _ _ newer_slot])
  show "applyUnarchiveSlot memory_archive (unarchive_command 10) rewritten_fsm =
      (RNil, snd (applyUnarchiveSlot memory_archive (unarchive_command 10) rewritten_fsm))"
    by (simp add: applyUnarchiveSlot_def unarchive_command_def rewritten_fsm_def zero_Command_def)
qed (simp_all add: rewritten_fsm_def)

end
