(* ===== verification/Raft_Adapter.thy ===== *)
theory Raft_Adapter
  imports FSM_Invariants
begin

text \<open>
  The bridge to the Raft library, \<open>internal/store/raft_adapter.go\<close>: applying a log entry,
  writing a snapshot to a sink and restoring the machine from one. A log entry or a
  snapshot is a JSON document; \<open>None\<close> stands for bytes that do not decode. A map that is
  missing from a document decodes to nil, here also \<open>None\<close>.
\<close>

section \<open>Log entries\<close>

definition FSM_Apply :: "'c ColdSlotStore \<Rightarrow> Command option \<Rightarrow> 'c FSM \<Rightarrow> apply_result \<times> 'c FSM" where
  "FSM_Apply C data f =
     (case data of
        None \<Rightarrow> (RError ErrUnmarshal, f)
      | Some cmd \<Rightarrow> applyCommandInternal C cmd f)"

section \<open>Snapshots\<close>

record SnapshotDoc =
  Doc_jobs :: "(string, Job) fmap option"
  Doc_slots :: "(int, SlotData) fmap option"
  Doc_coldSlotMeta :: "(int, bool) fmap option"
  Doc_executionStates :: "(string, JobExecutionState) fmap option"
  Doc_memoryUsage :: int
  Doc_jobCount :: int

definition FSM_Snapshot :: "'c FSM \<Rightarrow> string + Snapshot" where
  "FSM_Snapshot f = Inr (GetSnapshot f)"

text \<open>The Raft library's \<open>SnapshotSink\<close>: write the encoded document, cancel, close.\<close>

record 's SnapshotSink =
  sink_Write :: "SnapshotDoc \<Rightarrow> 's \<Rightarrow> string option \<times> 's"
  sink_Cancel :: "'s \<Rightarrow> string option \<times> 's"
  sink_Close :: "'s \<Rightarrow> string option \<times> 's"

text \<open>The document the JSON encoder writes: a job loses an empty payload.\<close>

definition snapshot_document :: "Snapshot \<Rightarrow> SnapshotDoc" where
  "snapshot_document s =
     \<lparr>Doc_jobs = Some (fmmap wire_Job (Snap_jobs s)), Doc_slots = Some (Snap_slots s),
      Doc_coldSlotMeta = Some (Snap_coldSlotMeta s),
      Doc_executionStates = Some (Snap_executionStates s),
      Doc_memoryUsage = Snap_memoryUsage s, Doc_jobCount = Snap_jobCount s\<rparr>"

definition Persist :: "'s SnapshotSink \<Rightarrow> Snapshot \<Rightarrow> 's \<Rightarrow> string option \<times> 's" where
  "Persist K s sink =
     (let (err, sink) = sink_Write K (snapshot_document s) sink
      in case err of
           Some e \<Rightarrow> (Some e, snd (sink_Cancel K sink))
         | None \<Rightarrow> sink_Close K sink)"

definition Restore :: "SnapshotDoc option \<Rightarrow> 'c FSM \<Rightarrow> string option \<times> 'c FSM" where
  "Restore doc f =
     (case doc of
        None \<Rightarrow> (Some ''failed to decode snapshot'', f)
      | Some d \<Rightarrow>
          (None,
           f\<lparr>jobs := (case Doc_jobs d of None \<Rightarrow> fmempty | Some m \<Rightarrow> m),
             slots := (case Doc_slots d of None \<Rightarrow> fmempty | Some m \<Rightarrow> m),
             coldSlotMeta := (case Doc_coldSlotMeta d of None \<Rightarrow> fmempty | Some m \<Rightarrow> m),
             executionStates := (case Doc_executionStates d of None \<Rightarrow> fmempty | Some m \<Rightarrow> m),
             memoryUsage := Doc_memoryUsage d,
             jobCount := Doc_jobCount d\<rparr>))"

lemma GetSnapshot_simps [simp]:
  "GetSnapshot f = \<lparr>Snap_jobs = jobs f, Snap_slots = slots f, Snap_coldSlotMeta = coldSlotMeta f,
     Snap_executionStates = executionStates f, Snap_memoryUsage = memoryUsage f, Snap_jobCount = jobCount f\<rparr>"
  by (simp add: GetSnapshot_def)

lemma Restore_document:
  "Restore (Some (snapshot_document (GetSnapshot f))) g =
     (None, f\<lparr>jobs := fmmap wire_Job (jobs f), coldStore := coldStore g\<rparr>)"
  by (simp add: Restore_def snapshot_document_def)

lemma fmmap_wire_id:
  assumes "\<And>i j. fmlookup m i = Some j \<Longrightarrow> Job_Payload j \<noteq> Some []"
  shows "fmmap wire_Job m = m"
proof (rule fmap_ext)
  fix i show "fmlookup (fmmap wire_Job m) i = fmlookup m i"
    using assms by (cases "fmlookup m i") (auto simp: wire_Job_id)
qed

lemma fsm_wf_wire:
  assumes "fsm_wf f"
  shows "fsm_wf (f\<lparr>jobs := fmmap wire_Job (jobs f), coldStore := c\<rparr>)"
  using assms by (auto simp: fsm_wf_def)

section \<open>Properties\<close>

text \<open>A sink that keeps the last document, and closes without error.\<close>

definition memory_sink :: "SnapshotDoc option SnapshotSink" where
  "memory_sink = \<lparr>sink_Write = (\<lambda>d s. (None, Some d)), sink_Cancel = (\<lambda>s. (None, None)),
     sink_Close = (\<lambda>s. (None, s))\<rparr>"

text \<open>C15: A snapshot restores the machine: persisting the snapshot of a machine whose stored
  jobs have no empty payload object (stored jobs come from the wire, where an empty
  object is dropped) into a sink that keeps what it is given, and restoring another
  machine from that sink, gives a machine equal to the first in every field but the cold
  store, which is the second machine's own; a well-formed machine restores to a
  well-formed one.\<close>
theorem snapshot_restore_round_trip:
  assumes "\<forall>i j. fmlookup (jobs f) i = Some j \<longrightarrow> Job_Payload j \<noteq> Some []"
    and "FSM_Snapshot f = Inr snap" "Persist memory_sink snap s = (None, doc)"
  shows "Restore doc g = (None, f\<lparr>coldStore := coldStore g\<rparr>)
    \<and> (fsm_wf f \<longrightarrow> fsm_wf (snd (Restore doc g)))"
proof -
  have "doc = Some (snapshot_document (GetSnapshot f))"
    using assms(2,3) by (simp add: FSM_Snapshot_def Persist_def memory_sink_def)
  then have "Restore doc g = (None, f\<lparr>jobs := fmmap wire_Job (jobs f), coldStore := coldStore g\<rparr>)"
    by (simp only: Restore_document)
  moreover have "fmmap wire_Job (jobs f) = jobs f"
    using assms(1) by (intro fmmap_wire_id) blast
  ultimately show ?thesis using fsm_wf_wire [of f "coldStore g"] by simp
qed

lemma snapshot_restore_round_trip_witness:
  "Restore (snd (Persist memory_sink (GetSnapshot sample_fsm) None)) NewFSM
     = (None, sample_fsm :: (byte list \<Rightarrow> SlotData option) FSM)"
proof -
  let ?f = "sample_fsm :: (byte list \<Rightarrow> SlotData option) FSM"
  have "\<forall>i j. fmlookup (jobs ?f) i = Some j \<longrightarrow> Job_Payload j \<noteq> Some []"
    by (simp add: sample_fsm_def sample_job_def)
  moreover have "Persist memory_sink (GetSnapshot ?f) None
      = (None, snd (Persist memory_sink (GetSnapshot ?f) None))"
    by (simp add: Persist_def memory_sink_def)
  ultimately have "Restore (snd (Persist memory_sink (GetSnapshot ?f) None)) NewFSM
      = (None, ?f\<lparr>coldStore := coldStore (NewFSM :: (byte list \<Rightarrow> SlotData option) FSM)\<rparr>)"
    using snapshot_restore_round_trip [of ?f "GetSnapshot ?f" None _ NewFSM]
    unfolding FSM_Snapshot_def by blast
  then show ?thesis by (simp add: NewFSM_def sample_fsm_def)
qed

text \<open>A snapshot carries the names of the cold slots but not the slots: restored on a machine
  whose archive does not hold a cold slot, reading that slot finds nothing, although the
  machine the snapshot was taken from served it.\<close>
theorem restored_cold_slot_unreadable:
  fixes f g :: "'b FSM"
  assumes "bolt_laws B content"
    and "fmlookup (slots f) k = None" "coldStore g = Some b" "content b (itob k) = None"
    and "Restore (Some (snapshot_document (GetSnapshot f))) g = (None, g')"
  shows "GetSlot (BoltColdSlotStore B) g' k = None \<and> IsSlotCold g' k = IsSlotCold f k"
proof -
  have g': "g' = f\<lparr>jobs := fmmap wire_Job (jobs f), coldStore := Some b\<rparr>"
    using assms(3,5) by (simp only: Restore_document) simp
  have "r = None" if "Bolt_GetColdSlot B k b = Inr r" for r
    using cold_slot_store.get_ok [OF bolt_cold_slot_store [OF assms(1)]] that assms(4)
    by (fastforce simp: BoltColdSlotStore_def)
  then show ?thesis
    using assms(2) by (auto simp: g' GetSlot_def IsSlotCold_def BoltColdSlotStore_def
        split: sum.splits option.splits)
qed

lemma restored_cold_slot_unreadable_witness:
  "GetSlot memory_archive (snd (Restore (Some (snapshot_document (GetSnapshot
      (snd (applyArchiveSlot memory_archive (archive_command sample_slot) slot_fsm)))))
      (NewFSMWithColdStore (\<lambda>_. None)))) 10 = None"
proof -
  let ?f = "snd (applyArchiveSlot memory_archive (archive_command sample_slot) slot_fsm)"
    and ?g = "NewFSMWithColdStore (\<lambda>_. None) :: (byte list \<Rightarrow> SlotData option) FSM"
  have "fmlookup (slots ?f) 10 = None" by (simp add: archive_slot_fsm)
  moreover have "coldStore ?g = Some (\<lambda>_. None)" by (simp add: NewFSMWithColdStore_def)
  moreover have "Restore (Some (snapshot_document (GetSnapshot ?f))) ?g
      = (None, snd (Restore (Some (snapshot_document (GetSnapshot ?f))) ?g))"
    by (simp only: Restore_document snd_conv)
  ultimately show ?thesis
    using restored_cold_slot_unreadable [OF memory_bolt_laws] by blast
qed

end
