(* ===== verification/Job_Store.thy ===== *)
theory Job_Store
  imports Raft_Adapter
begin

text \<open>
  The store of \<open>internal/store/store.go\<close>, with its errors (\<open>errors.go\<close>) and its address
  provider (\<open>address_provider.go\<close>): every write is a command that the leader submits to
  Raft, every read goes to the local state machine, and peers are managed through the
  Raft configuration. The hashicorp/raft library is a parameter: the record of the calls
  that the store makes, over an opaque state that only those calls change. A command that
  Raft reports as applied has been applied to the local machine; one that Raft reports as
  failed may have been applied all the same. The record \<open>Store\<close> is extended by the
  components that share the node, so its operations are polymorphic in the extension.
\<close>

named_theorems store_defs \<open>the write operations of the store\<close>

section \<open>The Raft library\<close>

datatype RaftState = Follower | Candidate | Leader | Shutdown

record Server =
  Server_ID :: string
  Server_Address :: string

datatype apply_outcome = Applied | ApplyFailed string bool

record 'r Raft =
  raft_State :: "'r \<Rightarrow> RaftState"
  raft_Leader :: "'r \<Rightarrow> string"
  raft_String :: "'r \<Rightarrow> string"
  raft_Apply :: "Command \<Rightarrow> 'r \<Rightarrow> apply_outcome \<times> 'r"
  raft_GetConfiguration :: "'r \<Rightarrow> string + Server list"
  raft_AddVoter :: "string \<Rightarrow> string \<Rightarrow> 'r \<Rightarrow> string option \<times> 'r"
  raft_RemoveServer :: "string \<Rightarrow> 'r \<Rightarrow> string option \<times> 'r"
  raft_BootstrapCluster :: "Server list \<Rightarrow> 'r \<Rightarrow> string option \<times> 'r"
  raft_Shutdown :: "'r \<Rightarrow> string option \<times> 'r"

text \<open>The libraries below a node: Raft and the archive.\<close>

record ('c, 'r) Env =
  raft_lib :: "'r Raft"
  cold_lib :: "'c ColdSlotStore"

section \<open>State, errors and events\<close>

record ('c, 'r) Store =
  St_raft :: 'r
  St_fsm :: "'c FSM"
  St_nodeID :: string
  St_raftBind :: string
  St_raftAdvertise :: string
  St_httpBind :: "string option"
  St_localAddr :: string

datatype store_error =
    ErrNotLeader
  | ErrNotFound
  | ErrSlotNotFound int
  | ErrContext string store_error
  | ErrApply string
  | ErrGetConfiguration string
  | ErrAddPeer string
  | ErrRemovePeer string
  | ErrAlreadyLeader
  | ErrBootstrap string
  | ErrInsufficientAlive int int int
  | ErrNoAliveServers
  | ErrColdNotEnabled
  | ErrCold string
  | ErrLeaderTimeout
  | ErrShutdown string
  | ErrUnknownJobStatus JobStatus

definition NotLeaderError :: "string \<Rightarrow> store_error" where
  "NotLeaderError context = (if context = '''' then ErrNotLeader else ErrContext context ErrNotLeader)"

definition NotFoundError :: "string \<Rightarrow> store_error" where
  "NotFoundError entity = (if entity = '''' then ErrNotFound else ErrContext entity ErrNotFound)"

text \<open>
  \<open>JobEventHandler\<close>, called with the event and the job (nil when a deleted job was not
  there); it works on the whole state of the node, and \<open>None\<close> is a panic.
\<close>

type_synonym 's JobEventHandler = "string \<Rightarrow> Job option \<Rightarrow> 's \<Rightarrow> 's option"

section \<open>Leadership\<close>

definition IsLeader :: "('c, 'r) Env \<Rightarrow> ('c, 'r, 'z) Store_scheme \<Rightarrow> bool" where
  "IsLeader E s \<longleftrightarrow> raft_State (raft_lib E) (St_raft s) = Leader"

definition GetLeader :: "('c, 'r) Env \<Rightarrow> ('c, 'r, 'z) Store_scheme \<Rightarrow> string" where
  "GetLeader E s = raft_Leader (raft_lib E) (St_raft s)"

fun raft_state_string :: "RaftState \<Rightarrow> string" where
  "raft_state_string Follower = ''Follower''"
| "raft_state_string Candidate = ''Candidate''"
| "raft_state_string Leader = ''Leader''"
| "raft_state_string Shutdown = ''Shutdown''"

definition GetRaftState :: "('c, 'r) Env \<Rightarrow> ('c, 'r, 'z) Store_scheme \<Rightarrow> string" where
  "GetRaftState E s = raft_state_string (raft_State (raft_lib E) (St_raft s))"

text \<open>
  \<open>signalled\<close> says whether \<open>LeaderCh\<close> delivered before the timeout, \<open>later\<close> is the state
  of Raft when the wait ends.
\<close>

definition WaitForLeader ::
  "('c, 'r) Env \<Rightarrow> bool \<Rightarrow> 'r \<Rightarrow> ('c, 'r, 'z) Store_scheme \<Rightarrow> store_error option \<times> ('c, 'r, 'z) Store_scheme" where
  "WaitForLeader E signalled later s =
     (if raft_Leader (raft_lib E) (St_raft s) \<noteq> '''' then (None, s)
      else let s = s\<lparr>St_raft := later\<rparr>
      in if signalled then (None, s)
         else if raft_Leader (raft_lib E) (St_raft s) \<noteq> '''' then (None, s)
         else (Some ErrLeaderTimeout, s))"

definition getDNSAddress :: "('c, 'r, 'z) Store_scheme \<Rightarrow> string" where
  "getDNSAddress s =
     (if HasPrefix (St_nodeID s) ''scheduled-db-''
      then St_nodeID s @ ''.scheduled-db.default.svc.cluster.local:7000''
      else St_localAddr s)"

text \<open>\<open>pkgcluster.StatefulSetDNSName\<close> is the parameter \<open>dns\<close>.\<close>

record dnsAddressProvider =
  serviceName :: string
  namespace :: string
  domain :: string
  port :: int

definition ServerAddr ::
  "(string \<Rightarrow> string \<Rightarrow> string \<Rightarrow> string \<Rightarrow> int \<Rightarrow> string) \<Rightarrow> dnsAddressProvider \<Rightarrow> string \<Rightarrow> string" where
  "ServerAddr dns p serverID =
     (if HasPrefix serverID ''scheduled-db-''
      then dns serverID (serviceName p) (namespace p) (domain p) (port p)
      else serverID)"

definition SetHTTPBind :: "string \<Rightarrow> ('c, 'r, 'z) Store_scheme \<Rightarrow> ('c, 'r, 'z) Store_scheme" where
  "SetHTTPBind httpBind s = s\<lparr>St_httpBind := Some httpBind\<rparr>"

definition GetHTTPBind :: "('c, 'r, 'z) Store_scheme \<Rightarrow> string" where
  "GetHTTPBind s = (case St_httpBind s of Some v \<Rightarrow> v | None \<Rightarrow> '''')"

section \<open>Writes\<close>

text \<open>
  \<open>future := s.raft.Apply(data, getApplyTimeout())\<close> and \<open>future.Error()\<close>: the machine
  decodes the marshalled command and applies it; the store does not look at the value
  the machine returns.
\<close>

definition raftApply ::
  "('c, 'r) Env \<Rightarrow> Command \<Rightarrow> ('c, 'r, 'z) Store_scheme \<Rightarrow> store_error option \<times> ('c, 'r, 'z) Store_scheme" where
  "raftApply E cmd s =
     (let (outcome, r) = raft_Apply (raft_lib E) cmd (St_raft s);
          applied = s\<lparr>St_raft := r,
                      St_fsm := snd (FSM_Apply (cold_lib E) (Some (wire_Command cmd)) (St_fsm s))\<rparr>
      in case outcome of
           Applied \<Rightarrow> (None, applied)
         | ApplyFailed err late \<Rightarrow> (Some (ErrApply err), if late then applied else s\<lparr>St_raft := r\<rparr>))"

definition Store_Apply ::
  "('c, 'r) Env \<Rightarrow> Command \<Rightarrow> ('c, 'r, 'z) Store_scheme \<Rightarrow> store_error option \<times> ('c, 'r, 'z) Store_scheme" where
  "Store_Apply E cmd s = (if \<not> IsLeader E s then (Some ErrNotLeader, s) else raftApply E cmd s)"

definition Store_GetJob :: "('c, 'r, 'z) Store_scheme \<Rightarrow> string \<Rightarrow> Job option" where
  "Store_GetJob s i = GetJob (St_fsm s) i"

definition CreateJob ::
  "('c, 'r) Env \<Rightarrow> ('c, 'r, 'z) Store_scheme JobEventHandler option \<Rightarrow> Job \<Rightarrow> ('c, 'r, 'z) Store_scheme
     \<Rightarrow> (store_error option \<times> ('c, 'r, 'z) Store_scheme) option" where
  "CreateJob E handler job s =
     (if \<not> IsLeader E s then Some (Some ErrNotLeader, s)
      else case raftApply E (zero_Command\<lparr>Cmd_Type := CommandCreateJob, Cmd_Job := Some job\<rparr>) s of
        (Some err, s) \<Rightarrow> Some (Some err, s)
      | (None, s) \<Rightarrow>
          (case handler of
             Some h \<Rightarrow> if IsLeader E s then map_option (Pair None) (h ''created'' (Some job) s)
                       else Some (None, s)
           | None \<Rightarrow> Some (None, s)))"

definition DeleteJob ::
  "('c, 'r) Env \<Rightarrow> ('c, 'r, 'z) Store_scheme JobEventHandler option \<Rightarrow> string \<Rightarrow> ('c, 'r, 'z) Store_scheme
     \<Rightarrow> (store_error option \<times> ('c, 'r, 'z) Store_scheme) option" where
  "DeleteJob E handler i s =
     (if \<not> IsLeader E s then Some (Some ErrNotLeader, s)
      else let job = Store_GetJob s i
      in case raftApply E (zero_Command\<lparr>Cmd_Type := CommandDeleteJob, Cmd_ID := i\<rparr>) s of
        (Some err, s) \<Rightarrow> Some (Some err, s)
      | (None, s) \<Rightarrow>
          (case handler of
             Some h \<Rightarrow> if IsLeader E s then map_option (Pair None) (h ''deleted'' job s)
                       else Some (None, s)
           | None \<Rightarrow> Some (None, s)))"

definition CreateSlot ::
  "('c, 'r) Env \<Rightarrow> SlotData \<Rightarrow> ('c, 'r, 'z) Store_scheme \<Rightarrow> store_error option \<times> ('c, 'r, 'z) Store_scheme" where
  "CreateSlot E slot s =
     (if \<not> IsLeader E s then (Some ErrNotLeader, s)
      else raftApply E (zero_Command\<lparr>Cmd_Type := CommandCreateSlot, Cmd_Slot := Some slot\<rparr>) s)"

definition DeleteSlot ::
  "('c, 'r) Env \<Rightarrow> int \<Rightarrow> ('c, 'r, 'z) Store_scheme \<Rightarrow> store_error option \<times> ('c, 'r, 'z) Store_scheme" where
  "DeleteSlot E key s =
     (if \<not> IsLeader E s then (Some ErrNotLeader, s)
      else raftApply E (zero_Command\<lparr>Cmd_Type := CommandDeleteSlot, Cmd_ID := Sprintf_d key\<rparr>) s)"

definition UpdateMemoryUsage ::
  "('c, 'r) Env \<Rightarrow> int \<Rightarrow> ('c, 'r, 'z) Store_scheme \<Rightarrow> store_error option \<times> ('c, 'r, 'z) Store_scheme" where
  "UpdateMemoryUsage E delta s =
     (if \<not> IsLeader E s then (Some ErrNotLeader, s)
      else raftApply E (zero_Command\<lparr>Cmd_Type := CommandUpdateMemoryUsage, Cmd_MemoryDelta := delta\<rparr>) s)"

definition UpdateJobCount ::
  "('c, 'r) Env \<Rightarrow> int \<Rightarrow> ('c, 'r, 'z) Store_scheme \<Rightarrow> store_error option \<times> ('c, 'r, 'z) Store_scheme" where
  "UpdateJobCount E delta s =
     (if \<not> IsLeader E s then (Some ErrNotLeader, s)
      else raftApply E (zero_Command\<lparr>Cmd_Type := CommandUpdateJobCount, Cmd_JobCountDelta := delta\<rparr>) s)"

definition Store_GetSlot :: "('c, 'r) Env \<Rightarrow> ('c, 'r, 'z) Store_scheme \<Rightarrow> int \<Rightarrow> SlotData option" where
  "Store_GetSlot E s key = GetSlot (cold_lib E) (St_fsm s) key"

definition ArchiveSlot ::
  "('c, 'r) Env \<Rightarrow> int \<Rightarrow> ('c, 'r, 'z) Store_scheme \<Rightarrow> store_error option \<times> ('c, 'r, 'z) Store_scheme" where
  "ArchiveSlot E key s =
     (if \<not> IsLeader E s then (Some ErrNotLeader, s)
      else case GetSlot (cold_lib E) (St_fsm s) key of
        None \<Rightarrow> (Some (ErrSlotNotFound key), s)
      | Some slotData \<Rightarrow>
          raftApply E (zero_Command\<lparr>Cmd_Type := CommandArchiveSlot, Cmd_ColdSlot := Some slotData\<rparr>) s)"

definition UnarchiveSlot ::
  "('c, 'r) Env \<Rightarrow> int \<Rightarrow> ('c, 'r, 'z) Store_scheme \<Rightarrow> store_error option \<times> ('c, 'r, 'z) Store_scheme" where
  "UnarchiveSlot E key s =
     (if \<not> IsLeader E s then (Some ErrNotLeader, s)
      else raftApply E (zero_Command\<lparr>Cmd_Type := CommandUnarchiveSlot, Cmd_ID := Sprintf_d key\<rparr>) s)"

lemmas store_write_defs [store_defs] =
  Store_Apply_def CreateSlot_def DeleteSlot_def UpdateMemoryUsage_def UpdateJobCount_def
  ArchiveSlot_def UnarchiveSlot_def

section \<open>Reads\<close>

definition Store_GetAllJobs :: "('c, 'r, 'z) Store_scheme \<Rightarrow> (string, Job) fmap" where
  "Store_GetAllJobs s = GetAllJobs (St_fsm s)"

definition Store_GetAllSlots :: "('c, 'r, 'z) Store_scheme \<Rightarrow> (int, SlotData) fmap" where
  "Store_GetAllSlots s = GetAllSlots (St_fsm s)"

definition Store_GetMemoryUsage :: "('c, 'r, 'z) Store_scheme \<Rightarrow> int" where
  "Store_GetMemoryUsage s = GetMemoryUsage (St_fsm s)"

definition Store_GetJobCount :: "('c, 'r, 'z) Store_scheme \<Rightarrow> int" where
  "Store_GetJobCount s = GetJobCount (St_fsm s)"

definition Store_IsSlotCold :: "('c, 'r, 'z) Store_scheme \<Rightarrow> int \<Rightarrow> bool" where
  "Store_IsSlotCold s key = IsSlotCold (St_fsm s) key"

text \<open>The store and its state machine share the archive.\<close>

definition IsColdSpillingEnabled :: "('c, 'r, 'z) Store_scheme \<Rightarrow> bool" where
  "IsColdSpillingEnabled s \<longleftrightarrow> coldStore (St_fsm s) \<noteq> None"

definition Store_GetHotSlotCount :: "('c, 'r, 'z) Store_scheme \<Rightarrow> int" where
  "Store_GetHotSlotCount s = GetHotSlotCount (St_fsm s)"

definition Store_GetColdSlotCount :: "('c, 'r, 'z) Store_scheme \<Rightarrow> int" where
  "Store_GetColdSlotCount s = GetColdSlotCount (St_fsm s)"

definition Store_GetColdSlotKeys :: "int key_order \<Rightarrow> ('c, 'r, 'z) Store_scheme \<Rightarrow> int list" where
  "Store_GetColdSlotKeys order s = GetColdSlotKeys order (St_fsm s)"

definition GetColdSlotData ::
  "('c, 'r) Env \<Rightarrow> ('c, 'r, 'z) Store_scheme \<Rightarrow> int \<Rightarrow> store_error + SlotData option" where
  "GetColdSlotData E s key =
     (case coldStore (St_fsm s) of
        None \<Rightarrow> Inl ErrColdNotEnabled
      | Some c \<Rightarrow> (case GetColdSlot (cold_lib E) key c of Inl err \<Rightarrow> Inl (ErrCold err) | Inr r \<Rightarrow> Inr r))"

definition Store_GetExecutionState :: "('c, 'r, 'z) Store_scheme \<Rightarrow> string \<Rightarrow> JobExecutionState option" where
  "Store_GetExecutionState s jobID = GetExecutionState (St_fsm s) jobID"

definition Store_GetAllExecutionStates ::
  "('c, 'r, 'z) Store_scheme \<Rightarrow> (string, JobExecutionState) fmap" where
  "Store_GetAllExecutionStates s = GetAllExecutionStates (St_fsm s)"

lemma store_reads_simps [simp]:
  "Store_GetJob s i = fmlookup (jobs (St_fsm s)) i"
  "Store_GetAllJobs s = jobs (St_fsm s)"
  "Store_GetAllSlots s = slots (St_fsm s)"
  "Store_GetMemoryUsage s = memoryUsage (St_fsm s)"
  "Store_GetJobCount s = jobCount (St_fsm s)"
  "Store_GetExecutionState s i = fmlookup (executionStates (St_fsm s)) i"
  "Store_GetAllExecutionStates s = executionStates (St_fsm s)"
  by (simp_all add: Store_GetJob_def Store_GetAllJobs_def Store_GetAllSlots_def
      Store_GetMemoryUsage_def Store_GetJobCount_def Store_GetExecutionState_def
      Store_GetAllExecutionStates_def)

section \<open>Cluster membership\<close>

definition AddPeer ::
  "('c, 'r) Env \<Rightarrow> string \<Rightarrow> string \<Rightarrow> ('c, 'r, 'z) Store_scheme
     \<Rightarrow> store_error option \<times> ('c, 'r, 'z) Store_scheme" where
  "AddPeer E i address s =
     (if \<not> IsLeader E s then (Some (NotLeaderError ''cannot add peer''), s)
      else case raft_GetConfiguration (raft_lib E) (St_raft s) of
        Inl err \<Rightarrow> (Some (ErrGetConfiguration err), s)
      | Inr servers \<Rightarrow>
          if list_ex (\<lambda>server. Server_ID server = i \<and> Server_Address server = address) servers
          then (None, s)
          else case raft_AddVoter (raft_lib E) i address (St_raft s) of
            (Some err, r) \<Rightarrow> (Some (ErrAddPeer err), s\<lparr>St_raft := r\<rparr>)
          | (None, r) \<Rightarrow> (None, s\<lparr>St_raft := r\<rparr>))"

definition RemovePeer ::
  "('c, 'r) Env \<Rightarrow> string \<Rightarrow> ('c, 'r, 'z) Store_scheme \<Rightarrow> store_error option \<times> ('c, 'r, 'z) Store_scheme" where
  "RemovePeer E i s =
     (if \<not> IsLeader E s then (Some (NotLeaderError ''cannot remove peer''), s)
      else case raft_RemoveServer (raft_lib E) i (St_raft s) of
        (Some err, r) \<Rightarrow> (Some (ErrRemovePeer err), s\<lparr>St_raft := r\<rparr>)
      | (None, r) \<Rightarrow> (None, s\<lparr>St_raft := r\<rparr>))"

definition GetClusterConfiguration ::
  "('c, 'r) Env \<Rightarrow> ('c, 'r, 'z) Store_scheme \<Rightarrow> store_error + Server list" where
  "GetClusterConfiguration E s =
     (case raft_GetConfiguration (raft_lib E) (St_raft s) of
        Inl err \<Rightarrow> Inl (ErrGetConfiguration err)
      | Inr servers \<Rightarrow> Inr servers)"

definition GetPeers :: "('c, 'r) Env \<Rightarrow> ('c, 'r, 'z) Store_scheme \<Rightarrow> string list" where
  "GetPeers E s =
     (case GetClusterConfiguration E s of
        Inl err \<Rightarrow> []
      | Inr servers \<Rightarrow>
          filter (\<lambda>addr. addr \<noteq> raft_String (raft_lib E) (St_raft s)) (map Server_Address servers))"

definition ForceBootstrap ::
  "('c, 'r) Env \<Rightarrow> string \<Rightarrow> ('c, 'r, 'z) Store_scheme \<Rightarrow> store_error option \<times> ('c, 'r, 'z) Store_scheme" where
  "ForceBootstrap E nodeID s =
     (if IsLeader E s then (Some ErrAlreadyLeader, s)
      else let configuration = [\<lparr>Server_ID = nodeID, Server_Address = St_localAddr s\<rparr>]
      in case raft_BootstrapCluster (raft_lib E) configuration (St_raft s) of
        (Some err, r) \<Rightarrow> (Some (ErrBootstrap err), s\<lparr>St_raft := r\<rparr>)
      | (None, r) \<Rightarrow> (None, s\<lparr>St_raft := r\<rparr>))"

definition BootstrapWithPeers ::
  "('c, 'r) Env \<Rightarrow> Server list \<Rightarrow> ('c, 'r, 'z) Store_scheme \<Rightarrow> store_error option \<times> ('c, 'r, 'z) Store_scheme" where
  "BootstrapWithPeers E servers s =
     (case raft_BootstrapCluster (raft_lib E) servers (St_raft s) of
        (Some err, r) \<Rightarrow> (Some (ErrBootstrap err), s\<lparr>St_raft := r\<rparr>)
      | (None, r) \<Rightarrow> (None, s\<lparr>St_raft := r\<rparr>))"

definition ForceRecoverCluster ::
  "('c, 'r) Env \<Rightarrow> string list \<Rightarrow> ('c, 'r, 'z) Store_scheme \<Rightarrow> store_error option \<times> ('c, 'r, 'z) Store_scheme" where
  "ForceRecoverCluster E aliveNodeIDs s =
     (if IsLeader E s then (Some ErrAlreadyLeader, s)
      else case GetClusterConfiguration E s of
        Inl err \<Rightarrow> (Some err, s)
      | Inr servers \<Rightarrow>
          let totalNodes = int (length servers);
              aliveCount = int (length aliveNodeIDs)
          in if aliveCount \<le> totalNodes div 2
             then (Some (ErrInsufficientAlive aliveCount totalNodes (totalNodes div 2)), s)
             else let newServers = filter (\<lambda>server. Server_ID server \<in> set aliveNodeIDs) servers
             in if newServers = [] then (Some ErrNoAliveServers, s)
                else case raft_BootstrapCluster (raft_lib E) newServers (St_raft s) of
                  (Some err, r) \<Rightarrow> (Some (ErrBootstrap err), s\<lparr>St_raft := r\<rparr>)
                | (None, r) \<Rightarrow> (None, s\<lparr>St_raft := r\<rparr>))"

text \<open>\<open>closeCold\<close> is the call of bbolt that closes the archive; its error is only logged.\<close>

definition Store_Close ::
  "('c, 'r) Env \<Rightarrow> ('c \<Rightarrow> string option \<times> 'c) \<Rightarrow> ('c, 'r, 'z) Store_scheme
     \<Rightarrow> store_error option \<times> ('c, 'r, 'z) Store_scheme" where
  "Store_Close E closeCold s =
     (let s = s\<lparr>St_fsm := (St_fsm s)\<lparr>coldStore := map_option (snd \<circ> closeCold) (coldStore (St_fsm s))\<rparr>\<rparr>
      in case raft_Shutdown (raft_lib E) (St_raft s) of
        (Some err, r) \<Rightarrow> (Some (ErrShutdown err), s\<lparr>St_raft := r\<rparr>)
      | (None, r) \<Rightarrow> (None, s\<lparr>St_raft := r\<rparr>))"

section \<open>Effect of a write\<close>

lemma raftApply_fields:
  assumes "raftApply E cmd s = (e, s')"
  shows "St_nodeID s' = St_nodeID s" "St_localAddr s' = St_localAddr s"
    "Store.more s' = Store.more s" "St_httpBind s' = St_httpBind s"
  using assms by (auto simp: raftApply_def Let_def split: prod.splits apply_outcome.splits)

lemma raftApply_ok:
  assumes "raftApply E cmd s = (None, s')"
  shows "St_fsm s' = snd (applyCommandInternal (cold_lib E) (wire_Command cmd) (St_fsm s))"
  using assms
  by (auto simp: raftApply_def FSM_Apply_def Let_def split: prod.splits apply_outcome.splits if_splits)

lemma raftApply_error:
  assumes "raftApply E cmd s = (Some e, s')"
  shows "St_fsm s' = St_fsm s \<or>
         St_fsm s' = snd (applyCommandInternal (cold_lib E) (wire_Command cmd) (St_fsm s))"
  using assms
  by (auto simp: raftApply_def FSM_Apply_def Let_def split: prod.splits apply_outcome.splits if_splits)

lemma raftApply_fsm:
  "St_fsm (snd (raftApply E cmd s)) \<in>
     {St_fsm s, snd (applyCommandInternal (cold_lib E) (wire_Command cmd) (St_fsm s))}"
  using raftApply_ok raftApply_error by (cases "raftApply E cmd s"; cases "fst (raftApply E cmd s)") fastforce+

text \<open>Each write, when it returns no error, is its command applied to the local machine.\<close>

lemma write_is_leader:
  assumes "(if \<not> IsLeader E s then (Some ErrNotLeader, s) else raftApply E cmd s) = (None, s')"
  shows "IsLeader E s" "raftApply E cmd s = (None, s')"
  using assms by (auto split: if_splits)

lemma CreateSlot_ok:
  assumes "CreateSlot E d s = (None, s')"
  shows "St_fsm s' = (St_fsm s)\<lparr>slots := fmupd (Slot_Key d) d (slots (St_fsm s))\<rparr>"
  using raftApply_ok [OF write_is_leader(2) [OF assms [unfolded CreateSlot_def]]]
  by (simp add: applyCommandInternal_def applyCreateSlot_def)

lemma DeleteSlot_ok:
  assumes "DeleteSlot E k s = (None, s')" "in64 k"
  shows "slots (St_fsm s') = fmdrop k (slots (St_fsm s))"
    "coldSlotMeta (St_fsm s') = fmdrop k (coldSlotMeta (St_fsm s))"
    "jobs (St_fsm s') = jobs (St_fsm s)" "executionStates (St_fsm s') = executionStates (St_fsm s)"
  using raftApply_ok [OF write_is_leader(2) [OF assms(1) [unfolded DeleteSlot_def]]] assms(2)
  by (simp_all add: applyCommandInternal_def applyDeleteSlot_def)

lemma UpdateMemoryUsage_ok:
  assumes "UpdateMemoryUsage E d s = (None, s')"
  shows "St_fsm s' = snd (applyMemoryUpdate d (St_fsm s))"
  using raftApply_ok [OF write_is_leader(2) [OF assms [unfolded UpdateMemoryUsage_def]]]
  by (simp add: applyCommandInternal_def)

lemma UpdateJobCount_ok:
  assumes "UpdateJobCount E d s = (None, s')"
  shows "St_fsm s' = snd (applyJobCountUpdate d (St_fsm s))"
  using raftApply_ok [OF write_is_leader(2) [OF assms [unfolded UpdateJobCount_def]]]
  by (simp add: applyCommandInternal_def)

section \<open>A single node on a perfect log\<close>

text \<open>
  An instance of the library for evaluations: one node, leader when its state says so,
  whose log accepts every command at once.
\<close>

record solo =
  solo_leader :: bool
  solo_servers :: "Server list"

definition solo_raft :: "solo Raft" where
  "solo_raft =
     \<lparr>raft_State = (\<lambda>r. if solo_leader r then Leader else Follower),
      raft_Leader = (\<lambda>r. if solo_leader r then ''n1:7000'' else ''''),
      raft_String = (\<lambda>r. ''Node at n1:7000''),
      raft_Apply = (\<lambda>cmd r. if solo_leader r then (Applied, r) else (ApplyFailed ''not leader'' False, r)),
      raft_GetConfiguration = (\<lambda>r. Inr (solo_servers r)),
      raft_AddVoter = (\<lambda>i a r. (None, r\<lparr>solo_servers := solo_servers r @ [\<lparr>Server_ID = i, Server_Address = a\<rparr>]\<rparr>)),
      raft_RemoveServer = (\<lambda>i r. (None, r\<lparr>solo_servers := filter (\<lambda>x. Server_ID x \<noteq> i) (solo_servers r)\<rparr>)),
      raft_BootstrapCluster = (\<lambda>ss r. (None, r\<lparr>solo_leader := True, solo_servers := ss\<rparr>)),
      raft_Shutdown = (\<lambda>r. (None, r\<lparr>solo_leader := False\<rparr>))\<rparr>"

type_synonym disk = "byte list \<Rightarrow> SlotData option"

definition solo_env :: "(disk, solo) Env" where
  "solo_env = \<lparr>raft_lib = solo_raft, cold_lib = memory_archive\<rparr>"

definition solo_store :: "bool \<Rightarrow> disk FSM \<Rightarrow> (disk, solo) Store" where
  "solo_store leader f =
     \<lparr>St_raft = \<lparr>solo_leader = leader, solo_servers = []\<rparr>, St_fsm = f, St_nodeID = ''n1'',
      St_raftBind = '''', St_raftAdvertise = '''', St_httpBind = None, St_localAddr = ''n1:7000''\<rparr>"

lemma solo_env_simps [simp]: "raft_lib solo_env = solo_raft" "cold_lib solo_env = memory_archive"
  by (simp_all add: solo_env_def)

lemma solo_IsLeader [simp]: "IsLeader solo_env s = solo_leader (St_raft s)"
  by (simp add: IsLeader_def solo_raft_def)

lemma solo_raftApply [simp]:
  "raftApply solo_env cmd s =
     (if solo_leader (St_raft s)
      then (None, s\<lparr>St_fsm := snd (applyCommandInternal memory_archive (wire_Command cmd) (St_fsm s))\<rparr>)
      else (Some (ErrApply ''not leader''), s))"
  by (simp add: raftApply_def solo_raft_def FSM_Apply_def)

lemma solo_store_simps [simp]:
  "St_fsm (solo_store l f) = f" "solo_leader (St_raft (solo_store l f)) = l"
  by (simp_all add: solo_store_def)

section \<open>Properties\<close>

text \<open>A node that is not the leader writes nothing: each of the write operations of the
  store returns the not-leader error and leaves the whole node as it was.\<close>
theorem follower_writes_nothing:
  assumes "\<not> IsLeader E s"
  shows "CreateJob E h job s = Some (Some ErrNotLeader, s) \<and> DeleteJob E h i s = Some (Some ErrNotLeader, s) \<and>
    CreateSlot E d s = (Some ErrNotLeader, s) \<and> DeleteSlot E k s = (Some ErrNotLeader, s) \<and>
    ArchiveSlot E k s = (Some ErrNotLeader, s) \<and> UnarchiveSlot E k s = (Some ErrNotLeader, s) \<and>
    UpdateMemoryUsage E m s = (Some ErrNotLeader, s) \<and> UpdateJobCount E n s = (Some ErrNotLeader, s) \<and>
    Store_Apply E cmd s = (Some ErrNotLeader, s)"
  using assms by (simp add: store_defs CreateJob_def DeleteJob_def)

lemma follower_writes_nothing_witness:
  "CreateSlot solo_env sample_slot (solo_store False slot_fsm) = (Some ErrNotLeader, solo_store False slot_fsm)"
  using follower_writes_nothing [of solo_env "solo_store False slot_fsm"] by simp

text \<open>A slot that the store has written reads back as written, and one it has deleted is
  gone: a \<open>CreateSlot\<close> without error makes \<open>GetSlot\<close> return the slot, and a
  \<open>DeleteSlot\<close> without error, whose key travels as text, makes it return nothing; both
  leave the hot slots under other keys and the jobs alone.\<close>
theorem slot_writes_read_back:
  assumes "CreateSlot E d s = (None, s1)" "in64 (Slot_Key d)"
    and "DeleteSlot E (Slot_Key d) s1 = (None, s2)"
  shows "Store_GetSlot E s1 (Slot_Key d) = Some d \<and> Store_GetSlot E s2 (Slot_Key d) = None \<and>
    (\<forall>q. q \<noteq> Slot_Key d \<longrightarrow> fmlookup (slots (St_fsm s1)) q = fmlookup (slots (St_fsm s)) q \<and>
       fmlookup (slots (St_fsm s2)) q = fmlookup (slots (St_fsm s)) q) \<and>
    jobs (St_fsm s2) = jobs (St_fsm s)"
  using CreateSlot_ok [OF assms(1)] DeleteSlot_ok [OF assms(3,2)]
  by (simp add: Store_GetSlot_def GetSlot_def IsSlotCold_def split: option.splits)

lemma slot_writes_read_back_witness:
  "Store_GetSlot solo_env (snd (CreateSlot solo_env sample_slot (solo_store True slot_fsm))) 10 = Some sample_slot"
proof -
  let ?s1 = "snd (CreateSlot solo_env sample_slot (solo_store True slot_fsm))"
  have key: "Slot_Key sample_slot = 10" by (simp add: sample_slot_def)
  have 1: "CreateSlot solo_env sample_slot (solo_store True slot_fsm) = (None, ?s1)"
    by (simp add: CreateSlot_def)
  have "solo_leader (St_raft ?s1)" by (simp add: CreateSlot_def)
  then have 2: "DeleteSlot solo_env 10 ?s1 = (None, snd (DeleteSlot solo_env 10 ?s1))"
    by (simp add: DeleteSlot_def)
  show ?thesis
    using slot_writes_read_back [OF 1, unfolded key, OF _ 2] by simp
qed

text \<open>Recovery keeps a majority: when the configured servers have distinct identifiers and
  the list of alive identifiers is distinct and names configured servers only, a recovery
  that returns no error has bootstrapped Raft with exactly the alive configured servers,
  in their order, and they are more than half of the configuration.\<close>
theorem recovery_keeps_majority:
  assumes "ForceRecoverCluster E alive s = (None, s')"
    and "raft_GetConfiguration (raft_lib E) (St_raft s) = Inr servers"
    and "distinct (map Server_ID servers)" "distinct alive" "set alive \<subseteq> Server_ID ` set servers"
  shows "(\<exists>r. raft_BootstrapCluster (raft_lib E) (filter (\<lambda>x. Server_ID x \<in> set alive) servers) (St_raft s)
        = (None, r) \<and> s' = s\<lparr>St_raft := r\<rparr>)
    \<and> length servers < 2 * length (filter (\<lambda>x. Server_ID x \<in> set alive) servers)"
proof -
  let ?new = "filter (\<lambda>x. Server_ID x \<in> set alive) servers"
  have "\<exists>r. raft_BootstrapCluster (raft_lib E) ?new (St_raft s) = (None, r) \<and> s' = s\<lparr>St_raft := r\<rparr>"
    using assms(1,2)
    by (auto simp: ForceRecoverCluster_def GetClusterConfiguration_def Let_def
        split: if_splits prod.splits option.splits)
  moreover have "set (map Server_ID ?new) = set alive" using assms(5) by auto
  moreover have "distinct (map Server_ID ?new)"
    using assms(3) by (simp add: distinct_map inj_on_def)
  ultimately have len: "length ?new = length alive"
    using assms(4) by (metis distinct_card length_map)
  have "int (length servers) div 2 < int (length alive)"
    using assms(1,2)
    by (auto simp: ForceRecoverCluster_def GetClusterConfiguration_def Let_def split: if_splits)
  with len have "length servers < 2 * length ?new" by linarith
  with \<open>\<exists>r. raft_BootstrapCluster (raft_lib E) ?new (St_raft s) = (None, r) \<and> s' = s\<lparr>St_raft := r\<rparr>\<close>
  show ?thesis ..
qed

definition sample_server :: "string \<Rightarrow> Server" where
  "sample_server i = \<lparr>Server_ID = i, Server_Address = i @ '':7000''\<rparr>"

definition three_node_store :: "(disk, solo) Store" where
  "three_node_store = (solo_store False NewFSM)\<lparr>St_raft :=
     \<lparr>solo_leader = False, solo_servers = map sample_server [''a'', ''b'', ''c'']\<rparr>\<rparr>"

lemma three_node_simps [simp]:
  "solo_leader (St_raft three_node_store) = False"
  "solo_servers (St_raft three_node_store) = map sample_server [''a'', ''b'', ''c'']"
  by (simp_all add: three_node_store_def)

lemma recovery_keeps_majority_witness:
  "length (map sample_server [''a'', ''b'', ''c''])
     < 2 * length (filter (\<lambda>x. Server_ID x \<in> set [''a'', ''c'']) (map sample_server [''a'', ''b'', ''c'']))"
proof -
  let ?r = "ForceRecoverCluster solo_env [''a'', ''c''] three_node_store"
  have "?r = (None, snd ?r)"
    by (simp add: ForceRecoverCluster_def GetClusterConfiguration_def solo_raft_def sample_server_def)
  moreover have "raft_GetConfiguration (raft_lib solo_env) (St_raft three_node_store)
      = Inr (map sample_server [''a'', ''b'', ''c''])"
    by (simp add: solo_raft_def)
  ultimately show ?thesis
    using recovery_keeps_majority [of solo_env "[''a'', ''c'']" three_node_store "snd ?r"
        "map sample_server [''a'', ''b'', ''c'']"]
    by (simp add: sample_server_def)
qed

text \<open>The majority test of the recovery counts the given list, not the servers it keeps: two
  entries naming one of three configured servers pass the test, and the cluster is
  bootstrapped with that single server.\<close>
theorem recovery_accepts_minority:
  "ForceRecoverCluster solo_env [''a'', ''a''] three_node_store
     = (None, three_node_store\<lparr>St_raft := \<lparr>solo_leader = True, solo_servers = [sample_server ''a'']\<rparr>\<rparr>)"
  by (simp add: ForceRecoverCluster_def GetClusterConfiguration_def solo_raft_def sample_server_def)

text \<open>A job that the store has created is there: when no event handler is installed and
  \<open>CreateJob\<close> returns no error, \<open>GetJob\<close> returns the job as it comes off the wire, its
  execution state is a fresh pending one, and no other job or state has changed; a
  \<open>DeleteJob\<close> without error then removes both.\<close>
theorem created_job_is_readable:
  assumes "CreateJob E None job s = Some (None, s1)"
    and "Job_ID job \<noteq> ''''" "DeleteJob E None (Job_ID job) s1 = Some (None, s2)"
  shows "Store_GetJob s1 (Job_ID job) = Some (wire_Job job) \<and>
    Store_GetExecutionState s1 (Job_ID job) = Some (new_execution_state (Job_ID job) (Job_CreatedAt job)) \<and>
    (\<forall>q. q \<noteq> Job_ID job \<longrightarrow> Store_GetJob s1 q = Store_GetJob s q \<and>
       Store_GetExecutionState s1 q = Store_GetExecutionState s q) \<and>
    Store_GetJob s2 (Job_ID job) = None \<and> Store_GetExecutionState s2 (Job_ID job) = None"
proof -
  have "raftApply E (zero_Command\<lparr>Cmd_Type := CommandCreateJob, Cmd_Job := Some job\<rparr>) s = (None, s1)"
    using assms(1) by (auto simp: CreateJob_def split: if_splits prod.splits option.splits)
  from raftApply_ok [OF this]
  have 1: "St_fsm s1 = (St_fsm s)\<lparr>jobs := fmupd (Job_ID job) (wire_Job job) (jobs (St_fsm s)),
       executionStates := fmupd (Job_ID job) (new_execution_state (Job_ID job) (Job_CreatedAt job))
         (executionStates (St_fsm s))\<rparr>"
    by (simp add: applyCommandInternal_def applyCreateJob_def)
  have "raftApply E (zero_Command\<lparr>Cmd_Type := CommandDeleteJob, Cmd_ID := Job_ID job\<rparr>) s1 = (None, s2)"
    using assms(3) by (auto simp: DeleteJob_def Let_def split: if_splits prod.splits option.splits)
  from raftApply_ok [OF this] assms(2)
  have 2: "jobs (St_fsm s2) = fmdrop (Job_ID job) (jobs (St_fsm s1))"
    "executionStates (St_fsm s2) = fmdrop (Job_ID job) (executionStates (St_fsm s1))"
    by (simp_all add: applyCommandInternal_def applyDeleteJob_def)
  show ?thesis by (simp add: 1 2)
qed

lemma created_job_is_readable_witness:
  "Store_GetJob (snd (the (CreateJob solo_env None sample_job (solo_store True NewFSM)))) ''a'' = Some sample_job"
proof -
  let ?s1 = "snd (the (CreateJob solo_env None sample_job (solo_store True NewFSM)))"
  have i: "Job_ID sample_job = ''a''" "wire_Job sample_job = sample_job"
    by (simp_all add: sample_job_def wire_Job_def)
  have 1: "CreateJob solo_env None sample_job (solo_store True NewFSM) = Some (None, ?s1)"
    by (simp add: CreateJob_def)
  have "solo_leader (St_raft ?s1)" by (simp add: CreateJob_def)
  then have 2: "DeleteJob solo_env None (Job_ID sample_job) ?s1
      = Some (None, snd (the (DeleteJob solo_env None (Job_ID sample_job) ?s1)))"
    by (simp add: DeleteJob_def Let_def)
  show ?thesis using created_job_is_readable [OF 1 _ 2] by (simp add: i)
qed

end
