(* ===== verification/Status_Tracker.thy ===== *)
theory Status_Tracker
  imports Job_Store
begin

text \<open>
  The status tracker of \<open>internal/store/status_tracker.go\<close>. It reaches the store through
  the interface \<open>StatusStore\<close>, here a record of operations; the contract of the interface
  is the locale \<open>status_store\<close>, whose laws say what the accepted status commands do to
  the map of execution states. The store of theory \<open>Job_Store\<close> is an instance. The
  callback on status changes works on the state of the node; the clock readings are
  arguments.
\<close>

section \<open>The interface and its contract\<close>

record 's StatusStore =
  SS_IsLeader :: "'s \<Rightarrow> bool"
  SS_GetExecutionState :: "'s \<Rightarrow> string \<Rightarrow> JobExecutionState option"
  SS_GetAllExecutionStates :: "'s \<Rightarrow> (string, JobExecutionState) fmap"
  SS_Apply :: "Command \<Rightarrow> 's \<Rightarrow> store_error option \<times> 's"

text \<open>
  The specification of the three status commands on the map of execution states alone,
  without the state machine around it.
\<close>

definition is_status_command :: "Command \<Rightarrow> bool" where
  "is_status_command cmd \<longleftrightarrow>
     Cmd_Type cmd \<in> {CommandUpdateJobStatus, CommandRecordAttempt, CommandPruneAttempts} \<and>
     Cmd_StatusCommand cmd \<noteq> None"

definition moved_state :: "StatusCommand \<Rightarrow> JobExecutionState \<Rightarrow> JobExecutionState" where
  "moved_state sc s =
     (if validateStateTransition (Exec_Status s) (SC_Status sc) = None
      then status_fields sc (s\<lparr>Exec_Status := SC_Status sc\<rparr>) else s)"

definition states_after ::
  "Command \<Rightarrow> (string, JobExecutionState) fmap \<Rightarrow> (string, JobExecutionState) fmap" where
  "states_after cmd m =
     (case Cmd_StatusCommand cmd of
        None \<Rightarrow> m
      | Some sc \<Rightarrow>
          if Cmd_Type cmd = CommandUpdateJobStatus
          then fmupd (SC_JobID sc)
                 (moved_state sc
                    (case fmlookup m (SC_JobID sc) of Some s \<Rightarrow> s
                     | None \<Rightarrow> new_execution_state (SC_JobID sc) (SC_Timestamp sc))) m
          else case fmlookup m (SC_JobID sc) of
            None \<Rightarrow> m
          | Some s \<Rightarrow>
              if Cmd_Type cmd = CommandPruneAttempts
              then fmupd (SC_JobID sc) (s\<lparr>Exec_Attempts := Cmd_Attempts cmd\<rparr>) m
              else (case SC_Attempt sc of None \<Rightarrow> m
                    | Some a \<Rightarrow> fmupd (SC_JobID sc) (s\<lparr>Exec_Attempts := Exec_Attempts s @ [a]\<rparr>) m))"

lemma fmupd_same [simp]: "fmlookup m k = Some v \<Longrightarrow> fmupd k v m = m"
  by (rule fmap_ext) auto

lemma fmupd_twice [simp]: "fmupd k v (fmupd k v' m) = fmupd k v m"
  by (rule fmap_ext) simp

text \<open>The state machine refines the specification.\<close>

lemma status_command_refines:
  assumes "is_status_command cmd"
  shows "executionStates (snd (applyCommandInternal C cmd f)) = states_after cmd (executionStates f)"
proof -
  from assms obtain sc where sc: "Cmd_StatusCommand cmd = Some sc"
    and ty: "Cmd_Type cmd = CommandUpdateJobStatus \<or> Cmd_Type cmd = CommandRecordAttempt \<or>
      Cmd_Type cmd = CommandPruneAttempts"
    by (auto simp: is_status_command_def)
  from ty show ?thesis
  proof (elim disjE)
    assume "Cmd_Type cmd = CommandUpdateJobStatus"
    with sc show ?thesis
      by (cases "fmlookup (executionStates f) (SC_JobID sc)")
        (simp_all add: applyCommandInternal_def states_after_def applyStatusUpdate_def moved_state_def
          Let_def split: option.splits)
  next
    assume "Cmd_Type cmd = CommandRecordAttempt"
    with sc show ?thesis
      by (simp add: applyCommandInternal_def states_after_def applyRecordAttempt_def split: option.splits)
  next
    assume "Cmd_Type cmd = CommandPruneAttempts"
    with sc show ?thesis
      by (simp add: applyCommandInternal_def states_after_def applyPruneAttempts_def split: option.splits)
  qed
qed

lemma is_status_command_wire [simp]: "is_status_command (wire_Command cmd) = is_status_command cmd"
  by (simp add: is_status_command_def)

lemma states_after_wire [simp]: "states_after (wire_Command cmd) m = states_after cmd m"
  by (simp add: states_after_def split: option.splits)

locale status_store =
  fixes S :: "'s StatusStore"
  assumes get_state: "SS_GetExecutionState S s i = fmlookup (SS_GetAllExecutionStates S s) i"
    and apply_ok: "is_status_command cmd \<Longrightarrow> SS_Apply S cmd s = (None, s') \<Longrightarrow>
      SS_GetAllExecutionStates S s' = states_after cmd (SS_GetAllExecutionStates S s)"
    and apply_error: "is_status_command cmd \<Longrightarrow> SS_Apply S cmd s = (Some e, s') \<Longrightarrow>
      SS_GetAllExecutionStates S s' \<in>
        {SS_GetAllExecutionStates S s, states_after cmd (SS_GetAllExecutionStates S s)}"

text \<open>A store that keeps the leadership and accepts every command while \<open>steady\<close> holds.\<close>

locale steady_status_store = status_store +
  fixes steady :: "'s \<Rightarrow> bool"
  assumes steady_leader: "steady s \<Longrightarrow> SS_IsLeader S s"
    and steady_apply: "steady s \<Longrightarrow> \<exists>s'. SS_Apply S cmd s = (None, s') \<and> steady s'"

section \<open>The tracker\<close>

type_synonym 's StatusChangeCallback = "JobStatus \<Rightarrow> JobStatus \<Rightarrow> 's \<Rightarrow> 's"

definition notify :: "'s StatusChangeCallback option \<Rightarrow> JobStatus \<Rightarrow> JobStatus \<Rightarrow> 's \<Rightarrow> 's" where
  "notify cb old new s = (case cb of None \<Rightarrow> s | Some f \<Rightarrow> f old new s)"

definition state_not_found :: "string \<Rightarrow> store_error" where
  "state_not_found jobID = ErrContext (''execution state not found for job '' @ jobID) ErrNotFound"

definition GetStatus :: "'s StatusStore \<Rightarrow> string \<Rightarrow> 's \<Rightarrow> store_error + JobExecutionState" where
  "GetStatus S jobID s =
     (case SS_GetExecutionState S s jobID of
        None \<Rightarrow> Inl (state_not_found jobID)
      | Some state \<Rightarrow> Inr state)"

definition CanExecute :: "'s StatusStore \<Rightarrow> string \<Rightarrow> 's \<Rightarrow> store_error + bool" where
  "CanExecute S jobID s =
     (case SS_GetExecutionState S s jobID of
        None \<Rightarrow> Inr True
      | Some state \<Rightarrow>
          (case Exec_Status state of
             StatusPending \<Rightarrow> Inr True
           | StatusTimeout \<Rightarrow> Inr True
           | StatusFailed \<Rightarrow> Inr True
           | StatusCompleted \<Rightarrow> Inr False
           | StatusCancelled \<Rightarrow> Inr False
           | StatusInProgress \<Rightarrow> Inr False
           | OtherStatus x \<Rightarrow> Inl (ErrUnknownJobStatus (Exec_Status state))))"

definition applyStatusCommand ::
  "'s StatusStore \<Rightarrow> CommandType \<Rightarrow> StatusCommand \<Rightarrow> 's \<Rightarrow> store_error option \<times> 's" where
  "applyStatusCommand S cmdType statusCmd s =
     (case SS_Apply S (zero_Command\<lparr>Cmd_Type := cmdType, Cmd_StatusCommand := Some statusCmd\<rparr>) s of
        (Some err, s) \<Rightarrow> (Some (ErrContext ''failed to apply command'' err), s)
      | (None, s) \<Rightarrow> (None, s))"

definition recordAttempt ::
  "'s StatusStore \<Rightarrow> int \<Rightarrow> string \<Rightarrow> ExecutionAttempt option \<Rightarrow> 's \<Rightarrow> store_error option \<times> 's" where
  "recordAttempt S now jobID attempt s =
     applyStatusCommand S CommandRecordAttempt
       (zero_StatusCommand\<lparr>SC_JobID := jobID, SC_Attempt := attempt, SC_Timestamp := now\<rparr>) s"

definition RecordAttempt ::
  "'s StatusStore \<Rightarrow> int \<Rightarrow> string \<Rightarrow> ExecutionAttempt option \<Rightarrow> 's \<Rightarrow> store_error option \<times> 's" where
  "RecordAttempt S now jobID attempt s = recordAttempt S now jobID attempt s"

text \<open>The status before a change, as it is handed to the callback.\<close>

definition prev_status :: "'s StatusStore \<Rightarrow> JobStatus \<Rightarrow> string \<Rightarrow> 's \<Rightarrow> JobStatus" where
  "prev_status S default_st jobID s =
     (case GetStatus S jobID s of Inl e \<Rightarrow> default_st | Inr state \<Rightarrow> Exec_Status state)"

definition MarkInProgress ::
  "'s StatusStore \<Rightarrow> 's StatusChangeCallback option \<Rightarrow> int \<Rightarrow> string \<Rightarrow> string \<Rightarrow> 's
     \<Rightarrow> store_error option \<times> 's" where
  "MarkInProgress S cb now jobID nodeID s =
     (if \<not> SS_IsLeader S s then (Some ErrNotLeader, s)
      else let prevStatus = prev_status S StatusPending jobID s;
               statusCmd = zero_StatusCommand\<lparr>SC_JobID := jobID, SC_Status := StatusInProgress,
                             SC_NodeID := nodeID, SC_Timestamp := now\<rparr>
      in case applyStatusCommand S CommandUpdateJobStatus statusCmd s of
           (Some err, s) \<Rightarrow> (Some err, s)
         | (None, s) \<Rightarrow> (None, notify cb prevStatus StatusInProgress s))"

text \<open>\<open>now\<close> and \<open>now'\<close> are the readings of the clock for the attempt and for the status.\<close>

definition MarkCompleted ::
  "'s StatusStore \<Rightarrow> 's StatusChangeCallback option \<Rightarrow> int \<Rightarrow> int \<Rightarrow> string \<Rightarrow> ExecutionAttempt option \<Rightarrow> 's
     \<Rightarrow> store_error option \<times> 's" where
  "MarkCompleted S cb now now' jobID attempt s =
     (if \<not> SS_IsLeader S s then (Some ErrNotLeader, s)
      else let prevStatus = prev_status S StatusInProgress jobID s
      in case recordAttempt S now jobID attempt s of
           (Some err, s) \<Rightarrow> (Some (ErrContext ''failed to record attempt'' err), s)
         | (None, s) \<Rightarrow>
             let statusCmd = zero_StatusCommand\<lparr>SC_JobID := jobID, SC_Status := StatusCompleted,
                               SC_Timestamp := now'\<rparr>
             in case applyStatusCommand S CommandUpdateJobStatus statusCmd s of
                  (Some err, s) \<Rightarrow> (Some err, s)
                | (None, s) \<Rightarrow> (None, notify cb prevStatus StatusCompleted s))"

definition MarkFailed ::
  "'s StatusStore \<Rightarrow> 's StatusChangeCallback option \<Rightarrow> int \<Rightarrow> int \<Rightarrow> string \<Rightarrow> ExecutionAttempt option \<Rightarrow> 's
     \<Rightarrow> store_error option \<times> 's" where
  "MarkFailed S cb now now' jobID attempt s =
     (if \<not> SS_IsLeader S s then (Some ErrNotLeader, s)
      else let prevStatus = prev_status S StatusInProgress jobID s
      in case recordAttempt S now jobID attempt s of
           (Some err, s) \<Rightarrow> (Some (ErrContext ''failed to record attempt'' err), s)
         | (None, s) \<Rightarrow>
             let statusCmd = zero_StatusCommand\<lparr>SC_JobID := jobID, SC_Status := StatusFailed,
                               SC_Timestamp := now'\<rparr>
             in case applyStatusCommand S CommandUpdateJobStatus statusCmd s of
                  (Some err, s) \<Rightarrow> (Some err, s)
                | (None, s) \<Rightarrow> (None, notify cb prevStatus StatusFailed s))"

definition MarkCancelled ::
  "'s StatusStore \<Rightarrow> 's StatusChangeCallback option \<Rightarrow> int \<Rightarrow> string \<Rightarrow> string \<Rightarrow> 's
     \<Rightarrow> store_error option \<times> 's" where
  "MarkCancelled S cb now jobID reason s =
     (if \<not> SS_IsLeader S s then (Some ErrNotLeader, s)
      else let prevStatus = prev_status S StatusPending jobID s;
               statusCmd = zero_StatusCommand\<lparr>SC_JobID := jobID, SC_Status := StatusCancelled,
                             SC_Timestamp := now, SC_CancellationReason := reason\<rparr>
      in case applyStatusCommand S CommandUpdateJobStatus statusCmd s of
           (Some err, s) \<Rightarrow> (Some err, s)
         | (None, s) \<Rightarrow> (None, notify cb prevStatus StatusCancelled s))"

text \<open>The loop of \<open>CheckTimeouts\<close> over the snapshot \<open>allStates\<close>.\<close>

definition timed_out :: "Duration \<Rightarrow> int \<Rightarrow> JobExecutionState \<Rightarrow> bool" where
  "timed_out timeout now state \<longleftrightarrow>
     Exec_Status state = StatusInProgress \<and> sub64 now (Exec_LastAttemptAt state) > seconds64 timeout"

definition timeout_command :: "int \<Rightarrow> string \<Rightarrow> StatusCommand" where
  "timeout_command now jobID =
     zero_StatusCommand\<lparr>SC_JobID := jobID, SC_Status := StatusTimeout, SC_Timestamp := now\<rparr>"

fun timeout_loop ::
  "'s StatusStore \<Rightarrow> 's StatusChangeCallback option \<Rightarrow> Duration \<Rightarrow> int
     \<Rightarrow> (string \<times> JobExecutionState) list \<Rightarrow> string list \<Rightarrow> 's \<Rightarrow> string list \<times> 's" where
  "timeout_loop S cb timeout now [] timedOutJobs s = (timedOutJobs, s)"
| "timeout_loop S cb timeout now ((jobID, state) # rest) timedOutJobs s =
     (if timed_out timeout now state
      then case applyStatusCommand S CommandUpdateJobStatus (timeout_command now jobID) s of
             (Some err, s) \<Rightarrow> timeout_loop S cb timeout now rest timedOutJobs s
           | (None, s) \<Rightarrow>
               timeout_loop S cb timeout now rest (timedOutJobs @ [jobID])
                 (notify cb StatusInProgress StatusTimeout s)
      else timeout_loop S cb timeout now rest timedOutJobs s)"

text \<open>The entries of a map in the order of a range loop.\<close>

definition range_map :: "'k key_order \<Rightarrow> ('k, 'v) fmap \<Rightarrow> ('k \<times> 'v) list" where
  "range_map order m = map (\<lambda>k. (k, the (fmlookup m k))) (order (fmdom' m))"

definition CheckTimeouts ::
  "'s StatusStore \<Rightarrow> 's StatusChangeCallback option \<Rightarrow> string key_order \<Rightarrow> Duration \<Rightarrow> int \<Rightarrow> 's
     \<Rightarrow> (store_error + string list) \<times> 's" where
  "CheckTimeouts S cb order timeout now s =
     (if \<not> SS_IsLeader S s then (Inl ErrNotLeader, s)
      else let (jobs, s) = timeout_loop S cb timeout now (range_map order (SS_GetAllExecutionStates S s)) [] s
      in (Inr jobs, s))"

definition ListByStatus ::
  "'s StatusStore \<Rightarrow> string key_order \<Rightarrow> JobStatus \<Rightarrow> 's \<Rightarrow> JobExecutionState list" where
  "ListByStatus S order status s =
     filter (\<lambda>state. Exec_Status state = status) (map snd (range_map order (SS_GetAllExecutionStates S s)))"

definition GetExecutionHistory :: "'s StatusStore \<Rightarrow> string \<Rightarrow> 's \<Rightarrow> store_error + ExecutionAttempt list" where
  "GetExecutionHistory S jobID s =
     (case SS_GetExecutionState S s jobID of
        None \<Rightarrow> Inl (state_not_found jobID)
      | Some state \<Rightarrow> Inr (Exec_Attempts state))"

definition applyPruneCommand ::
  "'s StatusStore \<Rightarrow> StatusCommand \<Rightarrow> ExecutionAttempt list \<Rightarrow> 's \<Rightarrow> store_error option \<times> 's" where
  "applyPruneCommand S statusCmd keptAttempts s =
     (case SS_Apply S (zero_Command\<lparr>Cmd_Type := CommandPruneAttempts,
             Cmd_StatusCommand := Some statusCmd, Cmd_Attempts := keptAttempts\<rparr>) s of
        (Some err, s) \<Rightarrow> (Some (ErrContext ''failed to apply command'' err), s)
      | (None, s) \<Rightarrow> (None, s))"

text \<open>
  The inner loop of \<open>PruneOldAttempts\<close>: the attempts to keep and the count of the others.
\<close>

fun prune_attempts :: "int \<Rightarrow> ExecutionAttempt list \<Rightarrow> ExecutionAttempt list \<Rightarrow> int \<Rightarrow> ExecutionAttempt list \<times> int" where
  "prune_attempts cutoff [] kept pruned = (kept, pruned)"
| "prune_attempts cutoff (a # as) kept pruned =
     (if Att_StartTime a \<ge> cutoff then prune_attempts cutoff as (kept @ [a]) pruned
      else prune_attempts cutoff as kept (pruned + 1))"

fun prune_loop ::
  "'s StatusStore \<Rightarrow> (string \<Rightarrow> int) \<Rightarrow> int \<Rightarrow> (string \<times> JobExecutionState) list \<Rightarrow> 's \<Rightarrow> 's" where
  "prune_loop S tick cutoffTime [] s = s"
| "prune_loop S tick cutoffTime ((jobID, state) # rest) s =
     (if Exec_Attempts state = [] then prune_loop S tick cutoffTime rest s
      else let (keptAttempts, prunedCount) = prune_attempts cutoffTime (Exec_Attempts state) [] 0
      in if prunedCount > 0
         then prune_loop S tick cutoffTime rest
                (snd (applyPruneCommand S
                   (zero_StatusCommand\<lparr>SC_JobID := jobID, SC_Timestamp := tick jobID\<rparr>) keptAttempts s))
         else prune_loop S tick cutoffTime rest s)"

text \<open>
  \<open>nowNanos\<close> is the clock in nanoseconds since the epoch; \<open>Unix()\<close> floors it to seconds.
  \<open>tick\<close> gives the reading of the clock for each prune command.
\<close>

definition PruneOldAttempts ::
  "'s StatusStore \<Rightarrow> string key_order \<Rightarrow> (string \<Rightarrow> int) \<Rightarrow> Duration \<Rightarrow> int \<Rightarrow> 's \<Rightarrow> store_error option \<times> 's" where
  "PruneOldAttempts S order tick retention nowNanos s =
     (if \<not> SS_IsLeader S s then (Some ErrNotLeader, s)
      else let cutoffTime = (nowNanos - retention) div 1000000000
      in (None, prune_loop S tick cutoffTime (range_map order (SS_GetAllExecutionStates S s)) s))"

text \<open>One tick of the goroutine of \<open>StartPruning\<close>.\<close>

definition pruning_tick ::
  "'s StatusStore \<Rightarrow> string key_order \<Rightarrow> (string \<Rightarrow> int) \<Rightarrow> Duration \<Rightarrow> int \<Rightarrow> 's \<Rightarrow> 's" where
  "pruning_tick S order tick retention nowNanos s =
     (if SS_IsLeader S s then snd (PruneOldAttempts S order tick retention nowNanos s) else s)"

record ExecutionStats =
  Stats_Pending :: int
  Stats_InProgress :: int
  Stats_Completed :: int
  Stats_Failed :: int
  Stats_Cancelled :: int
  Stats_Timeout :: int
  Stats_Total :: int
  Stats_LastExecuted :: int
  Stats_FailureRate :: rat

definition count_state :: "JobExecutionState \<Rightarrow> ExecutionStats \<Rightarrow> ExecutionStats" where
  "count_state state stats =
     (case Exec_Status state of
        StatusPending \<Rightarrow> stats\<lparr>Stats_Pending := Stats_Pending stats + 1\<rparr>
      | StatusInProgress \<Rightarrow> stats\<lparr>Stats_InProgress := Stats_InProgress stats + 1\<rparr>
      | StatusCompleted \<Rightarrow>
          stats\<lparr>Stats_Completed := Stats_Completed stats + 1,
                Stats_LastExecuted :=
                  (if Exec_CompletedAt state > Stats_LastExecuted stats then Exec_CompletedAt state
                   else Stats_LastExecuted stats)\<rparr>
      | StatusFailed \<Rightarrow>
          stats\<lparr>Stats_Failed := Stats_Failed stats + 1,
                Stats_LastExecuted :=
                  (if Exec_CompletedAt state > Stats_LastExecuted stats then Exec_CompletedAt state
                   else Stats_LastExecuted stats)\<rparr>
      | StatusCancelled \<Rightarrow> stats\<lparr>Stats_Cancelled := Stats_Cancelled stats + 1\<rparr>
      | StatusTimeout \<Rightarrow> stats\<lparr>Stats_Timeout := Stats_Timeout stats + 1\<rparr>
      | OtherStatus x \<Rightarrow> stats)"

text \<open>The rate is the exact quotient, without the rounding of \<open>float64\<close>.\<close>

definition GetExecutionStats :: "'s StatusStore \<Rightarrow> string key_order \<Rightarrow> 's \<Rightarrow> ExecutionStats" where
  "GetExecutionStats S order s =
     (let allStates = SS_GetAllExecutionStates S s;
          stats = \<lparr>Stats_Pending = 0, Stats_InProgress = 0, Stats_Completed = 0, Stats_Failed = 0,
                   Stats_Cancelled = 0, Stats_Timeout = 0, Stats_Total = map_len allStates,
                   Stats_LastExecuted = 0, Stats_FailureRate = 0\<rparr>;
          stats = fold (\<lambda>(jobID, state). count_state state) (range_map order allStates) stats;
          finishedCount = Stats_Completed stats + Stats_Failed stats + Stats_Timeout stats
      in if finishedCount > 0
         then stats\<lparr>Stats_FailureRate :=
                of_int (Stats_Failed stats + Stats_Timeout stats) / of_int finishedCount\<rparr>
         else stats)"

section \<open>The store as a status store\<close>

definition Store_StatusStore :: "('c, 'r) Env \<Rightarrow> ('c, 'r, 'z) Store_scheme StatusStore" where
  "Store_StatusStore E =
     \<lparr>SS_IsLeader = IsLeader E, SS_GetExecutionState = Store_GetExecutionState,
      SS_GetAllExecutionStates = Store_GetAllExecutionStates, SS_Apply = Store_Apply E\<rparr>"

lemma Store_StatusStore_simps [simp]:
  "SS_IsLeader (Store_StatusStore E) = IsLeader E"
  "SS_GetExecutionState (Store_StatusStore E) s i = fmlookup (executionStates (St_fsm s)) i"
  "SS_GetAllExecutionStates (Store_StatusStore E) s = executionStates (St_fsm s)"
  "SS_Apply (Store_StatusStore E) = Store_Apply E"
  by (simp_all add: Store_StatusStore_def)

interpretation tracked: status_store "Store_StatusStore E :: ('c, 'r, 'z) Store_scheme StatusStore"
  for E :: "('c, 'r) Env"
proof unfold_locales
  fix cmd :: Command and s s' :: "('c, 'r, 'z) Store_scheme" and e
  assume cmd: "is_status_command cmd"
  note refines = status_command_refines [of "wire_Command cmd" "cold_lib E" "St_fsm s"]
  show "SS_GetAllExecutionStates (Store_StatusStore E) s' = states_after cmd (SS_GetAllExecutionStates (Store_StatusStore E) s)"
    if "SS_Apply (Store_StatusStore E) cmd s = (None, s')"
    using that raftApply_ok [of E cmd s s'] refines cmd by (simp add: Store_Apply_def split: if_splits)
  show "SS_GetAllExecutionStates (Store_StatusStore E) s' \<in> {SS_GetAllExecutionStates (Store_StatusStore E) s,
      states_after cmd (SS_GetAllExecutionStates (Store_StatusStore E) s)}"
    if "SS_Apply (Store_StatusStore E) cmd s = (Some e, s')"
    using that raftApply_error [of E cmd s e s'] refines cmd
    by (auto simp: Store_Apply_def split: if_splits)
qed simp

text \<open>A Raft library that keeps the leadership and applies every command.\<close>

definition steady_raft :: "'r Raft \<Rightarrow> ('r \<Rightarrow> bool) \<Rightarrow> bool" where
  "steady_raft R P \<longleftrightarrow>
     (\<forall>r. P r \<longrightarrow> raft_State R r = Leader \<and> (\<forall>cmd. \<exists>r'. raft_Apply R cmd r = (Applied, r') \<and> P r'))"

lemma steady_store:
  fixes E :: "('c, 'r) Env"
  assumes "steady_raft (raft_lib E) P"
  shows "steady_status_store (Store_StatusStore E) (\<lambda>s :: ('c, 'r, 'z) Store_scheme. P (St_raft s))"
proof unfold_locales
  fix s :: "('c, 'r, 'z) Store_scheme"
  assume s: "P (St_raft s)"
  then show lead: "SS_IsLeader (Store_StatusStore E) s"
    using assms by (simp add: steady_raft_def IsLeader_def)
  fix cmd
  obtain r' where "raft_Apply (raft_lib E) cmd (St_raft s) = (Applied, r')" "P r'"
    using assms s unfolding steady_raft_def by blast
  with lead show "\<exists>s'. SS_Apply (Store_StatusStore E) cmd s = (None, s') \<and> P (St_raft s')"
    by (simp add: Store_Apply_def raftApply_def)
qed

lemma solo_steady: "steady_raft solo_raft solo_leader"
  by (simp add: steady_raft_def solo_raft_def)

interpretation solo_tracked: steady_status_store "Store_StatusStore solo_env" "\<lambda>s. solo_leader (St_raft s)"
  by (rule steady_store) (simp add: solo_steady)

section \<open>Lemmas on the contract\<close>

text \<open>The callback that \<open>NewExecutionManager\<close> installs only updates metrics.\<close>

definition metrics_only :: "'s StatusChangeCallback option \<Rightarrow> bool" where
  "metrics_only cb \<longleftrightarrow> (\<forall>f old new s. cb = Some f \<longrightarrow> f old new s = s)"

lemma notify_metrics_only [simp]: "metrics_only cb \<Longrightarrow> notify cb old new s = s"
  by (simp add: notify_def metrics_only_def split: option.splits)

lemma metrics_only_examples [simp]: "metrics_only None" "metrics_only (Some (\<lambda>old new s. s))"
  by (simp_all add: metrics_only_def)

lemma range_map_facts:
  assumes "range_order order"
  shows "distinct (map fst (range_map order m))" "map_of (range_map order m) i = fmlookup m i"
    "(i, st) \<in> set (range_map order m) \<longleftrightarrow> fmlookup m i = Some st"
proof -
  have fin: "finite (fmdom' m)" by simp
  show d: "distinct (map fst (range_map order m))"
    using range_order_distinct [OF assms fin] by (simp add: range_map_def comp_def)
  show iff: "(i, st) \<in> set (range_map order m) \<longleftrightarrow> fmlookup m i = Some st" for i st
    using range_order_set [OF assms fin] by (auto simp: range_map_def image_iff fmdom'I fmlookup_dom'_iff)
  show "map_of (range_map order m) i = fmlookup m i"
    using d iff by (cases "fmlookup m i")
      (simp_all add: map_of_eq_None_iff, metis eq_fst_iff imageE option.distinct(1))
qed

definition expired :: "JobExecutionState \<Rightarrow> JobExecutionState" where
  "expired st = st\<lparr>Exec_Status := StatusTimeout, Exec_ExecutingNodeID := ''''\<rparr>"

abbreviation status_update :: "CommandType \<Rightarrow> StatusCommand \<Rightarrow> Command" where
  "status_update ty sc \<equiv> zero_Command\<lparr>Cmd_Type := ty, Cmd_StatusCommand := Some sc\<rparr>"

lemma states_after_timeout:
  assumes "fmlookup m i = Some st" "Exec_Status st = StatusInProgress"
  shows "states_after (status_update CommandUpdateJobStatus (timeout_command now i)) m = fmupd i (expired st) m"
  using assms
  by (simp add: states_after_def timeout_command_def moved_state_def validateStateTransition_def
      validTransitions_def status_fields_def expired_def)

lemma prune_attempts_eq:
  "prune_attempts c as kept n =
     (kept @ filter (\<lambda>a. c \<le> Att_StartTime a) as, n + int (length (filter (\<lambda>a. \<not> c \<le> Att_StartTime a) as)))"
  by (induction c as kept n rule: prune_attempts.induct) auto

context status_store
begin

lemma status_update_ok:
  assumes "applyStatusCommand S ty sc s = (None, s')" "ty \<in> {CommandUpdateJobStatus, CommandRecordAttempt}"
  shows "SS_GetAllExecutionStates S s' = states_after (status_update ty sc) (SS_GetAllExecutionStates S s)"
  using assms apply_ok [of "status_update ty sc" s s']
  by (auto simp: applyStatusCommand_def is_status_command_def split: prod.splits option.splits)

lemma status_update_error:
  assumes "applyStatusCommand S ty sc s = (Some e, s')" "ty \<in> {CommandUpdateJobStatus, CommandRecordAttempt}"
  shows "SS_GetAllExecutionStates S s' = SS_GetAllExecutionStates S s \<or>
    SS_GetAllExecutionStates S s' = states_after (status_update ty sc) (SS_GetAllExecutionStates S s)"
  using assms apply_error [of "status_update ty sc" s _ s']
  by (auto simp: applyStatusCommand_def is_status_command_def split: prod.splits option.splits)

lemma finished_states:
  assumes "fmlookup (SS_GetAllExecutionStates S s) i = Some st" "Exec_Status st = StatusInProgress"
    and "recordAttempt S t i (Some a) s = (None, s1)"
    and "applyStatusCommand S CommandUpdateJobStatus
       (zero_StatusCommand\<lparr>SC_JobID := i, SC_Status := fin, SC_Timestamp := t'\<rparr>) s1 = (None, s2)"
    and "fin = StatusCompleted \<or> fin = StatusFailed"
  shows "SS_GetAllExecutionStates S s2 = fmupd i (st\<lparr>Exec_Status := fin,
        Exec_Attempts := Exec_Attempts st @ [a], Exec_CompletedAt := t', Exec_ExecutingNodeID := ''''\<rparr>)
        (SS_GetAllExecutionStates S s)"
proof -
  have 1: "SS_GetAllExecutionStates S s1 =
      fmupd i (st\<lparr>Exec_Attempts := Exec_Attempts st @ [a]\<rparr>) (SS_GetAllExecutionStates S s)"
    using status_update_ok [OF assms(3) [unfolded recordAttempt_def]] assms(1)
    by (simp add: states_after_def)
  show ?thesis
    using status_update_ok [OF assms(4)] assms(2,5)
    by (cases st) (auto simp: 1 states_after_def moved_state_def validateStateTransition_def validTransitions_def
        status_fields_def)
qed

lemma timeout_loop_effect:
  assumes "metrics_only cb" "distinct (map fst es)"
    and "\<And>i st. (i, st) \<in> set es \<Longrightarrow> fmlookup (SS_GetAllExecutionStates S s) i = Some st"
    and "timeout_loop S cb t now es acc s = (out, s')"
  shows "(\<forall>i \<in> set out - set acc. \<exists>st. (i, st) \<in> set es \<and> timed_out t now st \<and>
       fmlookup (SS_GetAllExecutionStates S s') i = Some (expired st)) \<and>
     (\<forall>i. fmlookup (SS_GetAllExecutionStates S s') i = fmlookup (SS_GetAllExecutionStates S s) i \<or>
       (\<exists>st. (i, st) \<in> set es \<and> timed_out t now st \<and>
          fmlookup (SS_GetAllExecutionStates S s') i = Some (expired st)))"
  using assms(2-4)
proof (induction es arbitrary: acc s)
  case Nil
  then show ?case by simp
next
  case (Cons e es)
  obtain j st where e: "e = (j, st)" by fastforce
  let ?m = "SS_GetAllExecutionStates S s"
  have j: "fmlookup ?m j = Some st" using Cons.prems(2) e by simp
  have notin: "\<And>x. (j, x) \<notin> set es" using Cons.prems(1) e by force
  show ?case
  proof (cases "timed_out t now st")
    case False
    then have "timeout_loop S cb t now es acc s = (out, s')" using Cons.prems(3) e by simp
    from Cons.IH [OF _ _ this] Cons.prems(1,2) e show ?thesis by (simp, blast)
  next
    case True
    obtain err s1 where a: "applyStatusCommand S CommandUpdateJobStatus (timeout_command now j) s = (err, s1)"
      by fastforce
    have after: "states_after (status_update CommandUpdateJobStatus (timeout_command now j)) ?m = fmupd j (expired st) ?m"
      using True j by (intro states_after_timeout) (simp_all add: timed_out_def)
    define acc1 where "acc1 = (if err = None then acc @ [j] else acc)"
    have step: "timeout_loop S cb t now es acc1 s1 = (out, s')"
      using Cons.prems(3) True a assms(1) e by (cases err) (simp_all add: acc1_def)
    have m1: "SS_GetAllExecutionStates S s1 = fmupd j (expired st) ?m \<or>
        (err \<noteq> None \<and> SS_GetAllExecutionStates S s1 = ?m)"
      using status_update_ok [of CommandUpdateJobStatus "timeout_command now j" s s1]
        status_update_error [of CommandUpdateJobStatus "timeout_command now j" s _ s1] a after
      by (cases err) auto
    have "fmlookup (SS_GetAllExecutionStates S s1) i = Some x" if "(i, x) \<in> set es" for i x
      using m1 that notin Cons.prems(2) e by (cases "i = j") auto
    from Cons.IH [OF _ this step] Cons.prems(1) e
    have IH: "\<forall>i \<in> set out - set acc1. \<exists>x. (i, x) \<in> set es \<and> timed_out t now x \<and>
         fmlookup (SS_GetAllExecutionStates S s') i = Some (expired x)"
      "\<forall>i. fmlookup (SS_GetAllExecutionStates S s') i = fmlookup (SS_GetAllExecutionStates S s1) i \<or>
         (\<exists>x. (i, x) \<in> set es \<and> timed_out t now x \<and>
            fmlookup (SS_GetAllExecutionStates S s') i = Some (expired x))"
      by simp_all
    have new_j: "fmlookup (SS_GetAllExecutionStates S s') j = fmlookup (SS_GetAllExecutionStates S s1) j"
      using IH(2) notin by blast
    show ?thesis
    proof (intro conjI ballI allI)
      fix i assume i: "i \<in> set out - set acc"
      show "\<exists>x. (i, x) \<in> set (e # es) \<and> timed_out t now x \<and>
          fmlookup (SS_GetAllExecutionStates S s') i = Some (expired x)"
      proof (cases "i \<in> set acc1")
        case True
        with i have "i = j" "err = None" by (auto simp: acc1_def split: if_splits)
        then show ?thesis using m1 new_j e \<open>timed_out t now st\<close> by auto
      next
        case False
        with IH(1) i show ?thesis by auto
      qed
    next
      fix i
      show "fmlookup (SS_GetAllExecutionStates S s') i = fmlookup ?m i \<or>
          (\<exists>x. (i, x) \<in> set (e # es) \<and> timed_out t now x \<and>
             fmlookup (SS_GetAllExecutionStates S s') i = Some (expired x))"
      proof (cases "i = j")
        case True
        then show ?thesis using m1 new_j e \<open>timed_out t now st\<close> by auto
      next
        case False
        then have "fmlookup (SS_GetAllExecutionStates S s1) i = fmlookup ?m i" using m1 by auto
        then show ?thesis using IH(2) [rule_format, of i] by auto
      qed
    qed
  qed
qed

lemma CheckTimeouts_effect:
  assumes "metrics_only cb" "range_order order" "CheckTimeouts S cb order t now s = (Inr out, s')"
  shows "(\<forall>i \<in> set out. \<exists>st. fmlookup (SS_GetAllExecutionStates S s) i = Some st \<and> timed_out t now st \<and>
       fmlookup (SS_GetAllExecutionStates S s') i = Some (expired st)) \<and>
     (\<forall>i. fmlookup (SS_GetAllExecutionStates S s') i = fmlookup (SS_GetAllExecutionStates S s) i \<or>
       (\<exists>st. fmlookup (SS_GetAllExecutionStates S s) i = Some st \<and> timed_out t now st \<and>
          fmlookup (SS_GetAllExecutionStates S s') i = Some (expired st)))"
proof -
  let ?es = "range_map order (SS_GetAllExecutionStates S s)"
  have loop: "timeout_loop S cb t now ?es [] s = (out, s')"
    using assms(3) by (auto simp: CheckTimeouts_def split: if_splits prod.splits)
  note R = range_map_facts [OF assms(2), where m = "SS_GetAllExecutionStates S s"]
  show ?thesis
    using timeout_loop_effect [OF assms(1) R(1) _ loop] R(3) by simp
qed

end

context steady_status_store
begin

lemma steady_status_update:
  assumes "steady s"
  obtains s' where "applyStatusCommand S ty sc s = (None, s')" "steady s'"
proof -
  obtain s' where "SS_Apply S (status_update ty sc) s = (None, s')" "steady s'"
    using steady_apply [OF assms] by blast
  then show ?thesis by (intro that) (simp_all add: applyStatusCommand_def)
qed

lemma timeout_loop_steady:
  assumes "metrics_only cb" "steady s"
  shows "\<exists>s'. timeout_loop S cb t now es acc s = (acc @ map fst (filter (timed_out t now \<circ> snd) es), s') \<and> steady s'"
  using assms(2)
proof (induction es arbitrary: acc s)
  case Nil
  then show ?case by simp
next
  case (Cons e es)
  obtain j st where e: "e = (j, st)" by fastforce
  obtain s1 where "applyStatusCommand S CommandUpdateJobStatus (timeout_command now j) s = (None, s1)" "steady s1"
    using steady_status_update [OF Cons.prems] by metis
  with Cons.IH [of s1 "acc @ [j]"] Cons.IH [OF Cons.prems, of acc] e assms(1) show ?case
    by (cases "timed_out t now st") auto
qed

lemma CheckTimeouts_steady:
  assumes "metrics_only cb" "range_order order" "steady s"
  shows "\<exists>out s'. CheckTimeouts S cb order t now s = (Inr out, s') \<and>
     set out = {i. \<exists>st. fmlookup (SS_GetAllExecutionStates S s) i = Some st \<and> timed_out t now st} \<and>
     SS_GetAllExecutionStates S s' =
       fmmap (\<lambda>st. if timed_out t now st then expired st else st) (SS_GetAllExecutionStates S s)"
proof -
  let ?m = "SS_GetAllExecutionStates S s"
  let ?es = "range_map order ?m"
  obtain s' where loop: "timeout_loop S cb t now ?es [] s = (map fst (filter (timed_out t now \<circ> snd) ?es), s')"
    using timeout_loop_steady [OF assms(1,3), of t now ?es "[]"] by auto
  define out where "out = map fst (filter (timed_out t now \<circ> snd) ?es)"
  have C: "CheckTimeouts S cb order t now s = (Inr out, s')"
    using loop steady_leader [OF assms(3)] by (simp add: CheckTimeouts_def out_def)
  have set_out: "set out = {i. \<exists>st. fmlookup ?m i = Some st \<and> timed_out t now st}"
    using range_map_facts(3) [OF assms(2)] by (force simp: out_def)
  have "fmlookup (SS_GetAllExecutionStates S s') i
      = fmlookup (fmmap (\<lambda>st. if timed_out t now st then expired st else st) ?m) i" for i
  proof (cases "fmlookup ?m i")
    case None
    then show ?thesis using CheckTimeouts_effect [OF assms(1,2) C, THEN conjunct2, rule_format, of i] by auto
  next
    case (Some st)
    note E = CheckTimeouts_effect [OF assms(1,2) C]
    show ?thesis
    proof (cases "timed_out t now st")
      case True
      then have "i \<in> set out" using set_out Some by simp
      with E Some have "fmlookup (SS_GetAllExecutionStates S s') i = Some (expired st)" by force
      then show ?thesis using Some True by simp
    next
      case False
      with E [THEN conjunct2, rule_format, of i] Some
      have "fmlookup (SS_GetAllExecutionStates S s') i = Some st" by auto
      then show ?thesis using Some False by simp
    qed
  qed
  then show ?thesis using C set_out fmap_ext by blast
qed

lemma steady_prune:
  assumes "steady s" "fmlookup (SS_GetAllExecutionStates S s) (SC_JobID sc) = Some st"
  obtains s' where "applyPruneCommand S sc xs s = (None, s')" "steady s'"
    "SS_GetAllExecutionStates S s' =
       fmupd (SC_JobID sc) (st\<lparr>Exec_Attempts := xs\<rparr>) (SS_GetAllExecutionStates S s)"
proof -
  let ?cmd = "zero_Command\<lparr>Cmd_Type := CommandPruneAttempts, Cmd_StatusCommand := Some sc, Cmd_Attempts := xs\<rparr>"
  obtain s' where s': "SS_Apply S ?cmd s = (None, s')" "steady s'"
    using steady_apply [OF assms(1)] by blast
  moreover from apply_ok [OF _ s'(1)] assms(2)
  have "SS_GetAllExecutionStates S s' =
       fmupd (SC_JobID sc) (st\<lparr>Exec_Attempts := xs\<rparr>) (SS_GetAllExecutionStates S s)"
    by (simp add: is_status_command_def states_after_def)
  ultimately show ?thesis using that by (simp add: applyPruneCommand_def)
qed

lemma prune_loop_steady:
  assumes "steady s" "distinct (map fst es)"
    and "\<And>i st. (i, st) \<in> set es \<Longrightarrow> fmlookup (SS_GetAllExecutionStates S s) i = Some st"
  shows "fmlookup (SS_GetAllExecutionStates S (prune_loop S tick c es s)) i =
     (case map_of es i of Some st \<Rightarrow> Some (st\<lparr>Exec_Attempts := filter (\<lambda>a. c \<le> Att_StartTime a) (Exec_Attempts st)\<rparr>)
      | None \<Rightarrow> fmlookup (SS_GetAllExecutionStates S s) i)"
  using assms
proof (induction es arbitrary: s)
  case Nil
  then show ?case by simp
next
  case (Cons e es)
  obtain j st where e: "e = (j, st)" by fastforce
  let ?kept = "filter (\<lambda>a. c \<le> Att_StartTime a) (Exec_Attempts st)"
  let ?sc = "zero_StatusCommand\<lparr>SC_JobID := j, SC_Timestamp := tick j\<rparr>"
  have j: "fmlookup (SS_GetAllExecutionStates S s) j = Some st" using Cons.prems(3) e by simp
  have notin: "map_of es j = None" "\<And>x. (j, x) \<notin> set es"
    using Cons.prems(2) e by (auto simp: map_of_eq_None_iff image_iff)
  show ?case
  proof (cases "filter (\<lambda>a. \<not> c \<le> Att_StartTime a) (Exec_Attempts st) = []")
    case True
    then have keep: "?kept = Exec_Attempts st" by (simp add: filter_empty_conv filter_id_conv)
    have "prune_loop S tick c (e # es) s = prune_loop S tick c es s"
      using True by (simp add: e prune_attempts_eq)
    with Cons.IH [OF Cons.prems(1)] Cons.prems j notin keep show ?thesis
      by (auto simp: e simp del: prune_loop.simps)
  next
    case False
    obtain s1 where s1: "applyPruneCommand S ?sc ?kept s = (None, s1)" "steady s1"
      "SS_GetAllExecutionStates S s1 = fmupd j (st\<lparr>Exec_Attempts := ?kept\<rparr>) (SS_GetAllExecutionStates S s)"
      by (rule steady_prune [OF Cons.prems(1), of ?sc st ?kept]) (simp_all add: j)
    have "prune_loop S tick c (e # es) s = prune_loop S tick c es s1"
      using False s1(1) by (auto simp: e prune_attempts_eq)
    moreover have "fmlookup (SS_GetAllExecutionStates S s1) i = Some x" if "(i, x) \<in> set es" for i x
      using that notin Cons.prems(3) e s1(3) by (cases "i = j") auto
    ultimately show ?thesis
      using Cons.IH [OF s1(2)] Cons.prems(2) e notin s1(3) by (auto split: option.splits)
  qed
qed

lemma PruneOldAttempts_steady:
  assumes "range_order order" "steady s"
  shows "\<exists>s'. PruneOldAttempts S order tick retention nanos s = (None, s') \<and>
     SS_GetAllExecutionStates S s' =
       fmmap (\<lambda>st. st\<lparr>Exec_Attempts :=
                filter (\<lambda>a. (nanos - retention) div 1000000000 \<le> Att_StartTime a) (Exec_Attempts st)\<rparr>)
         (SS_GetAllExecutionStates S s)"
proof -
  let ?m = "SS_GetAllExecutionStates S s" and ?c = "(nanos - retention) div 1000000000"
  note R = range_map_facts [OF assms(1), where m = ?m]
  have "fmlookup (SS_GetAllExecutionStates S (prune_loop S tick ?c (range_map order ?m) s)) i
     = map_option (\<lambda>st. st\<lparr>Exec_Attempts := filter (\<lambda>a. ?c \<le> Att_StartTime a) (Exec_Attempts st)\<rparr>) (fmlookup ?m i)" for i
    using prune_loop_steady [OF assms(2) R(1), of tick ?c i] R(2,3) by (simp split: option.splits)
  then show ?thesis
    using steady_leader [OF assms(2)] by (auto simp: PruneOldAttempts_def intro!: fmap_ext)
qed

end

section \<open>Statistics\<close>

definition count_status :: "(string, JobExecutionState) fmap \<Rightarrow> JobStatus \<Rightarrow> int" where
  "count_status m st = int (card {i. \<exists>x. fmlookup m i = Some x \<and> Exec_Status x = st})"

lemma fold_count_state:
  fixes es :: "(string \<times> JobExecutionState) list" and stats :: ExecutionStats
  defines "r \<equiv> fold (\<lambda>(i, st). count_state st) es stats"
    and "n \<equiv> \<lambda>st. int (length (filter (\<lambda>e. Exec_Status (snd e) = st) es))"
  shows "Stats_Pending r = Stats_Pending stats + n StatusPending"
    "Stats_InProgress r = Stats_InProgress stats + n StatusInProgress"
    "Stats_Completed r = Stats_Completed stats + n StatusCompleted"
    "Stats_Failed r = Stats_Failed stats + n StatusFailed"
    "Stats_Cancelled r = Stats_Cancelled stats + n StatusCancelled"
    "Stats_Timeout r = Stats_Timeout stats + n StatusTimeout"
    "Stats_Total r = Stats_Total stats" "Stats_FailureRate r = Stats_FailureRate stats"
  unfolding r_def n_def
  by (induction es arbitrary: stats) (auto simp: count_state_def split: JobStatus.splits)

lemma length_filter_range_map:
  assumes "range_order order"
  shows "int (length (filter (\<lambda>e. Exec_Status (snd e) = st) (range_map order m))) = count_status m st"
proof -
  let ?f = "filter (\<lambda>e. Exec_Status (snd e) = st) (range_map order m)"
  have "distinct (map fst ?f)"
    using range_map_facts(1) [OF assms, of m] by (simp add: distinct_map inj_on_def)
  then have "card (set (map fst ?f)) = length ?f" by (metis distinct_card length_map)
  moreover have "set (map fst ?f) = {i. \<exists>x. fmlookup m i = Some x \<and> Exec_Status x = st}"
    using range_map_facts(3) [OF assms, of _ _ m] by (auto simp: image_iff)
  ultimately show ?thesis
    unfolding count_status_def by (simp only:)
qed

lemma count_status_sum:
  assumes "\<And>i x y. fmlookup m i = Some x \<Longrightarrow> Exec_Status x \<noteq> OtherStatus y"
  shows "count_status m StatusPending + count_status m StatusInProgress + count_status m StatusCompleted
       + count_status m StatusFailed + count_status m StatusCancelled + count_status m StatusTimeout = map_len m"
proof -
  let ?S = "\<lambda>st. {i. \<exists>x. fmlookup m i = Some x \<and> Exec_Status x = st}"
  have fin: "finite (?S st)" for st
    by (rule finite_subset [of _ "fmdom' m"]) (auto simp: fmdom'I)
  have "fmdom' m = (\<Union>st \<in> {StatusPending, StatusInProgress, StatusCompleted, StatusFailed,
      StatusCancelled, StatusTimeout}. ?S st)"
  proof (intro equalityI subsetI)
    fix i assume "i \<in> fmdom' m"
    then obtain x where x: "fmlookup m i = Some x" by (auto simp: fmlookup_dom'_iff)
    show "i \<in> (\<Union>st \<in> {StatusPending, StatusInProgress, StatusCompleted, StatusFailed,
      StatusCancelled, StatusTimeout}. ?S st)"
    proof (cases "Exec_Status x")
      case (OtherStatus y)
      with assms [OF x, of y] show ?thesis by simp
    qed (use x in simp_all)
  qed (auto simp: fmlookup_dom'_iff)
  moreover have "card (\<Union>st \<in> {StatusPending, StatusInProgress, StatusCompleted, StatusFailed,
      StatusCancelled, StatusTimeout}. ?S st) = (\<Sum>st \<in> {StatusPending, StatusInProgress, StatusCompleted,
      StatusFailed, StatusCancelled, StatusTimeout}. card (?S st))"
    using fin by (intro card_UN_disjoint) auto
  ultimately show ?thesis by (simp add: map_len_def count_status_def)
qed

section \<open>Properties\<close>

text \<open>The check before an execution is the rule of the state machine: for a job whose status
  is one of the six constants, \<open>CanExecute\<close> answers yes exactly when the machine accepts
  the transition to in progress; for a job without a state it answers yes, and for an
  unknown status it returns an error.\<close>
theorem can_execute_iff_startable:
  "CanExecute (Store_StatusStore E) jobID s =
     (case Store_GetExecutionState s jobID of
        None \<Rightarrow> Inr True
      | Some st \<Rightarrow>
          if validTransitions (Exec_Status st) = None then Inl (ErrUnknownJobStatus (Exec_Status st))
          else Inr (validateStateTransition (Exec_Status st) StatusInProgress = None))"
  by (simp add: CanExecute_def validateStateTransition_def validTransitions_def
      split: option.splits JobStatus.splits)

text \<open>Starting a job that may start marks it: a \<open>MarkInProgress\<close> without error on a job with
  a pending, failed or expired state makes the state in progress on the given node, counts
  one more attempt, stamps the attempt (the first stamp is kept on retries), and leaves
  the states of other jobs alone.\<close>
theorem mark_in_progress_starts:
  assumes "metrics_only cb"
    and "MarkInProgress (Store_StatusStore E) cb now jobID nodeID s = (None, s')"
    and "Store_GetExecutionState s jobID = Some st"
    and "Exec_Status st \<in> {StatusPending, StatusFailed, StatusTimeout}"
  shows "Store_GetAllExecutionStates s' =
     fmupd jobID (st\<lparr>Exec_Status := StatusInProgress,
        Exec_FirstAttemptAt := (if Exec_FirstAttemptAt st = 0 then now else Exec_FirstAttemptAt st),
        Exec_LastAttemptAt := now, Exec_ExecutingNodeID := nodeID,
        Exec_AttemptCount := add64 (Exec_AttemptCount st) 1\<rparr>) (Store_GetAllExecutionStates s)"
proof -
  let ?sc = "zero_StatusCommand\<lparr>SC_JobID := jobID, SC_Status := StatusInProgress, SC_NodeID := nodeID, SC_Timestamp := now\<rparr>"
  have "applyStatusCommand (Store_StatusStore E) CommandUpdateJobStatus ?sc s = (None, s')"
    using assms(1,2) by (auto simp: MarkInProgress_def Let_def split: if_splits prod.splits option.splits)
  from tracked.status_update_ok [OF this] assms(3,4) show ?thesis
    by (auto simp: states_after_def moved_state_def validateStateTransition_def validTransitions_def status_fields_def)
qed

lemma sample_states [simp]:
  "executionStates sample_fsm = fmupd ''a'' (new_execution_state ''a'' 90) fmempty"
  by (simp add: sample_fsm_def)

lemma solo_status_update:
  assumes "solo_leader (St_raft s)"
  shows "applyStatusCommand (Store_StatusStore solo_env) ty sc s = (None,
     s\<lparr>St_fsm := snd (applyCommandInternal memory_archive (wire_Command (status_update ty sc)) (St_fsm s))\<rparr>)"
  using assms by (simp add: applyStatusCommand_def Store_Apply_def)

lemma mark_in_progress_starts_witness:
  "fmlookup (Store_GetAllExecutionStates (snd (MarkInProgress (Store_StatusStore solo_env) None 100 ''a'' ''n1''
      (solo_store True sample_fsm)))) ''a''
   = Some (new_execution_state ''a'' 90\<lparr>Exec_Status := StatusInProgress, Exec_FirstAttemptAt := 100,
       Exec_LastAttemptAt := 100, Exec_ExecutingNodeID := ''n1'', Exec_AttemptCount := 1\<rparr>)"
proof -
  let ?r = "MarkInProgress (Store_StatusStore solo_env) None 100 ''a'' ''n1'' (solo_store True sample_fsm)"
  have "?r = (None, snd ?r)"
    by (simp add: MarkInProgress_def solo_status_update Let_def notify_def)
  from mark_in_progress_starts [OF _ this, of "new_execution_state ''a'' 90"] show ?thesis
    by (simp add: new_execution_state_def add64_def)
qed

text \<open>Finishing a running job records it: a \<open>MarkCompleted\<close> (or \<open>MarkFailed\<close>) without error
  on a job in progress appends the attempt, makes the status completed (or failed),
  stamps the completion, clears the executing node, and changes no other state.\<close>
theorem mark_finished_records:
  assumes "metrics_only cb" "Store_GetExecutionState s jobID = Some st" "Exec_Status st = StatusInProgress"
    and "MarkCompleted (Store_StatusStore E) cb t t' jobID (Some a) s = (None, s1)"
    and "MarkFailed (Store_StatusStore E) cb u u' jobID (Some b) s = (None, s2)"
  shows "Store_GetAllExecutionStates s1 = fmupd jobID (st\<lparr>Exec_Status := StatusCompleted,
        Exec_Attempts := Exec_Attempts st @ [a], Exec_CompletedAt := t', Exec_ExecutingNodeID := ''''\<rparr>)
        (Store_GetAllExecutionStates s)
    \<and> Store_GetAllExecutionStates s2 = fmupd jobID (st\<lparr>Exec_Status := StatusFailed,
        Exec_Attempts := Exec_Attempts st @ [b], Exec_CompletedAt := u', Exec_ExecutingNodeID := ''''\<rparr>)
        (Store_GetAllExecutionStates s)"
proof
  let ?S = "Store_StatusStore E"
  have st: "fmlookup (SS_GetAllExecutionStates ?S s) jobID = Some st" using assms(2) by simp
  obtain r1 where r1: "recordAttempt ?S t jobID (Some a) s = (None, r1)"
    "applyStatusCommand ?S CommandUpdateJobStatus
       (zero_StatusCommand\<lparr>SC_JobID := jobID, SC_Status := StatusCompleted, SC_Timestamp := t'\<rparr>) r1 = (None, s1)"
    using assms(1,4) by (auto simp: MarkCompleted_def Let_def split: if_splits prod.splits option.splits)
  from tracked.finished_states [OF st assms(3) r1]
  show "Store_GetAllExecutionStates s1 = fmupd jobID (st\<lparr>Exec_Status := StatusCompleted,
        Exec_Attempts := Exec_Attempts st @ [a], Exec_CompletedAt := t', Exec_ExecutingNodeID := ''''\<rparr>)
        (Store_GetAllExecutionStates s)" by simp
  obtain r2 where r2: "recordAttempt ?S u jobID (Some b) s = (None, r2)"
    "applyStatusCommand ?S CommandUpdateJobStatus
       (zero_StatusCommand\<lparr>SC_JobID := jobID, SC_Status := StatusFailed, SC_Timestamp := u'\<rparr>) r2 = (None, s2)"
    using assms(1,5) by (auto simp: MarkFailed_def Let_def split: if_splits prod.splits option.splits)
  from tracked.finished_states [OF st assms(3) r2]
  show "Store_GetAllExecutionStates s2 = fmupd jobID (st\<lparr>Exec_Status := StatusFailed,
        Exec_Attempts := Exec_Attempts st @ [b], Exec_CompletedAt := u', Exec_ExecutingNodeID := ''''\<rparr>)
        (Store_GetAllExecutionStates s)" by simp
qed

definition running_fsm :: "'c FSM" where
  "running_fsm = NewFSM\<lparr>executionStates := fmupd ''a'' (new_execution_state ''a'' 90\<lparr>Exec_Status := StatusInProgress,
     Exec_FirstAttemptAt := 100, Exec_LastAttemptAt := 100, Exec_ExecutingNodeID := ''n1'', Exec_AttemptCount := 1\<rparr>) fmempty\<rparr>"

lemma mark_finished_records_witness:
  "\<exists>st. fmlookup (Store_GetAllExecutionStates (snd (MarkCompleted (Store_StatusStore solo_env) None 101 102 ''a''
      (Some zero_Attempt) (solo_store True running_fsm)))) ''a'' = Some st \<and> Exec_Status st = StatusCompleted \<and>
     Exec_CompletedAt st = 102 \<and> Exec_Attempts st = [zero_Attempt]"
proof -
  let ?s = "solo_store True running_fsm" and ?S = "Store_StatusStore solo_env"
  let ?st = "new_execution_state ''a'' 90\<lparr>Exec_Status := StatusInProgress,
     Exec_FirstAttemptAt := 100, Exec_LastAttemptAt := 100, Exec_ExecutingNodeID := ''n1'', Exec_AttemptCount := 1\<rparr>"
  have st: "Store_GetExecutionState ?s ''a'' = Some ?st" by (simp add: running_fsm_def)
  have 1: "MarkCompleted ?S None 101 102 ''a'' (Some zero_Attempt) ?s
      = (None, snd (MarkCompleted ?S None 101 102 ''a'' (Some zero_Attempt) ?s))"
    by (simp add: MarkCompleted_def recordAttempt_def solo_status_update Let_def notify_def)
  have 2: "MarkFailed ?S None 101 102 ''a'' (Some zero_Attempt) ?s
      = (None, snd (MarkFailed ?S None 101 102 ''a'' (Some zero_Attempt) ?s))"
    by (simp add: MarkFailed_def recordAttempt_def solo_status_update Let_def notify_def)
  have "Store_GetAllExecutionStates (snd (MarkCompleted ?S None 101 102 ''a'' (Some zero_Attempt) ?s))
      = fmupd ''a'' (?st\<lparr>Exec_Status := StatusCompleted, Exec_Attempts := Exec_Attempts ?st @ [zero_Attempt],
          Exec_CompletedAt := 102, Exec_ExecutingNodeID := ''''\<rparr>) (Store_GetAllExecutionStates ?s)"
    by (rule mark_finished_records [OF _ st _ 1 2, THEN conjunct1]) simp_all
  then show ?thesis by (simp add: new_execution_state_def)
qed

text \<open>Cancelling a finished job reports success: for a job that is completed or cancelled, a
  \<open>MarkCancelled\<close> that Raft accepts returns no error although the state machine has
  rejected the transition, and every execution state is as before.\<close>
theorem cancel_finished_reports_success:
  assumes "metrics_only cb" "IsLeader E s" "\<exists>r. raft_Apply (raft_lib E) cmd (St_raft s) = (Applied, r)"
    and "cmd = status_update CommandUpdateJobStatus (zero_StatusCommand\<lparr>SC_JobID := jobID,
      SC_Status := StatusCancelled, SC_Timestamp := now, SC_CancellationReason := reason\<rparr>)"
    and "Store_GetExecutionState s jobID = Some st" "Exec_Status st \<in> {StatusCompleted, StatusCancelled}"
  shows "\<exists>s'. MarkCancelled (Store_StatusStore E) cb now jobID reason s = (None, s') \<and>
     Store_GetAllExecutionStates s' = Store_GetAllExecutionStates s"
proof -
  obtain r where r: "raft_Apply (raft_lib E) cmd (St_raft s) = (Applied, r)" using assms(3) by blast
  then obtain s' where s': "raftApply E cmd s = (None, s')" by (simp add: raftApply_def)
  then have ok: "SS_Apply (Store_StatusStore E) cmd s = (None, s')"
    using assms(2) by (simp add: Store_Apply_def)
  have "MarkCancelled (Store_StatusStore E) cb now jobID reason s = (None, s')"
    using ok assms(1,2) unfolding assms(4) by (simp add: MarkCancelled_def applyStatusCommand_def Let_def)
  moreover have "Store_GetAllExecutionStates s' = states_after cmd (Store_GetAllExecutionStates s)"
    using tracked.apply_ok [OF _ ok] by (simp add: assms(4) is_status_command_def)
  moreover have "states_after cmd (Store_GetAllExecutionStates s) = Store_GetAllExecutionStates s"
    using assms(5,6) by (auto simp: assms(4) states_after_def moved_state_def validateStateTransition_def
        validTransitions_def)
  ultimately show ?thesis by auto
qed

lemma cancel_finished_reports_success_witness:
  "\<exists>s'. MarkCancelled (Store_StatusStore solo_env) None 200 ''a'' ''late'' (solo_store True cancelled_fsm) = (None, s')"
proof -
  let ?s = "solo_store True cancelled_fsm"
  have "raft_Apply (raft_lib solo_env) c (St_raft ?s) = (Applied, St_raft ?s)" for c
    by (simp add: solo_raft_def)
  then have "\<exists>r. raft_Apply (raft_lib solo_env) c (St_raft ?s) = (Applied, r)" for c by blast
  note P = cancel_finished_reports_success [OF _ _ this refl]
  have "Store_GetExecutionState ?s ''a'' = Some (new_execution_state ''a'' 90\<lparr>Exec_Status := StatusCancelled\<rparr>)"
    by (simp add: cancelled_fsm_def)
  from P [OF _ _ this, of None] show ?thesis by auto
qed



text \<open>On such a node \<open>PruneOldAttempts\<close> keeps, for every job, exactly the attempts that
  started within the retention period, in their order, and changes nothing else of any
  execution state.\<close>
theorem prune_keeps_recent_attempts:
  assumes "range_order order" "steady_raft (raft_lib E) P" "P (St_raft s)"
  shows "\<exists>s'. PruneOldAttempts (Store_StatusStore E) order tick retention nanos s = (None, s') \<and>
     Store_GetAllExecutionStates s' =
       fmmap (\<lambda>st. st\<lparr>Exec_Attempts :=
                filter (\<lambda>a. (nanos - retention) div 1000000000 \<le> Att_StartTime a) (Exec_Attempts st)\<rparr>)
         (Store_GetAllExecutionStates s)"
  using steady_status_store.PruneOldAttempts_steady [OF steady_store [OF assms(2)] assms(1,3)] by simp

lemma prune_keeps_recent_attempts_witness:
  "\<exists>s'. PruneOldAttempts (Store_StatusStore solo_env) sorted_list_of_set (\<lambda>i. 500) (100 * Second) (500 * Second)
     (solo_store True running_fsm) = (None, s')"
  using prune_keeps_recent_attempts [of sorted_list_of_set solo_env solo_leader "solo_store True running_fsm"
      "\<lambda>i. 500" "100 * Second" "500 * Second"]
  by (auto simp: range_order_sorted solo_steady)

text \<open>The statistics count each job once: every counter of \<open>GetExecutionStats\<close> is the number
  of jobs with that status, whatever the order of the loop; when all statuses are
  constants the six counters add up to the total; and the failure rate lies between 0
  and 1.\<close>
theorem execution_stats_count:
  assumes "range_order order"
    and "\<forall>i st x. Store_GetExecutionState s i = Some st \<longrightarrow> Exec_Status st \<noteq> OtherStatus x"
  shows "let r = GetExecutionStats (Store_StatusStore E) order s; m = Store_GetAllExecutionStates s in
     Stats_Pending r = count_status m StatusPending \<and> Stats_InProgress r = count_status m StatusInProgress \<and>
     Stats_Completed r = count_status m StatusCompleted \<and> Stats_Failed r = count_status m StatusFailed \<and>
     Stats_Cancelled r = count_status m StatusCancelled \<and> Stats_Timeout r = count_status m StatusTimeout \<and>
     Stats_Total r = map_len m \<and>
     Stats_Pending r + Stats_InProgress r + Stats_Completed r + Stats_Failed r + Stats_Cancelled r
       + Stats_Timeout r = Stats_Total r \<and>
     0 \<le> Stats_FailureRate r \<and> Stats_FailureRate r \<le> 1"
proof -
  let ?m = "executionStates (St_fsm s)"
  note counts = fold_count_state [where es = "range_map order ?m"] length_filter_range_map [OF assms(1)]
  have sum: "count_status ?m StatusPending + count_status ?m StatusInProgress + count_status ?m StatusCompleted
       + count_status ?m StatusFailed + count_status ?m StatusCancelled + count_status ?m StatusTimeout = map_len ?m"
    using assms(2) by (intro count_status_sum) simp
  have nonneg: "0 \<le> count_status ?m st" for st by (simp add: count_status_def)
  show ?thesis
    using sum nonneg [of StatusFailed] nonneg [of StatusTimeout] nonneg [of StatusCompleted]
    by (simp add: GetExecutionStats_def Let_def counts)
qed

lemma execution_stats_count_witness:
  "Stats_InProgress (GetExecutionStats (Store_StatusStore solo_env) sorted_list_of_set (solo_store True running_fsm))
     = count_status (executionStates (running_fsm :: disk FSM)) StatusInProgress"
proof -
  have "\<forall>i st x. Store_GetExecutionState (solo_store True running_fsm) i = Some st \<longrightarrow> Exec_Status st \<noteq> OtherStatus x"
    by (simp add: running_fsm_def)
  from execution_stats_count [OF range_order_sorted this, of solo_env] show ?thesis
    by (simp add: Let_def)
qed

end
