(* ===== verification/Timing_Wheel.thy ===== *)
theory Timing_Wheel
  imports Go_Prelude
begin

text \<open>
  The hierarchical timing wheel of \<open>internal/slots/timing_wheel.go\<close>. A bucket, a
  \<open>map[int64]struct{}\<close>, is the set of its keys. An operation returns \<open>None\<close> when the Go
  code panics (a division by a zero granularity, an index out of range); the loops take
  the iteration order of the maps they range over as an argument. The loop of \<open>Advance\<close>
  runs on a fuel of one unit per second between the old and the new base, which is
  enough because every turn moves the base by at least one second.
\<close>

section \<open>Configuration and state\<close>

definition DefaultSlotGap :: Duration where "DefaultSlotGap = 10 * Second"

record WheelLevelConfig =
  Granularity :: Duration
  Buckets :: int

definition DefaultWheelConfigs :: "Duration \<Rightarrow> WheelLevelConfig list" where
  "DefaultWheelConfigs slotGap =
     (let slotGap = (if slotGap = 0 then DefaultSlotGap else slotGap)
      in [\<lparr>Granularity = slotGap, Buckets = 360\<rparr>,
          \<lparr>Granularity = mul64 slotGap 360, Buckets = 24\<rparr>,
          \<lparr>Granularity = mul64 (mul64 slotGap 360) 24, Buckets = 365\<rparr>])"

record wheelLevel =
  granularity :: int
  bucketCount :: int
  buckets :: "int set list"
  current :: int

record slotLoc =
  loc_level :: nat
  loc_bucket :: int

record HierarchicalTimingWheel =
  levels :: "wheelLevel list"
  currentBase :: int
  wheelSlotGap :: Duration
  slotLocation :: "(int, slotLoc) fmap"
  overflow :: "int set"
  initialized :: bool

text \<open>\<open>make\<close> of a slice panics on a negative length.\<close>

definition newLevel :: "WheelLevelConfig \<Rightarrow> wheelLevel option" where
  "newLevel cfg =
     (if Buckets cfg < 0 then None
      else Some \<lparr>granularity = seconds64 (Granularity cfg), bucketCount = Buckets cfg,
                 buckets = replicate (nat (Buckets cfg)) {}, current = 0\<rparr>)"

definition NewHierarchicalTimingWheel ::
  "Duration \<Rightarrow> WheelLevelConfig list \<Rightarrow> HierarchicalTimingWheel option" where
  "NewHierarchicalTimingWheel slotGap configs =
     (let configs = (if configs = [] then DefaultWheelConfigs slotGap else configs)
      in map_option (\<lambda>ls. \<lparr>levels = ls, currentBase = 0, wheelSlotGap = slotGap,
             slotLocation = fmempty, overflow = {}, initialized = False\<rparr>)
           (those (map newLevel configs)))"

definition slotGapSeconds :: "HierarchicalTimingWheel \<Rightarrow> int" where
  "slotGapSeconds htw =
     (let g = seconds64 (wheelSlotGap htw) in if g = 0 then seconds64 DefaultSlotGap else g)"

section \<open>Locating a bucket\<close>

text \<open>
  The loop of \<open>findBucket\<close> at level \<open>i\<close>; the outer option is a panic, the inner one the
  result \<open>ok\<close>.
\<close>

fun findBucket_from :: "nat \<Rightarrow> int \<Rightarrow> int \<Rightarrow> wheelLevel list \<Rightarrow> slotLoc option option" where
  "findBucket_from i elapsed delta [] = Some None"
| "findBucket_from i elapsed delta (level # rest) =
     (let levelRange = mul64 (granularity level) (bucketCount level)
      in if delta < levelRange \<or> rest = []
         then do {
           bucketsIntoLevel \<leftarrow> div64 delta (granularity level);
           skipped \<leftarrow> div64 elapsed (granularity level);
           let offset = sub64 bucketsIntoLevel skipped;
           bucket \<leftarrow> mod64 (add64 (current level) offset) (bucketCount level);
           let bucket = max 0 (min bucket (sub64 (bucketCount level) 1));
           Some (Some \<lparr>loc_level = i, loc_bucket = bucket\<rparr>)
         }
         else findBucket_from (Suc i) levelRange delta rest)"

definition findBucket :: "wheelLevel list \<Rightarrow> int \<Rightarrow> slotLoc option option" where
  "findBucket ls delta = findBucket_from 0 0 delta ls"

definition totalCoverage :: "wheelLevel list \<Rightarrow> int" where
  "totalCoverage ls = fold (\<lambda>l total. add64 total (mul64 (granularity l) (bucketCount l))) ls 0"

definition computeSlotTime :: "HierarchicalTimingWheel \<Rightarrow> int \<Rightarrow> int" where
  "computeSlotTime htw slotKey = mul64 slotKey (slotGapSeconds htw)"

text \<open>\<open>htw.levels[loc.level].buckets[loc.bucket]\<close>, changed by \<open>f\<close>.\<close>

definition at_bucket ::
  "(int set \<Rightarrow> int set) \<Rightarrow> slotLoc \<Rightarrow> wheelLevel list \<Rightarrow> wheelLevel list option" where
  "at_bucket f loc ls =
     (let i = loc_level loc; b = loc_bucket loc
      in if i < length ls \<and> 0 \<le> b \<and> nat b < length (buckets (ls ! i))
         then Some (ls[i := (ls ! i)\<lparr>buckets := (buckets (ls ! i))[nat b := f (buckets (ls ! i) ! nat b)]\<rparr>])
         else None)"

text \<open>The offset of a key from the base, not below zero.\<close>

definition slot_delta :: "HierarchicalTimingWheel \<Rightarrow> int \<Rightarrow> int" where
  "slot_delta htw slotKey =
     (let delta = sub64 (computeSlotTime htw slotKey) (currentBase htw) in if delta < 0 then 0 else delta)"

definition place ::
  "int \<Rightarrow> slotLoc \<Rightarrow> HierarchicalTimingWheel \<Rightarrow> HierarchicalTimingWheel option" where
  "place slotKey loc htw =
     map_option (\<lambda>ls. htw\<lparr>levels := ls, slotLocation := fmupd slotKey loc (slotLocation htw)\<rparr>)
       (at_bucket (insert slotKey) loc (levels htw))"

section \<open>Operations\<close>

definition base_of :: "int \<Rightarrow> int \<Rightarrow> int option" where
  "base_of t gap = map_option (\<lambda>q. mul64 q gap) (div64 t gap)"

definition wheel_Init :: "int \<Rightarrow> HierarchicalTimingWheel \<Rightarrow> HierarchicalTimingWheel option" where
  "wheel_Init now htw =
     (if initialized htw then Some htw
      else do {
        base \<leftarrow> base_of now (slotGapSeconds htw);
        Some (htw\<lparr>currentBase := base, initialized := True\<rparr>)
      })"

definition wheel_Add :: "int \<Rightarrow> HierarchicalTimingWheel \<Rightarrow> HierarchicalTimingWheel option" where
  "wheel_Add slotKey htw = do {
     htw \<leftarrow> (if initialized htw then Some htw
             else do {
               base \<leftarrow> base_of (computeSlotTime htw slotKey) (slotGapSeconds htw);
               Some (htw\<lparr>currentBase := base, initialized := True\<rparr>)
             });
     found \<leftarrow> findBucket (levels htw) (slot_delta htw slotKey);
     case found of
       None \<Rightarrow> Some (htw\<lparr>overflow := insert slotKey (overflow htw)\<rparr>)
     | Some loc \<Rightarrow> place slotKey loc htw
   }"

definition wheel_Remove :: "int \<Rightarrow> HierarchicalTimingWheel \<Rightarrow> HierarchicalTimingWheel option" where
  "wheel_Remove slotKey htw =
     (case fmlookup (slotLocation htw) slotKey of
        Some loc \<Rightarrow>
          map_option (\<lambda>ls. htw\<lparr>levels := ls, slotLocation := fmdrop slotKey (slotLocation htw)\<rparr>)
            (at_bucket (\<lambda>b. b - {slotKey}) loc (levels htw))
      | None \<Rightarrow> Some (htw\<lparr>overflow := overflow htw - {slotKey}\<rparr>))"

text \<open>The loop of \<open>cascade\<close> over the keys of the emptied bucket.\<close>

fun cascade_keys :: "nat \<Rightarrow> int list \<Rightarrow> HierarchicalTimingWheel \<Rightarrow> HierarchicalTimingWheel option" where
  "cascade_keys level [] htw = Some htw"
| "cascade_keys level (slotKey # rest) htw = do {
     found \<leftarrow> findBucket (levels htw) (slot_delta htw slotKey);
     htw \<leftarrow> (case found of
               Some loc \<Rightarrow>
                 if loc_level loc < level then place slotKey loc htw
                 else Some (htw\<lparr>overflow := insert slotKey (overflow htw),
                                slotLocation := fmdrop slotKey (slotLocation htw)\<rparr>)
             | None \<Rightarrow> Some (htw\<lparr>overflow := insert slotKey (overflow htw),
                                 slotLocation := fmdrop slotKey (slotLocation htw)\<rparr>));
     cascade_keys level rest htw
   }"

text \<open>
  Empties the current bucket of a level and returns its keys; afterwards the level moves
  on to its next bucket.
\<close>

definition take_bucket ::
  "nat \<Rightarrow> HierarchicalTimingWheel \<Rightarrow> (int set \<times> HierarchicalTimingWheel) option" where
  "take_bucket level htw =
     (if level < length (levels htw) \<and> 0 \<le> current (levels htw ! level) \<and>
         nat (current (levels htw ! level)) < length (buckets (levels htw ! level))
      then let l = levels htw ! level; c = nat (current l)
        in Some (buckets l ! c, htw\<lparr>levels := (levels htw)[level := l\<lparr>buckets := (buckets l)[c := {}]\<rparr>]\<rparr>)
      else None)"

definition step_level :: "nat \<Rightarrow> HierarchicalTimingWheel \<Rightarrow> HierarchicalTimingWheel option" where
  "step_level level htw =
     (let l = levels htw ! level
      in map_option (\<lambda>c. htw\<lparr>levels := (levels htw)[level := l\<lparr>current := c\<rparr>]\<rparr>)
           (mod64 (add64 (current l) 1) (bucketCount l)))"

text \<open>The recursion of \<open>cascade\<close> climbs the levels; \<open>fuel\<close> bounds it by their number.\<close>

fun cascade ::
  "int key_order \<Rightarrow> nat \<Rightarrow> nat \<Rightarrow> HierarchicalTimingWheel \<Rightarrow> HierarchicalTimingWheel option" where
  "cascade order fuel level htw =
     (if length (levels htw) \<le> level then Some htw
      else case fuel of
        0 \<Rightarrow> None
      | Suc fuel' \<Rightarrow> do {
          (bucket, htw) \<leftarrow> take_bucket level htw;
          htw \<leftarrow> cascade_keys level (order bucket) htw;
          htw \<leftarrow> step_level level htw;
          if current (levels htw ! level) = 0 then cascade order fuel' (Suc level) htw else Some htw
        })"

declare cascade.simps [simp del]

text \<open>One turn of the loop of \<open>Advance\<close>.\<close>

definition advance_step ::
  "int key_order \<Rightarrow> int list \<times> HierarchicalTimingWheel \<Rightarrow> (int list \<times> HierarchicalTimingWheel) option" where
  "advance_step order rw = (case rw of (ready, htw) \<Rightarrow> do {
     let htw = htw\<lparr>currentBase := add64 (currentBase htw) (slotGapSeconds htw)\<rparr>;
     (bucket, htw) \<leftarrow> take_bucket 0 htw;
     let htw = htw\<lparr>slotLocation := fmfilter (\<lambda>k. k \<notin> bucket) (slotLocation htw)\<rparr>;
     let ready = ready @ order bucket;
     htw \<leftarrow> step_level 0 htw;
     htw \<leftarrow> (if current (levels htw ! 0) = 0 then cascade order (length (levels htw)) 1 htw else Some htw);
     Some (ready, htw)
   })"

fun advance_loop ::
  "int key_order \<Rightarrow> nat \<Rightarrow> int \<Rightarrow> int list \<times> HierarchicalTimingWheel
     \<Rightarrow> (int list \<times> HierarchicalTimingWheel) option" where
  "advance_loop order fuel newBase rw =
     (if \<not> currentBase (snd rw) < newBase then Some rw
      else case fuel of
        0 \<Rightarrow> None
      | Suc fuel' \<Rightarrow> advance_step order rw \<bind> advance_loop order fuel' newBase)"

declare advance_loop.simps [simp del]

text \<open>The first loop over the overflow: the keys that now fit, and the wheel with them placed.\<close>

fun place_overflow ::
  "int \<Rightarrow> int list \<Rightarrow> int list \<Rightarrow> HierarchicalTimingWheel \<Rightarrow> (int list \<times> HierarchicalTimingWheel) option" where
  "place_overflow deltaMax [] overflowReady htw = Some (overflowReady, htw)"
| "place_overflow deltaMax (slotKey # rest) overflowReady htw =
     (let delta = slot_delta htw slotKey
      in if delta < deltaMax
         then do {
           found \<leftarrow> findBucket (levels htw) delta;
           case found of
             None \<Rightarrow> place_overflow deltaMax rest overflowReady htw
           | Some loc \<Rightarrow> do {
               htw \<leftarrow> place slotKey loc htw;
               place_overflow deltaMax rest (overflowReady @ [slotKey]) htw
             }
         }
         else place_overflow deltaMax rest overflowReady htw)"

definition wheel_Advance ::
  "int key_order \<Rightarrow> int \<Rightarrow> HierarchicalTimingWheel \<Rightarrow> (int list \<times> HierarchicalTimingWheel) option" where
  "wheel_Advance order now htw =
     (if \<not> initialized htw then Some ([], htw)
      else do {
        newBase \<leftarrow> base_of now (slotGapSeconds htw);
        if newBase \<le> currentBase htw then Some ([], htw)
        else do {
          (ready, htw) \<leftarrow> advance_loop order (nat (newBase - currentBase htw)) newBase ([], htw);
          (overflowReady, htw) \<leftarrow>
            place_overflow (totalCoverage (levels htw)) (order (overflow htw)) [] htw;
          let htw = htw\<lparr>overflow := overflow htw - set overflowReady\<rparr>;
          let promote = filter (\<lambda>k. computeSlotTime htw k \<le> newBase) (order (overflow htw));
          Some (ready @ promote,
                htw\<lparr>overflow := overflow htw - set promote,
                    slotLocation := fmfilter (\<lambda>k. k \<notin> set promote) (slotLocation htw)\<rparr>)
        }
      })"

definition GetReadySlots :: "int key_order \<Rightarrow> int \<Rightarrow> HierarchicalTimingWheel \<Rightarrow> int list" where
  "GetReadySlots order now htw =
     (if \<not> initialized htw then []
      else concat (map (\<lambda>level. concat (map (\<lambda>b.
               filter (\<lambda>k. computeSlotTime htw k \<le> now) (order b)) (buckets level))) (levels htw))
           @ filter (\<lambda>k. computeSlotTime htw k \<le> now) (order (overflow htw)))"

text \<open>The fold of a loop \<open>if minTime == -1 || slotTime < minTime\<close> over some keys.\<close>

definition min_time :: "HierarchicalTimingWheel \<Rightarrow> int list \<Rightarrow> int \<Rightarrow> int" where
  "min_time htw keys minTime =
     fold (\<lambda>k m. if m = - 1 \<or> computeSlotTime htw k < m then computeSlotTime htw k else m) keys minTime"

text \<open>The first non-empty bucket of a level, starting at its current one.\<close>

definition first_bucket :: "wheelLevel \<Rightarrow> int set" where
  "first_bucket l =
     (case filter (\<lambda>b. b \<noteq> {}) (map (\<lambda>offset. buckets l ! nat ((current l + int offset) smod bucketCount l))
              [0..<nat (bucketCount l)]) of
        [] \<Rightarrow> {} | b # bs \<Rightarrow> b)"

definition PeekMin :: "int key_order \<Rightarrow> HierarchicalTimingWheel \<Rightarrow> int" where
  "PeekMin order htw =
     (if \<not> initialized htw then - 1
      else min_time htw (order (overflow htw))
             (fold (\<lambda>l m. min_time htw (order (first_bucket l)) m) (levels htw) (- 1)))"

definition wheel_Size :: "HierarchicalTimingWheel \<Rightarrow> int" where
  "wheel_Size htw =
     (\<Sum>level \<leftarrow> levels htw. \<Sum>b \<leftarrow> buckets level. int (card b)) + int (card (overflow htw))"

definition wheel_Reset :: "HierarchicalTimingWheel \<Rightarrow> HierarchicalTimingWheel" where
  "wheel_Reset htw =
     htw\<lparr>levels := map (\<lambda>l. l\<lparr>buckets := map (\<lambda>b. {}) (buckets l), current := 0\<rparr>) (levels htw),
         slotLocation := fmempty, overflow := {}, initialized := False\<rparr>"

end
