(* ===== verification/Wheel_Invariants.thy ===== *)
theory Wheel_Invariants
  imports Timing_Wheel
begin

text \<open>
  The invariant of the timing wheel and its preservation. A wheel is well formed when its
  levels have positive sizes, each level counts in full turns of the level below, and its
  keys are times between 0 and \<open>2 ^ 62\<close> seconds. The timing invariant relates the bucket of
  a key to its time: on the lowest level the distance from the current bucket is the
  distance in time, and on a higher level the bucket is emptied no later than the key is
  due. The parameter \<open>L\<close> of the invariant is the level whose turn is still pending while
  a cascade runs; between operations it is the number of levels.
\<close>

named_theorems wheel_arith \<open>64-bit arithmetic on times below \<open>2 ^ 62\<close>\<close>

abbreviation time_bound :: int where "time_bound \<equiv> 4611686018427387904"

lemma in64_below [simp]: "0 \<le> x \<Longrightarrow> x < time_bound \<Longrightarrow> in64 x"
  by (simp add: in64_def)

lemma sub64_below [wheel_arith]:
  "0 \<le> a \<Longrightarrow> a < time_bound \<Longrightarrow> 0 \<le> b \<Longrightarrow> b < time_bound \<Longrightarrow> sub64 a b = a - b"
  by (simp add: sub64_def in64_def)

lemma add64_below [wheel_arith]:
  "0 \<le> a \<Longrightarrow> a < time_bound \<Longrightarrow> 0 \<le> b \<Longrightarrow> b < time_bound \<Longrightarrow> add64 a b = a + b"
  by (simp add: add64_def in64_def)

section \<open>Well-formed levels\<close>

definition level_ok :: "wheelLevel \<Rightarrow> bool" where
  "level_ok l \<longleftrightarrow>
     0 < granularity l \<and> 0 < bucketCount l \<and> granularity l * bucketCount l < time_bound \<and>
     length (buckets l) = nat (bucketCount l) \<and> 0 \<le> current l \<and> current l < bucketCount l \<and>
     (\<forall>b \<in> set (buckets l). finite b)"

definition levels_ok :: "int \<Rightarrow> wheelLevel list \<Rightarrow> bool" where
  "levels_ok g ls \<longleftrightarrow>
     2 \<le> length ls \<and> (\<forall>l \<in> set ls. level_ok l) \<and> granularity (ls ! 0) = g \<and>
     (\<forall>i. Suc i < length ls \<longrightarrow> granularity (ls ! Suc i) = granularity (ls ! i) * bucketCount (ls ! i))"

lemma levels_okD:
  assumes "levels_ok g ls" "i < length ls"
  shows "0 < granularity (ls ! i)" "0 < bucketCount (ls ! i)"
    "granularity (ls ! i) * bucketCount (ls ! i) < time_bound"
    "length (buckets (ls ! i)) = nat (bucketCount (ls ! i))"
    "0 \<le> current (ls ! i)" "current (ls ! i) < bucketCount (ls ! i)"
    "\<And>b. b \<in> set (buckets (ls ! i)) \<Longrightarrow> finite b"
  using assms nth_mem [OF assms(2)] by (auto simp: levels_ok_def level_ok_def)

lemma levels_ok_gap: "levels_ok g ls \<Longrightarrow> 0 < g"
  using levels_okD(1) [of g ls 0] by (cases ls) (auto simp: levels_ok_def)

lemma level_bounds:
  assumes "levels_ok g ls" "i < length ls"
  shows "granularity (ls ! i) < time_bound" "bucketCount (ls ! i) < time_bound"
proof -
  note D = levels_okD [OF assms]
  have "granularity (ls ! i) * 1 \<le> granularity (ls ! i) * bucketCount (ls ! i)"
    using D(1,2) by (intro mult_left_mono) auto
  then show "granularity (ls ! i) < time_bound" using D(3) by simp
  have "1 * bucketCount (ls ! i) \<le> granularity (ls ! i) * bucketCount (ls ! i)"
    using D(1,2) by (intro mult_right_mono) auto
  then show "bucketCount (ls ! i) < time_bound" using D(3) by simp
qed

text \<open>Two lists of levels with the same sizes and positions, whatever their buckets hold.\<close>

definition same_frame :: "wheelLevel list \<Rightarrow> wheelLevel list \<Rightarrow> bool" where
  "same_frame ls ls' \<longleftrightarrow> length ls' = length ls \<and>
     (\<forall>i < length ls. granularity (ls' ! i) = granularity (ls ! i) \<and>
        bucketCount (ls' ! i) = bucketCount (ls ! i) \<and> current (ls' ! i) = current (ls ! i) \<and>
        length (buckets (ls' ! i)) = length (buckets (ls ! i)))"

lemma same_frame_refl [simp]: "same_frame ls ls"
  by (simp add: same_frame_def)

lemma same_frame_trans: "same_frame a b \<Longrightarrow> same_frame b c \<Longrightarrow> same_frame a c"
  by (simp add: same_frame_def)

lemma levels_ok_frame:
  assumes "levels_ok g ls" "same_frame ls ls'"
    and "\<And>i b. i < length ls' \<Longrightarrow> b \<in> set (buckets (ls' ! i)) \<Longrightarrow> finite b"
  shows "levels_ok g ls'"
proof -
  have "level_ok (ls' ! i)" if "i < length ls'" for i
    using levels_okD [OF assms(1), of i] assms(2,3) that by (simp add: same_frame_def level_ok_def)
  then have "\<forall>l \<in> set ls'. level_ok l" by (metis in_set_conv_nth)
  moreover have "2 \<le> length ls'" using assms(1,2) by (simp add: levels_ok_def same_frame_def)
  moreover have "0 < length ls" using assms(1) by (auto simp: levels_ok_def)
  ultimately show ?thesis
    using assms(1,2) by (simp add: levels_ok_def same_frame_def)
qed

section \<open>Where \<open>findBucket\<close> puts a key\<close>

lemma findBucket_from_spec:
  assumes "\<forall>l \<in> set ls. level_ok l" "ls \<noteq> []" "0 \<le> delta" "delta < time_bound"
    and "\<And>i. Suc i < length ls \<Longrightarrow> granularity (ls ! Suc i) = granularity (ls ! i) * bucketCount (ls ! i)"
    and "elapsed = (if n = 0 then 0 else granularity (hd ls))"
    and "n \<noteq> 0 \<Longrightarrow> granularity (hd ls) \<le> delta"
  shows "\<exists>j < length ls.
     findBucket_from n elapsed delta ls = Some (Some \<lparr>loc_level = n + j,
       loc_bucket = (current (ls ! j) + (delta div granularity (ls ! j) - (if n + j = 0 then 0 else 1)))
          mod bucketCount (ls ! j)\<rparr>) \<and>
     (n + j \<noteq> 0 \<longrightarrow> granularity (ls ! j) \<le> delta) \<and>
     (delta < granularity (ls ! j) * bucketCount (ls ! j) \<or> Suc j = length ls)"
  using assms
proof (induction n elapsed delta ls rule: findBucket_from.induct)
  case (1 i elapsed delta)
  then show ?case by simp
next
  case (2 n elapsed delta l rest)
  have l: "level_ok l" using "2.prems"(1) by simp
  then have pos: "0 < granularity l" "0 < bucketCount l" "0 \<le> current l" "current l < bucketCount l"
    and R: "granularity l * bucketCount l < time_bound"
    by (auto simp: level_ok_def)
  have lb: "granularity l \<le> granularity l * bucketCount l" "bucketCount l \<le> granularity l * bucketCount l"
    using pos by (simp_all add: mult_le_cancel_left mult_le_cancel_right)
  have cb: "current l < time_bound" "bucketCount l < time_bound" using lb R pos by linarith+
  have mul: "mul64 (granularity l) (bucketCount l) = granularity l * bucketCount l"
    using pos R by (simp add: mul64_def)
  show ?case
  proof (cases "delta < granularity l * bucketCount l \<or> rest = []")
    case True
    let ?e = "if n = 0 then 0 else 1 :: int"
    let ?o = "delta div granularity l - ?e"
    have e: "div64 elapsed (granularity l) = Some ?e"
    proof -
      have "granularity l < time_bound" using lb(1) R by linarith
      then have "div64 (granularity l) (granularity l) = Some 1"
        using pos(1) by (subst div64_nonneg) simp_all
      then show ?thesis using "2.prems"(6) pos(1) by (simp add: div64_def)
    qed
    have d: "div64 delta (granularity l) = Some (delta div granularity l)"
      using "2.prems"(3,4) pos by (simp add: div64_nonneg)
    have q: "0 \<le> delta div granularity l" "delta div granularity l \<le> delta"
      using "2.prems"(3) pos by (simp_all add: pos_imp_zdiv_nonneg_iff div_le_self)
    have o: "0 \<le> ?o"
    proof (cases "n = 0")
      case False
      then have "granularity l div granularity l \<le> delta div granularity l"
        using "2.prems"(7) pos by (intro zdiv_mono1) simp_all
      then show ?thesis using pos by simp
    qed (use q in simp)
    have s: "sub64 (delta div granularity l) ?e = ?o"
      using q "2.prems"(4) by (simp add: sub64_below split: if_splits)
    have a: "add64 (current l) ?o = current l + ?o"
      using q o "2.prems"(4) pos cb by (intro add64_below) (auto split: if_splits)
    have m: "mod64 (current l + ?o) (bucketCount l) = Some ((current l + ?o) mod bucketCount l)"
      using o pos by (intro mod64_nonneg) simp_all
    have c: "sub64 (bucketCount l) 1 = bucketCount l - 1"
      using pos cb by (intro sub64_below) auto
    have r: "0 \<le> (current l + ?o) mod bucketCount l" "(current l + ?o) mod bucketCount l \<le> bucketCount l - 1"
      using pos(2) pos_mod_bound [OF pos(2)] by (simp_all add: zle_diff1_eq)
    have "findBucket_from n elapsed delta (l # rest) = Some (Some \<lparr>loc_level = n,
        loc_bucket = (current l + ?o) mod bucketCount l\<rparr>)"
      using True mul e d s a m c r by (auto simp: Let_def)
    then show ?thesis using True "2.prems"(7) by (intro exI [of _ 0]) auto
  next
    case False
    then have ne: "rest \<noteq> []" and ge: "granularity l * bucketCount l \<le> delta" by auto
    then have hd: "granularity (hd rest) = granularity l * bucketCount l"
      using "2.prems"(5) [of 0] by (simp add: hd_conv_nth)
    have step: "findBucket_from n elapsed delta (l # rest)
        = findBucket_from (Suc n) (granularity l * bucketCount l) delta rest"
      using False mul by (auto simp: Let_def)
    have cont: "granularity (rest ! Suc i) = granularity (rest ! i) * bucketCount (rest ! i)"
      if "Suc i < length rest" for i
      using "2.prems"(5) [of "Suc i"] that by simp
    have "\<exists>j < length rest. findBucket_from (Suc n) (granularity l * bucketCount l) delta rest =
       Some (Some \<lparr>loc_level = Suc n + j,
         loc_bucket = (current (rest ! j) + (delta div granularity (rest ! j) - (if Suc n + j = 0 then 0 else 1)))
            mod bucketCount (rest ! j)\<rparr>) \<and>
       (Suc n + j \<noteq> 0 \<longrightarrow> granularity (rest ! j) \<le> delta) \<and>
       (delta < granularity (rest ! j) * bucketCount (rest ! j) \<or> Suc j = length rest)"
      using "2.IH" [OF refl _ _ ne "2.prems"(3,4) cont] False mul hd ge "2.prems"(1) by simp
    then obtain j where j: "j < length rest" "findBucket_from (Suc n) (granularity l * bucketCount l) delta rest =
       Some (Some \<lparr>loc_level = Suc n + j,
         loc_bucket = (current (rest ! j) + (delta div granularity (rest ! j) - 1)) mod bucketCount (rest ! j)\<rparr>)"
       "granularity (rest ! j) \<le> delta"
       "delta < granularity (rest ! j) * bucketCount (rest ! j) \<or> Suc j = length rest"
      by auto
    then show ?thesis unfolding step by (intro exI [of _ "Suc j"]) auto
  qed
qed

lemma findBucket_spec:
  assumes "levels_ok g ls" "0 \<le> delta" "delta < time_bound"
  obtains j where "j < length ls"
    "findBucket ls delta = Some (Some \<lparr>loc_level = j,
       loc_bucket = (current (ls ! j) + (delta div granularity (ls ! j) - (if j = 0 then 0 else 1)))
          mod bucketCount (ls ! j)\<rparr>)"
    "j \<noteq> 0 \<Longrightarrow> granularity (ls ! j) \<le> delta"
    "j = 0 \<Longrightarrow> delta < g * bucketCount (ls ! 0)"
proof -
  have ok: "\<forall>l \<in> set ls. level_ok l" "2 \<le> length ls" "granularity (ls ! 0) = g"
    "\<And>i. Suc i < length ls \<Longrightarrow> granularity (ls ! Suc i) = granularity (ls ! i) * bucketCount (ls ! i)"
    using assms(1) by (auto simp: levels_ok_def)
  have "ls \<noteq> []" using ok(2) by auto
  from findBucket_from_spec [OF ok(1) this assms(2,3) ok(4), of 0 0] that ok(2,3) show ?thesis
    unfolding findBucket_def by fastforce
qed

section \<open>Timing\<close>

text \<open>Distance of a bucket from the current one of its level.\<close>

definition bdist :: "wheelLevel \<Rightarrow> nat \<Rightarrow> int" where
  "bdist l b = (int b - current l) mod bucketCount l"

text \<open>The time that passes on a level until its turn ends, not counting the running bucket.\<close>

definition slack :: "wheelLevel \<Rightarrow> int" where
  "slack l = (bucketCount l - 1 - current l) * granularity l"

text \<open>The base at which the current bucket of level \<open>j\<close> is emptied.\<close>

definition due :: "int \<Rightarrow> int \<Rightarrow> nat \<Rightarrow> wheelLevel list \<Rightarrow> nat \<Rightarrow> int" where
  "due g B L ls j =
     (if j < L then B + g + (\<Sum>i<j. slack (ls ! i)) else B + (\<Sum>i=L..<j. slack (ls ! i)))"

definition slot_ok :: "int \<Rightarrow> int \<Rightarrow> nat \<Rightarrow> wheelLevel list \<Rightarrow> nat \<Rightarrow> nat \<Rightarrow> int \<Rightarrow> bool" where
  "slot_ok g B L ls j b k \<longleftrightarrow>
     (if j = 0 then max B (k * g) = B + bdist (ls ! 0) b * g
      else due g B L ls j + bdist (ls ! j) b * granularity (ls ! j) \<le> k * g)"

definition timing :: "int \<Rightarrow> int \<Rightarrow> nat \<Rightarrow> wheelLevel list \<Rightarrow> bool" where
  "timing g B L ls \<longleftrightarrow>
     (\<forall>j b k. j < length ls \<longrightarrow> b < length (buckets (ls ! j)) \<longrightarrow> k \<in> buckets (ls ! j) ! b \<longrightarrow>
        slot_ok g B L ls j b k)"

lemma slack_sum_le:
  assumes "levels_ok g ls" "j < length ls"
  shows "(\<Sum>i<j. slack (ls ! i)) \<le> granularity (ls ! j) - g"
    and "(\<And>i. i < j \<Longrightarrow> current (ls ! i) = 0) \<Longrightarrow> (\<Sum>i<j. slack (ls ! i)) = granularity (ls ! j) - g"
proof -
  have "(\<Sum>i<j. slack (ls ! i)) \<le> granularity (ls ! j) - g \<and>
     ((\<forall>i<j. current (ls ! i) = 0) \<longrightarrow> (\<Sum>i<j. slack (ls ! i)) = granularity (ls ! j) - g)"
    using assms(2)
  proof (induction j)
    case 0
    then show ?case using assms(1) by (simp add: levels_ok_def)
  next
    case (Suc j)
    have D: "0 < granularity (ls ! j)" "0 \<le> current (ls ! j)"
      using levels_okD [OF assms(1), of j] Suc.prems by auto
    have next_gran: "granularity (ls ! Suc j) = granularity (ls ! j) * bucketCount (ls ! j)"
      using assms(1) Suc.prems by (simp add: levels_ok_def)
    have "slack (ls ! j) \<le> (bucketCount (ls ! j) - 1) * granularity (ls ! j)"
      unfolding slack_def using D by (intro mult_right_mono) auto
    with Suc next_gran show ?case by (auto simp: slack_def algebra_simps)
  qed
  then show "(\<Sum>i<j. slack (ls ! i)) \<le> granularity (ls ! j) - g"
    and "(\<And>i. i < j \<Longrightarrow> current (ls ! i) = 0) \<Longrightarrow> (\<Sum>i<j. slack (ls ! i)) = granularity (ls ! j) - g"
    by blast+
qed

lemma bdist_at:
  assumes "levels_ok g ls" "j < length ls"
  shows "bdist (ls ! j) (nat ((current (ls ! j) + x) mod bucketCount (ls ! j))) = x mod bucketCount (ls ! j)"
  using levels_okD(2) [OF assms]
  by (simp add: bdist_def mod_diff_left_eq)

text \<open>The bucket that \<open>findBucket\<close> chooses keeps the timing.\<close>

lemma findBucket_timed:
  assumes "levels_ok g ls" "0 \<le> B" "B < time_bound" "0 \<le> k * g" "k * g < time_bound" "g dvd B"
    and "L \<le> length ls"
  obtains j b where "findBucket ls (max 0 (k * g - B)) = Some (Some \<lparr>loc_level = j, loc_bucket = int b\<rparr>)"
    "j < length ls" "b < length (buckets (ls ! j))" "j < L \<Longrightarrow> slot_ok g B L ls j b k"
proof -
  let ?d = "max 0 (k * g - B)"
  have "0 \<le> ?d" "?d < time_bound" using assms by auto
  then obtain j where j: "j < length ls"
    "findBucket ls ?d = Some (Some \<lparr>loc_level = j,
       loc_bucket = (current (ls ! j) + (?d div granularity (ls ! j) - (if j = 0 then 0 else 1)))
          mod bucketCount (ls ! j)\<rparr>)"
    "j \<noteq> 0 \<Longrightarrow> granularity (ls ! j) \<le> ?d" "j = 0 \<Longrightarrow> ?d < g * bucketCount (ls ! 0)"
    using findBucket_spec [OF assms(1)] by blast
  define x where "x = ?d div granularity (ls ! j) - (if j = 0 then 0 else 1)"
  define b where "b = nat ((current (ls ! j) + x) mod bucketCount (ls ! j))"
  note D = levels_okD [OF assms(1) j(1)]
  have b: "int b = (current (ls ! j) + x) mod bucketCount (ls ! j)" using D(2) by (simp add: b_def)
  have "b < length (buckets (ls ! j))" using D(2,4) by (simp add: b_def nat_less_iff)
  moreover have "slot_ok g B L ls j b k" if "j < L"
  proof (cases "j = 0")
    case True
    have g: "granularity (ls ! 0) = g" "0 < g"
      using assms(1) levels_ok_gap by (auto simp: levels_ok_def)
    have dv: "g dvd ?d" using assms(6) by (simp add: max_def)
    have x: "x = ?d div g" using True g(1) by (simp add: x_def)
    obtain e where e: "?d = g * e" using dv by blast
    then have "?d div g < bucketCount (ls ! 0)"
      using j(4) [OF True] g(2) by (simp only: e) simp
    moreover have "0 \<le> ?d div g" using g(2) by (simp add: pos_imp_zdiv_nonneg_iff)
    ultimately have "bdist (ls ! 0) b = ?d div g"
      using bdist_at [OF assms(1) j(1), of x] True x by (simp add: b_def)
    moreover have "?d div g * g = ?d" using dv by simp
    ultimately show ?thesis using True by (simp add: slot_ok_def max_def)
  next
    case False
    let ?G = "granularity (ls ! j)"
    have ge: "?G \<le> ?d" using j(3) False by simp
    then have kd: "k * g = B + ?d" using D(1) by (simp add: max_def split: if_splits)
    have "1 \<le> ?d div ?G" using ge D(1) by (metis div_self less_irrefl zdiv_mono1)
    then have "0 \<le> x" using False by (simp add: x_def)
    then have "bdist (ls ! j) b \<le> x"
      using bdist_at [OF assms(1) j(1), of x] D(2) by (simp add: b_def zmod_le_nonneg_dividend)
    then have "bdist (ls ! j) b * ?G \<le> x * ?G" using D(1) by (intro mult_right_mono) auto
    also have "x * ?G \<le> ?d - ?G"
      using False D(1) by (simp add: x_def left_diff_distrib) (metis div_mult_mod_eq le_add_same_cancel1 pos_mod_sign)
    finally have "bdist (ls ! j) b * ?G \<le> ?d - ?G" .
    moreover have "due g B L ls j \<le> B + ?G"
      using slack_sum_le(1) [OF assms(1) j(1)] that by (simp add: due_def)
    ultimately show ?thesis using False kd by (simp add: slot_ok_def)
  qed
  moreover have "findBucket ls ?d = Some (Some \<lparr>loc_level = j, loc_bucket = int b\<rparr>)"
    using j(2) unfolding b x_def .
  ultimately show ?thesis using that j(1) by blast
qed

section \<open>Keys of a wheel\<close>

definition member :: "wheelLevel list \<Rightarrow> nat \<Rightarrow> nat \<Rightarrow> int \<Rightarrow> bool" where
  "member ls j b k \<longleftrightarrow> j < length ls \<and> b < length (buckets (ls ! j)) \<and> k \<in> buckets (ls ! j) ! b"

definition keys_in :: "wheelLevel list \<Rightarrow> int set" where
  "keys_in ls = {k. \<exists>j b. member ls j b k}"

text \<open>The keys a wheel holds, in a bucket or in the overflow.\<close>

definition held :: "HierarchicalTimingWheel \<Rightarrow> int set" where
  "held w = keys_in (levels w) \<union> overflow w"

lemma timing_member: "timing g B L ls \<longleftrightarrow> (\<forall>j b k. member ls j b k \<longrightarrow> slot_ok g B L ls j b k)"
  by (auto simp: timing_def member_def)

definition put :: "(int set \<Rightarrow> int set) \<Rightarrow> nat \<Rightarrow> nat \<Rightarrow> wheelLevel list \<Rightarrow> wheelLevel list" where
  "put f j b ls = ls[j := (ls ! j)\<lparr>buckets := (buckets (ls ! j))[b := f (buckets (ls ! j) ! b)]\<rparr>]"

lemma at_bucket_put:
  assumes "j < length ls" "b < length (buckets (ls ! j))"
  shows "at_bucket f \<lparr>loc_level = j, loc_bucket = int b\<rparr> ls = Some (put f j b ls)"
  using assms by (simp add: at_bucket_def put_def)

lemma put_frame [simp]: "j < length ls \<Longrightarrow> same_frame ls (put f j b ls)"
  by (auto simp: same_frame_def put_def nth_list_update)

lemma length_put [simp]: "length (put f j b ls) = length ls"
  by (simp add: put_def)

lemma member_put:
  assumes "j < length ls" "b < length (buckets (ls ! j))"
  shows "member (put f j b ls) i x k \<longleftrightarrow>
     (if i = j \<and> x = b then k \<in> f (buckets (ls ! j) ! b) else member ls i x k)"
  using assms by (auto simp: member_def put_def nth_list_update)

lemma levels_ok_put:
  assumes "levels_ok g ls" "j < length ls" "b < length (buckets (ls ! j))" "\<And>S. finite S \<Longrightarrow> finite (f S)"
  shows "levels_ok g (put f j b ls)"
proof (rule levels_ok_frame [OF assms(1) put_frame [OF assms(2)]])
  fix i S assume i: "i < length (put f j b ls)" "S \<in> set (buckets (put f j b ls ! i))"
  note fin = levels_okD(7) [OF assms(1)]
  show "finite S"
  proof (cases "i = j")
    case True
    then have "S \<in> set ((buckets (ls ! j))[b := f (buckets (ls ! j) ! b)])"
      using i(2) assms(2) by (simp add: put_def)
    then show ?thesis
      using set_update_subset_insert [of "buckets (ls ! j)" b "f (buckets (ls ! j) ! b)"]
        fin [OF assms(2)] assms(4) nth_mem [OF assms(3)] by blast
  next
    case False
    then show ?thesis using i fin by (simp add: put_def)
  qed
qed

lemma slot_ok_frame:
  assumes "same_frame ls ls'" "j < length ls"
  shows "slot_ok g B L ls' j b k = slot_ok g B L ls j b k"
proof -
  have "slack (ls' ! i) = slack (ls ! i)" if "i < length ls" for i
    using assms(1) that by (simp add: same_frame_def slack_def)
  then have "due g B L ls' j = due g B L ls j"
    using assms(2) by (auto simp: due_def intro!: sum.cong)
  moreover have "bdist (ls' ! i) b = bdist (ls ! i) b" if "i < length ls" for i
    using assms(1) that by (simp add: same_frame_def bdist_def)
  ultimately show ?thesis
    using assms by (cases "ls = []") (auto simp: slot_ok_def same_frame_def)
qed

lemma timing_put_insert:
  assumes "timing g B L ls" "j < length ls" "b < length (buckets (ls ! j))" "slot_ok g B L ls j b k"
  shows "timing g B L (put (insert k) j b ls)"
  unfolding timing_member
proof (intro allI impI)
  fix i x q assume m: "member (put (insert k) j b ls) i x q"
  then have i: "i < length ls" by (simp add: member_def)
  have "member ls i x q \<or> (i = j \<and> x = b \<and> q = k)"
    using m assms(2,3) by (auto simp: member_put member_def [of ls j] split: if_splits)
  then have "slot_ok g B L ls i x q" using assms(1,4) by (auto simp: timing_member)
  then show "slot_ok g B L (put (insert k) j b ls) i x q"
    by (simp add: slot_ok_frame [OF put_frame [OF assms(2)] i])
qed

lemma timing_put_shrink:
  assumes "timing g B L ls" "j < length ls" "b < length (buckets (ls ! j))" "\<And>S. f S \<subseteq> S"
  shows "timing g B L (put f j b ls)"
  unfolding timing_member
proof (intro allI impI)
  fix i x q assume m: "member (put f j b ls) i x q"
  then have i: "i < length ls" by (simp add: member_def)
  have "member ls i x q"
    using m assms(2-4) by (auto simp: member_put member_def [of ls j] split: if_splits)
  then have "slot_ok g B L ls i x q" using assms(1) by (auto simp: timing_member)
  then show "slot_ok g B L (put f j b ls) i x q"
    by (simp add: slot_ok_frame [OF put_frame [OF assms(2)] i])
qed

lemma keys_in_put_insert:
  assumes "j < length ls" "b < length (buckets (ls ! j))"
  shows "keys_in (put (insert k) j b ls) = insert k (keys_in ls)"
  using assms by (auto simp: keys_in_def member_put) (auto simp: member_def)

section \<open>The invariant\<close>

definition loc_ok :: "wheelLevel list \<Rightarrow> slotLoc \<Rightarrow> bool" where
  "loc_ok ls loc \<longleftrightarrow> loc_level loc < length ls \<and> 0 \<le> loc_bucket loc \<and>
     nat (loc_bucket loc) < length (buckets (ls ! loc_level loc))"

text \<open>Keys are multiples of the gap in the range of times.\<close>

definition key_ok :: "int \<Rightarrow> int \<Rightarrow> bool" where
  "key_ok g k \<longleftrightarrow> 0 \<le> k \<and> k * g < time_bound"

definition wheel_frame_ok :: "HierarchicalTimingWheel \<Rightarrow> bool" where
  "wheel_frame_ok w \<longleftrightarrow>
     levels_ok (slotGapSeconds w) (levels w) \<and>
     0 \<le> currentBase w \<and> currentBase w < time_bound \<and> slotGapSeconds w dvd currentBase w \<and>
     finite (overflow w) \<and> (\<forall>k \<in> held w. key_ok (slotGapSeconds w) k) \<and>
     (\<forall>k loc. fmlookup (slotLocation w) k = Some loc \<longrightarrow> loc_ok (levels w) loc)"

definition wheel_inv :: "nat \<Rightarrow> HierarchicalTimingWheel \<Rightarrow> bool" where
  "wheel_inv L w \<longleftrightarrow> wheel_frame_ok w \<and> timing (slotGapSeconds w) (currentBase w) L (levels w)"

abbreviation wheel_ok :: "HierarchicalTimingWheel \<Rightarrow> bool" where
  "wheel_ok w \<equiv> wheel_inv (length (levels w)) w"

lemma loc_ok_frame: "same_frame ls ls' \<Longrightarrow> loc_ok ls' loc = loc_ok ls loc"
  by (auto simp: loc_ok_def same_frame_def)

lemma gap_update [simp]:
  "slotGapSeconds (w\<lparr>levels := ls\<rparr>) = slotGapSeconds w"
  "slotGapSeconds (w\<lparr>slotLocation := m\<rparr>) = slotGapSeconds w"
  "slotGapSeconds (w\<lparr>overflow := v\<rparr>) = slotGapSeconds w"
  "slotGapSeconds (w\<lparr>currentBase := b\<rparr>) = slotGapSeconds w"
  "slotGapSeconds (w\<lparr>initialized := i\<rparr>) = slotGapSeconds w"
  by (simp_all add: slotGapSeconds_def)

lemma slot_delta_ok:
  assumes "key_ok (slotGapSeconds w) k" "0 \<le> currentBase w" "currentBase w < time_bound" "0 < slotGapSeconds w"
  shows "slot_delta w k = max 0 (k * slotGapSeconds w - currentBase w)"
    "computeSlotTime w k = k * slotGapSeconds w"
proof -
  have "0 \<le> k * slotGapSeconds w" "k * slotGapSeconds w < time_bound"
    using assms by (simp_all add: key_ok_def)
  then show "slot_delta w k = max 0 (k * slotGapSeconds w - currentBase w)"
    "computeSlotTime w k = k * slotGapSeconds w"
    using assms(2,3) by (simp_all add: slot_delta_def computeSlotTime_def mul64_def sub64_below Let_def)
qed

lemma place_ok:
  assumes "wheel_frame_ok w" "key_ok (slotGapSeconds w) k" "j < length (levels w)" "b < length (buckets (levels w ! j))"
  defines "w' \<equiv> w\<lparr>levels := put (insert k) j b (levels w),
      slotLocation := fmupd k \<lparr>loc_level = j, loc_bucket = int b\<rparr> (slotLocation w)\<rparr>"
  shows "place k \<lparr>loc_level = j, loc_bucket = int b\<rparr> w = Some w'" "wheel_frame_ok w'"
    "held w' = insert k (held w)"
proof -
  show "place k \<lparr>loc_level = j, loc_bucket = int b\<rparr> w = Some w'"
    by (simp add: place_def at_bucket_put [OF assms(3,4)] w'_def)
  show held: "held w' = insert k (held w)"
    by (simp add: w'_def held_def keys_in_put_insert [OF assms(3,4)])
  have frame: "same_frame (levels w) (levels w')" using assms(3) by (simp add: w'_def)
  have "loc_ok (levels w') loc" if "fmlookup (slotLocation w') q = Some loc" for q loc
  proof (cases "q = k")
    case True
    with that have "loc = \<lparr>loc_level = j, loc_bucket = int b\<rparr>" by (simp add: w'_def)
    then have "loc_ok (levels w) loc" using assms(3,4) by (simp add: loc_ok_def)
    then show ?thesis by (simp add: loc_ok_frame [OF frame])
  next
    case False
    with that have "fmlookup (slotLocation w) q = Some loc" by (simp add: w'_def)
    then have "loc_ok (levels w) loc" using assms(1) by (simp add: wheel_frame_ok_def)
    then show ?thesis by (simp add: loc_ok_frame [OF frame])
  qed
  moreover have "levels_ok (slotGapSeconds w') (levels w')"
    using assms(1,3,4) by (simp add: w'_def wheel_frame_ok_def levels_ok_put)
  ultimately show "wheel_frame_ok w'"
    using assms(1,2) held by (simp add: wheel_frame_ok_def w'_def)
qed

section \<open>Locations\<close>

text \<open>
  The map \<open>slotLocation\<close> gives the one bucket of every key outside a set \<open>X\<close> of keys in
  transit; the keys of the overflow have no location, the keys in transit are in no
  bucket.
\<close>

definition located :: "int set \<Rightarrow> HierarchicalTimingWheel \<Rightarrow> bool" where
  "located X w \<longleftrightarrow>
     (\<forall>k j b. k \<notin> X \<longrightarrow>
        (fmlookup (slotLocation w) k = Some \<lparr>loc_level = j, loc_bucket = int b\<rparr> \<longleftrightarrow> member (levels w) j b k)) \<and>
     (\<forall>k \<in> overflow w. k \<notin> X \<longrightarrow> fmlookup (slotLocation w) k = None) \<and> X \<inter> held w = {}"

lemma member_held: "member (levels w) j b k \<Longrightarrow> k \<in> held w"
  by (auto simp: held_def keys_in_def)

lemma transit_nowhere:
  assumes "located X w" "k \<in> X"
  shows "\<not> member (levels w) j b k" "k \<notin> overflow w" "k \<notin> held w"
proof -
  show h: "k \<notin> held w" using assms by (auto simp: located_def)
  then show "\<not> member (levels w) j b k" using member_held by blast
  show "k \<notin> overflow w" using h by (simp add: held_def)
qed

lemma located_place:
  assumes "located X w" "j < length (levels w)" "b < length (buckets (levels w ! j))" "k \<notin> held w"
  shows "located (X - {k}) (w\<lparr>levels := put (insert k) j b (levels w),
      slotLocation := fmupd k \<lparr>loc_level = j, loc_bucket = int b\<rparr> (slotLocation w)\<rparr>)"
proof -
  have none: "\<not> member (levels w) i x k" for i x using assms(4) by (auto simp: held_def keys_in_def)
  have mem: "member (put (insert k) j b (levels w)) i x q \<longleftrightarrow>
      (if q = k then i = j \<and> x = b else member (levels w) i x q)" for i x q
    using assms(2,3) none by (auto simp: member_put) (auto simp: member_def)
  have over: "k \<notin> overflow w" using assms(4) by (simp add: held_def)
  show ?thesis
    using assms(1) over unfolding located_def held_def keys_in_put_insert [OF assms(2,3)]
    by (auto simp: mem keys_in_put_insert [OF assms(2,3)])
qed

lemma located_overflow:
  assumes "located X w" "k \<in> X"
  shows "located (X - {k}) (w\<lparr>overflow := insert k (overflow w), slotLocation := fmdrop k (slotLocation w)\<rparr>)"
proof -
  note transit_nowhere [OF assms]
  then show ?thesis using assms unfolding located_def held_def by auto
qed

lemma located_unique:
  assumes "located X w" "member (levels w) j b k" "member (levels w) j' b' k"
  shows "j' = j" "b' = b"
proof -
  have "k \<notin> X" using transit_nowhere(1) [OF assms(1)] assms(2) by blast
  then have "fmlookup (slotLocation w) k = Some \<lparr>loc_level = j, loc_bucket = int b\<rparr>"
    "fmlookup (slotLocation w) k = Some \<lparr>loc_level = j', loc_bucket = int b'\<rparr>"
    using assms by (simp_all add: located_def)
  then show "j' = j" "b' = b" by simp_all
qed

lemma located_overflow_disjoint:
  assumes "located X w" "k \<in> overflow w"
  shows "\<not> member (levels w) j b k"
proof
  assume m: "member (levels w) j b k"
  have "k \<notin> X" using transit_nowhere(2) [OF assms(1)] assms(2) by blast
  then show False using assms m by (auto simp: located_def)
qed

lemma located_take:
  assumes "located {} w" "j < length (levels w)" "b < length (buckets (levels w ! j))"
  shows "located (buckets (levels w ! j) ! b) (w\<lparr>levels := put (\<lambda>_. {}) j b (levels w)\<rparr>)"
proof -
  let ?S = "buckets (levels w ! j) ! b"
  have m: "member (levels w) j b k" if "k \<in> ?S" for k using that assms(2,3) by (simp add: member_def)
  have mem: "member (put (\<lambda>_. {}) j b (levels w)) i x k \<longleftrightarrow> member (levels w) i x k \<and> \<not> (i = j \<and> x = b)" for i x k
    using assms(2,3) by (simp add: member_put)
  have "?S \<inter> held (w\<lparr>levels := put (\<lambda>_. {}) j b (levels w)\<rparr>) = {}"
    using located_unique [OF assms(1) m] located_overflow_disjoint [OF assms(1)] m
    by (fastforce simp: held_def keys_in_def mem)
  moreover have "member (levels w) j b k \<longleftrightarrow> k \<in> ?S" for k using assms(2,3) by (simp add: member_def)
  ultimately show ?thesis using assms(1) unfolding located_def by (auto simp: mem)
qed

lemma located_forget:
  assumes "located S w"
  shows "located {} (w\<lparr>slotLocation := fmfilter (\<lambda>k. k \<notin> S) (slotLocation w)\<rparr>)"
proof -
  note transit_nowhere [OF assms]
  then show ?thesis using assms unfolding located_def by (auto simp: held_def)
qed

section \<open>Turning a level\<close>

text \<open>What an operation inside a turn leaves alone.\<close>

definition same_clock :: "HierarchicalTimingWheel \<Rightarrow> HierarchicalTimingWheel \<Rightarrow> bool" where
  "same_clock w w' \<longleftrightarrow> currentBase w' = currentBase w \<and> slotGapSeconds w' = slotGapSeconds w \<and>
     initialized w' = initialized w \<and> length (levels w') = length (levels w)"

lemma same_clock_refl [simp]: "same_clock w w"
  by (simp add: same_clock_def)

lemma same_clock_trans: "same_clock a b \<Longrightarrow> same_clock b c \<Longrightarrow> same_clock a c"
  by (simp add: same_clock_def)

lemma wheel_frame_okD:
  assumes "wheel_frame_ok w"
  shows "levels_ok (slotGapSeconds w) (levels w)" "0 \<le> currentBase w" "currentBase w < time_bound"
    "slotGapSeconds w dvd currentBase w" "finite (overflow w)" "0 < slotGapSeconds w"
    "\<And>k. k \<in> held w \<Longrightarrow> key_ok (slotGapSeconds w) k"
  using assms levels_ok_gap by (auto simp: wheel_frame_ok_def)

lemma locate_key:
  assumes "wheel_frame_ok w" "key_ok (slotGapSeconds w) k" "L \<le> length (levels w)"
  obtains j b where
    "findBucket (levels w) (slot_delta w k) = Some (Some \<lparr>loc_level = j, loc_bucket = int b\<rparr>)"
    "j < length (levels w)" "b < length (buckets (levels w ! j))"
    "j < L \<Longrightarrow> slot_ok (slotGapSeconds w) (currentBase w) L (levels w) j b k"
proof -
  note D = wheel_frame_okD [OF assms(1)]
  have "0 \<le> k * slotGapSeconds w" "k * slotGapSeconds w < time_bound"
    using assms(2) D(6) by (simp_all add: key_ok_def)
  from findBucket_timed [OF D(1-3) this D(4) assms(3)] that slot_delta_ok(1) [OF assms(2) D(2,3,6)]
  show ?thesis by metis
qed

lemma overflow_key_ok:
  assumes "wheel_frame_ok w" "key_ok (slotGapSeconds w) k"
  shows "wheel_frame_ok (w\<lparr>overflow := insert k (overflow w), slotLocation := fmdrop k (slotLocation w)\<rparr>)"
    "held (w\<lparr>overflow := insert k (overflow w), slotLocation := fmdrop k (slotLocation w)\<rparr>) = insert k (held w)"
  using assms by (auto simp: wheel_frame_ok_def held_def)

lemma cascade_keys_ok:
  assumes "wheel_frame_ok w" "timing (slotGapSeconds w) (currentBase w) L (levels w)" "L < length (levels w)"
    and "\<forall>k \<in> set ks. key_ok (slotGapSeconds w) k"
  shows "\<exists>w'. cascade_keys L ks w = Some w' \<and> wheel_frame_ok w' \<and>
     timing (slotGapSeconds w) (currentBase w) L (levels w') \<and> same_frame (levels w) (levels w') \<and>
     same_clock w w' \<and> held w' = held w \<union> set ks \<and>
     (\<forall>j b k. L \<le> j \<longrightarrow> member (levels w') j b k = member (levels w) j b k) \<and>
     (distinct ks \<longrightarrow> located (set ks) w \<longrightarrow> located {} w')"
  using assms
proof (induction ks arbitrary: w)
  case Nil
  then show ?case by simp
next
  case (Cons k ks)
  let ?g = "slotGapSeconds w"
  have k: "key_ok ?g k" using Cons.prems(4) by simp
  obtain j b where jb: "findBucket (levels w) (slot_delta w k) = Some (Some \<lparr>loc_level = j, loc_bucket = int b\<rparr>)"
    "j < length (levels w)" "b < length (buckets (levels w ! j))"
    "j < L \<Longrightarrow> slot_ok ?g (currentBase w) L (levels w) j b k"
    using locate_key [OF Cons.prems(1) k less_imp_le [OF Cons.prems(3)]] by blast
  define w1 where "w1 = (if j < L then w\<lparr>levels := put (insert k) j b (levels w),
      slotLocation := fmupd k \<lparr>loc_level = j, loc_bucket = int b\<rparr> (slotLocation w)\<rparr>
    else w\<lparr>overflow := insert k (overflow w), slotLocation := fmdrop k (slotLocation w)\<rparr>)"
  note P = place_ok [OF Cons.prems(1) k jb(2,3)]
  have step: "cascade_keys L (k # ks) w = cascade_keys L ks w1"
    using jb(1) P(1) by (simp add: w1_def)
  have w1: "wheel_frame_ok w1" "held w1 = insert k (held w)" "same_clock w w1" "same_frame (levels w) (levels w1)"
    "slotGapSeconds w1 = ?g" "currentBase w1 = currentBase w"
    using P(2,3) overflow_key_ok [OF Cons.prems(1) k] jb(2) by (auto simp: w1_def same_clock_def)
  have timing: "timing ?g (currentBase w) L (levels w1)"
    using Cons.prems(2) jb(2-4) by (auto simp: w1_def intro: timing_put_insert)
  have upper: "member (levels w1) i x q = member (levels w) i x q" if "L \<le> i" for i x q
    using jb(2,3) that by (auto simp: w1_def member_put)
  have loc: "located (set ks) w1" if "distinct (k # ks)" "located (set (k # ks)) w"
  proof -
    have "k \<notin> held w" "set (k # ks) - {k} = set ks" using that by (auto simp: located_def)
    then show ?thesis
      using located_place [OF that(2) jb(2,3), of k] located_overflow [OF that(2), of k] by (simp add: w1_def)
  qed
  have "\<exists>w'. cascade_keys L ks w1 = Some w' \<and> wheel_frame_ok w' \<and> timing ?g (currentBase w) L (levels w') \<and>
     same_frame (levels w1) (levels w') \<and> same_clock w1 w' \<and> held w' = held w1 \<union> set ks \<and>
     (\<forall>j b k. L \<le> j \<longrightarrow> member (levels w') j b k = member (levels w1) j b k) \<and>
     (distinct ks \<longrightarrow> located (set ks) w1 \<longrightarrow> located {} w')"
    using Cons.IH [of w1] Cons.prems(3,4) w1 timing by (simp add: same_clock_def)
  then show ?case
    using w1 upper loc unfolding step by (auto intro: same_frame_trans same_clock_trans)
qed

definition turn :: "nat \<Rightarrow> wheelLevel list \<Rightarrow> wheelLevel list" where
  "turn j ls = ls[j := (ls ! j)\<lparr>current := (current (ls ! j) + 1) mod bucketCount (ls ! j)\<rparr>]"

lemma length_turn [simp]: "length (turn j ls) = length ls"
  by (simp add: turn_def)

lemma nth_turn:
  "i < length ls \<Longrightarrow> turn j ls ! i = (if i = j
     then (ls ! j)\<lparr>current := (current (ls ! j) + 1) mod bucketCount (ls ! j)\<rparr> else ls ! i)"
  by (simp add: turn_def nth_list_update)

lemma member_turn [simp]: "j < length ls \<Longrightarrow> member (turn j ls) i b k = member ls i b k"
  by (cases "i = j") (auto simp: member_def nth_turn)

lemma levels_ok_turn:
  assumes "levels_ok g ls" "j < length ls"
  shows "levels_ok g (turn j ls)"
proof -
  have "level_ok (turn j ls ! i)" if "i < length ls" for i
    using levels_okD [OF assms(1) that] by (auto simp: nth_turn that level_ok_def)
  then have "\<forall>l \<in> set (turn j ls). level_ok l" by (metis in_set_conv_nth length_turn)
  moreover have "0 < length ls" using assms(2) by linarith
  ultimately show ?thesis using assms by (auto simp: levels_ok_def nth_turn)
qed

lemma step_level_turn:
  assumes "levels_ok g (levels w)" "j < length (levels w)"
  shows "step_level j w = Some (w\<lparr>levels := turn j (levels w)\<rparr>)"
proof -
  note D = levels_okD [OF assms] and B = level_bounds [OF assms]
  have "add64 (current (levels w ! j)) 1 = current (levels w ! j) + 1"
    using D(5,6) B(2) by (intro add64_below) auto
  then show ?thesis using D(2,5) by (simp add: step_level_def turn_def mod64_nonneg Let_def)
qed

lemma bdist_turn:
  assumes "levels_ok g ls" "j < length ls" "b < length (buckets (ls ! j))" "b \<noteq> nat (current (ls ! j))"
  shows "bdist (turn j ls ! j) b = bdist (ls ! j) b - 1" "1 \<le> bdist (ls ! j) b"
proof -
  note D = levels_okD [OF assms(1,2)]
  let ?n = "bucketCount (ls ! j)" and ?x = "int b - current (ls ! j)"
  have "?x \<noteq> 0" "\<bar>?x\<bar> < ?n" using D(2,4-6) assms(3,4) by auto
  then have "?x mod ?n \<noteq> 0"
    using dvd_imp_le_int [of ?x ?n] by (auto simp: mod_eq_0_iff_dvd)
  then have pos: "1 \<le> ?x mod ?n" "?x mod ?n < ?n"
    using pos_mod_sign [OF D(2), of ?x] pos_mod_bound [OF D(2), of ?x] by linarith+
  then show "1 \<le> bdist (ls ! j) b" by (simp add: bdist_def)
  have "(?x - 1) mod ?n = (?x mod ?n - 1) mod ?n" by (simp add: mod_diff_left_eq)
  also have "\<dots> = ?x mod ?n - 1" using pos by simp
  finally show "bdist (turn j ls ! j) b = bdist (ls ! j) b - 1"
    using assms(2) by (simp add: bdist_def nth_turn mod_diff_right_eq algebra_simps)
qed

lemma slack_turn:
  assumes "levels_ok g ls" "i < length ls" "i \<noteq> j \<or> current (ls ! j) + 1 < bucketCount (ls ! j)"
  shows "slack (turn j ls ! i) = slack (ls ! i) - (if i = j then granularity (ls ! j) else 0)"
  using assms levels_okD [OF assms(1,2)]
  by (auto simp: slack_def nth_turn left_diff_distrib algebra_simps)

text \<open>A level whose current bucket is empty may turn; the level above it is pending when it wraps.\<close>

lemma timing_turn:
  assumes ok: "levels_ok g ls" and t: "timing g B L ls" and L: "1 \<le> L" "L < length ls"
    and zero: "\<And>i. i < L \<Longrightarrow> current (ls ! i) = 0"
    and empty: "\<And>k. \<not> member ls L (nat (current (ls ! L))) k"
  defines "M \<equiv> if current (turn L ls ! L) = 0 then Suc L else length ls"
  shows "timing g B M (turn L ls)"
  unfolding timing_member
proof (intro allI impI)
  fix j b k assume m': "member (turn L ls) j b k"
  then have m: "member ls j b k" and j: "j < length ls" and b: "b < length (buckets (ls ! j))"
    using L(2) by (auto simp: member_def nth_turn split: if_splits)
  from t m have s: "slot_ok g B L ls j b k" by (simp add: timing_member)
  let ?G = "granularity (ls ! L)" and ?c = "current (ls ! L)" and ?n = "bucketCount (ls ! L)"
  note D = levels_okD [OF ok L(2)]
  have c': "current (turn L ls ! L) = (?c + 1) mod ?n" using L(2) by (simp add: nth_turn)
  have wrap: "current (turn L ls ! L) = 0 \<longleftrightarrow> ?c + 1 = ?n"
    using D(5,6) by (cases "?c + 1 = ?n") (simp_all add: c')
  have sum_L: "(\<Sum>i<L. slack (turn L ls ! i)) = ?G - g"
    using slack_sum_le(2) [OF ok L(2) zero] slack_turn [OF ok] L(2) by (simp cong: sum.cong_simp)
  have sl: "slack (turn L ls ! i) = slack (ls ! i)" if "i < length ls" "i \<noteq> L" for i
    using that by (simp add: nth_turn)
  have G': "granularity (turn L ls ! i) = granularity (ls ! i)" if "i < length ls" for i
    using that by (simp add: nth_turn)
  consider "j = 0" | "0 < j" "j < L" | "j = L" | "L < j" by linarith
  then show "slot_ok g B M (turn L ls) j b k"
  proof cases
    case 1
    have "turn L ls ! 0 = ls ! 0" using L j 1 by (simp add: nth_turn)
    with 1 show ?thesis using s by (simp add: slot_ok_def)
  next
    case 2
    then have "due g B M (turn L ls) j = due g B L ls j"
      using L by (simp add: M_def due_def sl cong: sum.cong_simp)
    then show ?thesis using s 2 j by (simp add: slot_ok_def nth_turn bdist_def)
  next
    case 3
    have bc: "b \<noteq> nat ?c" using empty m 3 by blast
    have "b < length (buckets (ls ! L))" using b 3 by simp
    from bdist_turn [OF ok L(2) this bc]
    have d: "bdist (turn L ls ! L) b = bdist (ls ! L) b - 1" by simp
    have "B + bdist (ls ! L) b * ?G \<le> k * g" using s 3 L by (simp add: slot_ok_def due_def)
    moreover have "due g B M (turn L ls) L = B + ?G" using L(2) sum_L by (simp add: M_def due_def)
    ultimately show ?thesis using 3 L G' [OF L(2)] by (simp add: slot_ok_def d left_diff_distrib)
  next
    case 4
    have rest: "(\<Sum>i=Suc L..<j. slack (turn L ls ! i)) = (\<Sum>i=Suc L..<j. slack (ls ! i))"
      using j by (intro sum.cong) (auto simp: sl)
    have split: "(\<Sum>i=L..<j. slack (ls ! i)) = slack (ls ! L) + (\<Sum>i=Suc L..<j. slack (ls ! i))"
      using 4 by (simp add: sum.atLeast_Suc_lessThan)
    have "due g B M (turn L ls) j = due g B L ls j"
    proof (cases "?c + 1 = ?n")
      case True
      then have "slack (ls ! L) = 0" by (simp add: slack_def)
      with True show ?thesis using 4 wrap rest split by (simp add: M_def due_def)
    next
      case False
      then have lt: "?c + 1 < ?n" using D(6) by simp
      have "(\<Sum>i<j. slack (turn L ls ! i))
          = (\<Sum>i<L. slack (turn L ls ! i)) + (\<Sum>i=L..<j. slack (turn L ls ! i))"
        using 4 by (metis lessThan_atLeast0 less_imp_le sum.atLeastLessThan_concat zero_le)
      also have "(\<Sum>i=L..<j. slack (turn L ls ! i))
          = slack (turn L ls ! L) + (\<Sum>i=Suc L..<j. slack (ls ! i))"
        using 4 rest by (simp add: sum.atLeast_Suc_lessThan)
      also have "slack (turn L ls ! L) = slack (ls ! L) - ?G"
        using slack_turn [OF ok L(2)] lt by simp
      finally show ?thesis using 4 False wrap split sum_L j by (simp add: M_def due_def)
    qed
    then show ?thesis using s 4 j by (simp add: slot_ok_def nth_turn bdist_def)
  qed
qed

lemma take_bucket_put:
  assumes "levels_ok g (levels w)" "j < length (levels w)"
  shows "take_bucket j w = Some (buckets (levels w ! j) ! nat (current (levels w ! j)),
     w\<lparr>levels := put (\<lambda>_. {}) j (nat (current (levels w ! j))) (levels w)\<rparr>)"
    and "nat (current (levels w ! j)) < length (buckets (levels w ! j))"
  using levels_okD [OF assms] assms(2) by (auto simp: take_bucket_def put_def Let_def)

lemma keys_in_put_clear:
  assumes "j < length ls" "b < length (buckets (ls ! j))"
  shows "keys_in (put (\<lambda>_. {}) j b ls) \<union> buckets (ls ! j) ! b = keys_in ls"
  using assms by (auto simp: keys_in_def member_put) (auto simp: member_def split: if_splits)

lemma frame_ok_sub:
  assumes "wheel_frame_ok w" "levels_ok (slotGapSeconds w) ls'" "\<And>loc. loc_ok ls' loc = loc_ok (levels w) loc"
    and "keys_in ls' \<subseteq> keys_in (levels w)"
  shows "wheel_frame_ok (w\<lparr>levels := ls'\<rparr>)"
  using assms by (auto simp: wheel_frame_ok_def held_def)

lemma loc_ok_turn [simp]: "j < length ls \<Longrightarrow> loc_ok (turn j ls) loc = loc_ok ls loc"
  by (cases "loc_level loc = j") (auto simp: loc_ok_def nth_turn)

lemma keys_in_turn [simp]: "j < length ls \<Longrightarrow> keys_in (turn j ls) = keys_in ls"
  by (simp add: keys_in_def)

lemma turn_wheel_ok:
  assumes "wheel_frame_ok w" "j < length (levels w)"
  shows "wheel_frame_ok (w\<lparr>levels := turn j (levels w)\<rparr>)" "held (w\<lparr>levels := turn j (levels w)\<rparr>) = held w"
  using assms wheel_frame_okD(1) [OF assms(1)]
  by (auto intro!: frame_ok_sub levels_ok_turn simp: held_def)

lemma take_bucket_ok:
  assumes "wheel_frame_ok w" "j < length (levels w)"
  obtains S w1 where "take_bucket j w = Some (S, w1)" "wheel_frame_ok w1" "finite S"
    "held w1 \<union> S = held w" "S \<subseteq> held w" "same_clock w w1" "same_frame (levels w) (levels w1)"
    "S = buckets (levels w ! j) ! nat (current (levels w ! j))"
    "w1 = w\<lparr>levels := put (\<lambda>_. {}) j (nat (current (levels w ! j))) (levels w)\<rparr>"
    "\<And>i b k. member (levels w1) i b k \<longleftrightarrow> member (levels w) i b k \<and> \<not> (i = j \<and> b = nat (current (levels w ! j)))"
    "\<And>L. timing (slotGapSeconds w) (currentBase w) L (levels w) \<Longrightarrow>
       timing (slotGapSeconds w) (currentBase w) L (levels w1)"
proof -
  note ok = wheel_frame_okD(1) [OF assms(1)]
  note T = take_bucket_put [OF ok assms(2)]
  let ?c = "nat (current (levels w ! j))"
  let ?ls = "put (\<lambda>_. {}) j ?c (levels w)"
  have keys: "keys_in ?ls \<union> buckets (levels w ! j) ! ?c = keys_in (levels w)"
    by (rule keys_in_put_clear [OF assms(2) T(2)])
  have frame: "same_frame (levels w) ?ls" using assms(2) by simp
  have "wheel_frame_ok (w\<lparr>levels := ?ls\<rparr>)"
    using frame_ok_sub [OF assms(1) levels_ok_put [OF ok assms(2) T(2)] loc_ok_frame [OF frame]] keys by auto
  moreover have "finite (buckets (levels w ! j) ! ?c)"
    using levels_okD(7) [OF ok assms(2) nth_mem [OF T(2)]] .
  ultimately show ?thesis
    using keys frame T timing_put_shrink [OF _ assms(2) T(2), of _ _ _ "\<lambda>_. {}"]
    by (intro that [OF T(1)])
      (auto simp: held_def same_clock_def member_put [OF assms(2) T(2)] split: if_splits)
qed

lemma cascade_ok:
  assumes "range_order order" "wheel_frame_ok w" "timing (slotGapSeconds w) (currentBase w) L (levels w)"
    and "1 \<le> L" "L \<le> length (levels w)" "\<forall>i < L. current (levels w ! i) = 0"
    and "length (levels w) \<le> fuel + L"
  shows "\<exists>w'. cascade order fuel L w = Some w' \<and> wheel_ok w' \<and> held w' = held w \<and> same_clock w w' \<and>
     (located {} w \<longrightarrow> located {} w')"
  using assms(2-)
proof (induction fuel arbitrary: L w)
  case 0
  then show ?case by (simp add: cascade.simps wheel_inv_def)
next
  case (Suc fuel)
  show ?case
  proof (cases "L = length (levels w)")
    case True
    then show ?thesis using Suc.prems by (simp add: cascade.simps wheel_inv_def)
  next
    case False
    then have L: "L < length (levels w)" using Suc.prems(4) by simp
    let ?g = "slotGapSeconds w" and ?B = "currentBase w" and ?c = "nat (current (levels w ! L))"
    obtain S w1 where T: "take_bucket L w = Some (S, w1)" "wheel_frame_ok w1" "finite S"
      "held w1 \<union> S = held w" "S \<subseteq> held w" "same_clock w w1" "same_frame (levels w) (levels w1)"
      "\<And>i b k. member (levels w1) i b k \<longleftrightarrow> member (levels w) i b k \<and> \<not> (i = L \<and> b = ?c)"
      "timing ?g ?B L (levels w1)"
      "S = buckets (levels w ! L) ! ?c" "w1 = w\<lparr>levels := put (\<lambda>_. {}) L ?c (levels w)\<rparr>"
      using take_bucket_ok [OF Suc.prems(1) L] Suc.prems(2) by metis
    have takeS: "located {} w \<Longrightarrow> located S w1"
      unfolding T(10,11) by (rule located_take [OF _ L take_bucket_put(2) [OF wheel_frame_okD(1) [OF Suc.prems(1)] L]])
    have clock1: "slotGapSeconds w1 = ?g" "currentBase w1 = ?B" "length (levels w1) = length (levels w)"
      using T(6) by (auto simp: same_clock_def)
    have keys: "\<forall>k \<in> set (order S). key_ok ?g k"
      using T(3,5) assms(1) wheel_frame_okD(7) [OF Suc.prems(1)] by auto
    obtain w2 where C: "cascade_keys L (order S) w1 = Some w2" "wheel_frame_ok w2"
      "timing ?g ?B L (levels w2)" "same_frame (levels w1) (levels w2)" "same_clock w1 w2"
      "held w2 = held w1 \<union> S" "\<forall>j b k. L \<le> j \<longrightarrow> member (levels w2) j b k = member (levels w1) j b k"
      "distinct (order S) \<longrightarrow> located S w1 \<longrightarrow> located {} w2"
      using cascade_keys_ok [OF T(2), of L "order S"] T(9) L keys clock1 assms(1) T(3) by auto
    have clock2: "slotGapSeconds w2 = ?g" "currentBase w2 = ?B" "length (levels w2) = length (levels w)"
      using C(5) clock1 by (auto simp: same_clock_def)
    have L2: "L < length (levels w2)" using L clock2 by simp
    have ok2: "levels_ok ?g (levels w2)" using wheel_frame_okD(1) [OF C(2)] clock2 by simp
    have cur: "current (levels w2 ! i) = current (levels w ! i)" if "i < length (levels w)" for i
      using T(7) C(4) that by (simp add: same_frame_def)
    define w3 where "w3 = w2\<lparr>levels := turn L (levels w2)\<rparr>"
    have w3: "wheel_frame_ok w3" "held w3 = held w" "same_clock w w3" "length (levels w3) = length (levels w)"
      using turn_wheel_ok [OF C(2) L2] C(6) T(4,6) C(5) clock2 by (auto simp: w3_def same_clock_def)
    have clock3: "slotGapSeconds w3 = ?g" "currentBase w3 = ?B" using clock2 by (simp_all add: w3_def)
    have loc3: "located {} w \<longrightarrow> located {} w3"
      using C(8) takeS range_order_distinct [OF assms(1) T(3)] L2 by (simp add: located_def w3_def held_def)
    have zero: "current (levels w2 ! i) = 0" if "i < L" for i
      using that cur L Suc.prems(5) by simp
    have empty: "\<not> member (levels w2) L (nat (current (levels w2 ! L))) k" for k
      using C(7) T(8) cur [OF L] by simp
    have t: "timing ?g ?B (if current (levels w3 ! L) = 0 then Suc L else length (levels w)) (levels w3)"
      using timing_turn [OF ok2 C(3) Suc.prems(3) L2 zero empty] clock2 by (simp add: w3_def split: if_splits)
    have eq: "cascade order (Suc fuel) L w =
        (if current (levels w3 ! L) = 0 then cascade order fuel (Suc L) w3 else Some w3)"
      using L T(1) C(1) step_level_turn [OF ok2 L2] by (simp add: cascade.simps w3_def)
    show ?thesis
    proof (cases "current (levels w3 ! L) = 0")
      case True
      have "\<forall>i < Suc L. current (levels w3 ! i) = 0"
        using True zero L2 by (auto simp: less_Suc_eq w3_def nth_turn)
      moreover have "timing (slotGapSeconds w3) (currentBase w3) (Suc L) (levels w3)"
        using t True clock3 by simp
      ultimately obtain w' where "cascade order fuel (Suc L) w3 = Some w'" "wheel_ok w'"
          "held w' = held w3" "same_clock w3 w'" "located {} w3 \<longrightarrow> located {} w'"
        using Suc.IH [OF w3(1), of "Suc L"] L w3(4) Suc.prems(6) by auto
      then show ?thesis using eq True w3(2,3) loc3 by (auto intro: same_clock_trans)
    next
      case False
      then show ?thesis using eq t w3 clock3 loc3 by (simp add: wheel_inv_def)
    qed
  qed
qed

section \<open>Advancing\<close>

lemma timing_tick:
  assumes ok: "levels_ok g ls" and t: "timing g B (length ls) ls"
    and empty: "\<And>k. \<not> member ls 0 (nat (current (ls ! 0))) k"
  shows "timing g (B + g) (if current (turn 0 ls ! 0) = 0 then 1 else length ls) (turn 0 ls)"
  unfolding timing_member
proof (intro allI impI)
  have len: "0 < length ls" using ok by (auto simp: levels_ok_def)
  fix j b k assume m': "member (turn 0 ls) j b k"
  then have m: "member ls j b k" and j: "j < length ls" and b: "b < length (buckets (ls ! j))"
    using len by (auto simp: member_def nth_turn split: if_splits)
  from t m have s: "slot_ok g B (length ls) ls j b k" by (simp add: timing_member)
  note D = levels_okD [OF ok len]
  have G: "granularity (ls ! 0) = g" "0 < g" using ok levels_ok_gap by (auto simp: levels_ok_def)
  let ?c = "current (ls ! 0)" and ?n = "bucketCount (ls ! 0)"
  let ?M = "if current (turn 0 ls ! 0) = 0 then 1 else length ls"
  show "slot_ok g (B + g) ?M (turn 0 ls) j b k"
  proof (cases "j = 0")
    case True
    have bc: "b \<noteq> nat ?c" using empty m True by blast
    from bdist_turn [OF ok len _ bc] b True
    have d: "bdist (turn 0 ls ! 0) b = bdist (ls ! 0) b - 1" "1 \<le> bdist (ls ! 0) b" by simp_all
    have e: "max B (k * g) = B + bdist (ls ! 0) b * g" using s True by (simp add: slot_ok_def)
    have "1 * g \<le> bdist (ls ! 0) b * g" using d(2) G(2) by (intro mult_right_mono) auto
    then have "k * g = B + bdist (ls ! 0) b * g" "B + g \<le> k * g" using e G(2) by (auto simp: max_def split: if_splits)
    then show ?thesis using True d(1) by (simp add: slot_ok_def left_diff_distrib)
  next
    case False
    have rest: "(\<Sum>i=1..<j. slack (turn 0 ls ! i)) = (\<Sum>i=1..<j. slack (ls ! i))"
      using j by (intro sum.cong) (auto simp: nth_turn)
    have split: "(\<Sum>i<j. slack (x ! i)) = slack (x ! 0) + (\<Sum>i=1..<j. slack (x ! i))" for x :: "wheelLevel list"
      using False by (simp add: lessThan_atLeast0 sum.atLeast_Suc_lessThan)
    have wrap: "current (turn 0 ls ! 0) = 0 \<longleftrightarrow> ?c + 1 = ?n"
      using D(5,6) len by (cases "?c + 1 = ?n") (simp_all add: nth_turn)
    have "due g (B + g) ?M (turn 0 ls) j = due g B (length ls) ls j"
    proof (cases "?c + 1 = ?n")
      case True
      then have "slack (ls ! 0) = 0" by (simp add: slack_def)
      with True False j show ?thesis using wrap rest split [of ls] by (simp add: due_def)
    next
      case no: False
      then have "slack (turn 0 ls ! 0) = slack (ls ! 0) - g"
        using slack_turn [OF ok len, of 0] D(6) G(1) by simp
      with no j show ?thesis using wrap rest split [of ls] split [of "turn 0 ls"] by (simp add: due_def)
    qed
    then show ?thesis using s False j by (simp add: slot_ok_def nth_turn bdist_def)
  qed
qed

lemma current_bucket_late:
  assumes "levels_ok g ls" "timing g B L ls" "k \<in> buckets (ls ! 0) ! nat (current (ls ! 0))"
  shows "k * g \<le> B"
proof -
  have len: "0 < length ls" using assms(1) by (auto simp: levels_ok_def)
  note D = levels_okD [OF assms(1) len]
  have "member ls 0 (nat (current (ls ! 0))) k"
    using assms(3) len D(4-6) by (simp add: member_def)
  then have "slot_ok g B L ls 0 (nat (current (ls ! 0))) k" using assms(2) by (simp add: timing_member)
  then show ?thesis using D(5) by (simp add: slot_ok_def bdist_def max_def split: if_splits)
qed

lemma advance_step_ok:
  assumes "range_order order" "wheel_ok w" "currentBase w + slotGapSeconds w < time_bound"
  shows "\<exists>new w'. advance_step order (ready, w) = Some (ready @ new, w') \<and> wheel_ok w' \<and>
     currentBase w' = currentBase w + slotGapSeconds w \<and> slotGapSeconds w' = slotGapSeconds w \<and>
     initialized w' = initialized w \<and> length (levels w') = length (levels w) \<and>
     held w = held w' \<union> set new \<and> (\<forall>k \<in> set new. k * slotGapSeconds w \<le> currentBase w) \<and>
     buckets (levels w ! 0) ! nat (current (levels w ! 0)) \<subseteq> set new \<and>
     (located {} w \<longrightarrow> located {} w' \<and> distinct new \<and> set new \<inter> held w' = {})"
proof -
  let ?g = "slotGapSeconds w" and ?B = "currentBase w"
  have W: "wheel_frame_ok w" and t: "timing ?g ?B (length (levels w)) (levels w)"
    using assms(2) by (simp_all add: wheel_inv_def)
  note D = wheel_frame_okD [OF W]
  have len: "0 < length (levels w)" using D(1) by (auto simp: levels_ok_def)
  define w0 where "w0 = w\<lparr>currentBase := ?B + ?g\<rparr>"
  have add: "add64 ?B ?g = ?B + ?g" using D(2,3,6) assms(3) by (intro add64_below) auto
  have w0: "wheel_frame_ok w0" "levels w0 = levels w" "slotGapSeconds w0 = ?g" "held w0 = held w"
    using W assms(3) D(6) by (auto simp: w0_def wheel_frame_ok_def held_def)
  let ?c = "nat (current (levels w ! 0))"
  have c: "?c < length (buckets (levels w ! 0))" by (rule take_bucket_put(2) [OF D(1) len])
  obtain S w1 where T0: "take_bucket 0 w0 = Some (S, w1)" "wheel_frame_ok w1" "finite S"
    "held w1 \<union> S = held w0" "same_clock w0 w1" "S = buckets (levels w0 ! 0) ! nat (current (levels w0 ! 0))"
    "w1 = w0\<lparr>levels := put (\<lambda>_. {}) 0 (nat (current (levels w0 ! 0))) (levels w0)\<rparr>"
    using take_bucket_ok [OF w0(1), of 0] len unfolding w0(2) by metis
  have lev: "levels w1 = put (\<lambda>_. {}) 0 ?c (levels w)" using T0(7) w0(2) by simp
  have T: "take_bucket 0 w0 = Some (S, w1)" "wheel_frame_ok w1" "finite S" "held w1 \<union> S = held w"
    "same_clock w0 w1" "S = buckets (levels w ! 0) ! ?c" "levels w1 = put (\<lambda>_. {}) 0 ?c (levels w)"
    "\<And>i b k. member (levels w1) i b k \<longleftrightarrow> member (levels w) i b k \<and> \<not> (i = 0 \<and> b = ?c)"
    using T0(1-6) w0(2,4) lev by (simp_all add: member_put [OF len c])
  define w2 where "w2 = w1\<lparr>slotLocation := fmfilter (\<lambda>k. k \<notin> S) (slotLocation w1)\<rparr>"
  have w2: "wheel_frame_ok w2" "levels w2 = levels w1" "held w2 = held w1" "slotGapSeconds w2 = ?g"
    "currentBase w2 = ?B + ?g" "initialized w2 = initialized w" "length (levels w2) = length (levels w)"
    using T(2,5) w0(3) by (auto simp: w2_def wheel_frame_ok_def held_def same_clock_def w0_def)
  have t1: "timing ?g ?B (length (levels w2)) (levels w2)"
    using timing_put_shrink [OF t len c, of "\<lambda>_. {}"] T(7) w2(2) len by simp
  have ok2: "levels_ok ?g (levels w2)" using wheel_frame_okD(1) [OF w2(1)] w2(4) by simp
  have cur: "current (levels w2 ! 0) = current (levels w ! 0)" using T(7) w2(2) len by (simp add: put_def)
  have empty: "\<not> member (levels w2) 0 (nat (current (levels w2 ! 0))) k" for k
    using T(8) cur w2(2) by simp
  have len2: "0 < length (levels w2)" using len w2(7) by simp
  define w3 where "w3 = w2\<lparr>levels := turn 0 (levels w2)\<rparr>"
  have w3: "wheel_frame_ok w3" "held w3 = held w1" "slotGapSeconds w3 = ?g" "currentBase w3 = ?B + ?g"
    "initialized w3 = initialized w" "length (levels w3) = length (levels w)"
    using turn_wheel_ok [OF w2(1) len2] w2 by (simp_all add: w3_def)
  have t3: "timing ?g (?B + ?g) (if current (levels w3 ! 0) = 0 then 1 else length (levels w3)) (levels w3)"
    using timing_tick [OF ok2 t1 empty] w3(6) w2(7) by (simp add: w3_def split: if_splits)
  have loc: "located {} w3" "S \<inter> held w1 = {}" if "located {} w"
  proof -
    have "located {} w0" using that by (simp add: located_def w0_def held_def)
    then have "located S w1"
      unfolding T0(6,7) by (rule located_take) (use len c w0(2) in simp_all)
    then show "S \<inter> held w1 = {}" by (simp add: located_def)
    from \<open>located S w1\<close> have "located {} w2" unfolding w2_def by (rule located_forget)
    then show "located {} w3" using len2 by (simp add: located_def w3_def held_def)
  qed
  have late: "\<forall>k \<in> set (order S). k * ?g \<le> ?B"
    using current_bucket_late [OF D(1) t] T(3,6) assms(1) by simp
  have eq: "advance_step order (ready, w) =
      (if current (levels w3 ! 0) = 0 then cascade order (length (levels w3)) 1 w3 else Some w3)
        \<bind> (\<lambda>w'. Some (ready @ order S, w'))"
    using T(1) step_level_turn [OF ok2 len2] add by (simp add: advance_step_def w0_def w2_def w3_def)
  have "\<exists>w'. (if current (levels w3 ! 0) = 0 then cascade order (length (levels w3)) 1 w3 else Some w3) = Some w' \<and>
      wheel_ok w' \<and> held w' = held w3 \<and> same_clock w3 w' \<and> (located {} w3 \<longrightarrow> located {} w')"
  proof (cases "current (levels w3 ! 0) = 0")
    case True
    then have "timing (slotGapSeconds w3) (currentBase w3) 1 (levels w3)" using t3 w3(3,4) by simp
    from cascade_ok [OF assms(1) w3(1) this, of "length (levels w3)"] len w3(6) True
    show ?thesis by (simp add: Suc_leI)
  next
    case False
    then show ?thesis using t3 w3 by (simp add: wheel_inv_def)
  qed
  then obtain w' where w': "(if current (levels w3 ! 0) = 0 then cascade order (length (levels w3)) 1 w3 else Some w3) = Some w'"
      "wheel_ok w'" "held w' = held w3" "same_clock w3 w'" "located {} w3 \<longrightarrow> located {} w'" by blast
  have o: "set (order S) = S" "distinct (order S)"
    using assms(1) T(3) range_order_distinct by auto
  show ?thesis
    using w' w3 T(4,6) late o loc by (intro exI [of _ "order S"] exI [of _ w']) (auto simp: eq same_clock_def)
qed

lemma advance_loop_ok:
  assumes "range_order order" "wheel_ok w" "slotGapSeconds w dvd newBase" "newBase < time_bound"
    and "currentBase w \<le> newBase" "newBase - currentBase w \<le> int fuel"
  shows "\<exists>new w'. advance_loop order fuel newBase (ready, w) = Some (ready @ new, w') \<and> wheel_ok w' \<and>
     currentBase w' = newBase \<and> slotGapSeconds w' = slotGapSeconds w \<and> initialized w' = initialized w \<and>
     length (levels w') = length (levels w) \<and>
     held w = held w' \<union> set new \<and> (\<forall>k \<in> set new. k * slotGapSeconds w < newBase) \<and>
     (currentBase w < newBase \<longrightarrow> buckets (levels w ! 0) ! nat (current (levels w ! 0)) \<subseteq> set new) \<and>
     (located {} w \<longrightarrow> located {} w' \<and> distinct new \<and> set new \<inter> held w' = {})"
  using assms(2-)
proof (induction fuel arbitrary: w ready)
  case 0
  then show ?case by (auto simp: advance_loop.simps)
next
  case (Suc fuel)
  let ?g = "slotGapSeconds w"
  show ?case
  proof (cases "currentBase w < newBase")
    case False
    then show ?thesis using Suc.prems by (auto simp: advance_loop.simps)
  next
    case True
    have W: "wheel_frame_ok w" using Suc.prems(1) by (simp add: wheel_inv_def)
    note D = wheel_frame_okD [OF W]
    have "?g dvd newBase - currentBase w" using D(4) Suc.prems(2) by simp
    then have le: "currentBase w + ?g \<le> newBase" using True zdvd_imp_le by fastforce
    obtain new w1 where st: "advance_step order (ready, w) = Some (ready @ new, w1)" "wheel_ok w1"
      "currentBase w1 = currentBase w + ?g" "slotGapSeconds w1 = ?g" "initialized w1 = initialized w"
      "length (levels w1) = length (levels w)" "held w = held w1 \<union> set new"
      "\<forall>k \<in> set new. k * ?g \<le> currentBase w"
      "buckets (levels w ! 0) ! nat (current (levels w ! 0)) \<subseteq> set new"
      "located {} w \<longrightarrow> located {} w1 \<and> distinct new \<and> set new \<inter> held w1 = {}"
      using advance_step_ok [OF assms(1) Suc.prems(1)] le Suc.prems(3) by fastforce
    obtain new' w' where IH: "advance_loop order fuel newBase (ready @ new, w1) = Some ((ready @ new) @ new', w')"
      "wheel_ok w'" "currentBase w' = newBase" "slotGapSeconds w' = ?g" "initialized w' = initialized w"
      "length (levels w') = length (levels w)" "held w1 = held w' \<union> set new'" "\<forall>k \<in> set new'. k * ?g < newBase"
      "located {} w1 \<longrightarrow> located {} w' \<and> distinct new' \<and> set new' \<inter> held w' = {}"
      using Suc.IH [OF st(2), of "ready @ new"] st(3-6) Suc.prems(2,3,5) le D(6) by auto
    have "advance_loop order (Suc fuel) newBase (ready, w) = Some (ready @ (new @ new'), w')"
      using True st(1) IH(1) by (simp add: advance_loop.simps [of order "Suc fuel"])
    then show ?thesis
      using IH st(7-10) True by (intro exI [of _ "new @ new'"] exI [of _ w']) auto
  qed
qed

lemma place_overflow_ok:
  assumes "wheel_ok w" "\<forall>k \<in> set ks. key_ok (slotGapSeconds w) k"
  shows "\<exists>out w'. place_overflow dMax ks acc w = Some (acc @ out, w') \<and> wheel_ok w' \<and> same_clock w w' \<and>
     overflow w' = overflow w \<and> set out \<subseteq> set ks \<and> keys_in (levels w') = keys_in (levels w) \<union> set out \<and>
     (distinct ks \<longrightarrow> set ks \<subseteq> overflow w - set acc \<longrightarrow>
        located {} (w\<lparr>overflow := overflow w - set acc\<rparr>) \<longrightarrow>
        located {} (w'\<lparr>overflow := overflow w' - set (acc @ out)\<rparr>))"
  using assms
proof (induction ks arbitrary: acc w)
  case Nil
  then show ?case by auto
next
  case (Cons k ks)
  let ?g = "slotGapSeconds w" and ?n = "length (levels w)"
  have k: "key_ok ?g k" using Cons.prems(2) by simp
  have W: "wheel_frame_ok w" "timing ?g (currentBase w) ?n (levels w)"
    using Cons.prems(1) by (simp_all add: wheel_inv_def)
  show ?case
  proof (cases "slot_delta w k < dMax")
    case False
    obtain out w' where "place_overflow dMax ks acc w = Some (acc @ out, w')" "wheel_ok w'" "same_clock w w'"
      "overflow w' = overflow w" "set out \<subseteq> set ks" "keys_in (levels w') = keys_in (levels w) \<union> set out"
      "distinct ks \<longrightarrow> set ks \<subseteq> overflow w - set acc \<longrightarrow> located {} (w\<lparr>overflow := overflow w - set acc\<rparr>) \<longrightarrow>
        located {} (w'\<lparr>overflow := overflow w' - set (acc @ out)\<rparr>)"
      using Cons.IH [OF Cons.prems(1), of acc] Cons.prems(2) by auto
    with False show ?thesis by (intro exI [of _ out] exI [of _ w']) (auto simp: Let_def)
  next
    case True
    obtain j b where jb: "findBucket (levels w) (slot_delta w k) = Some (Some \<lparr>loc_level = j, loc_bucket = int b\<rparr>)"
      "j < ?n" "b < length (buckets (levels w ! j))" "slot_ok ?g (currentBase w) ?n (levels w) j b k"
      using locate_key [OF W(1) k order_refl] by metis
    define w1 where "w1 = w\<lparr>levels := put (insert k) j b (levels w),
      slotLocation := fmupd k \<lparr>loc_level = j, loc_bucket = int b\<rparr> (slotLocation w)\<rparr>"
    note P = place_ok [OF W(1) k jb(2,3)]
    have w1: "wheel_ok w1" "same_clock w w1" "overflow w1 = overflow w" "slotGapSeconds w1 = ?g"
      "keys_in (levels w1) = insert k (keys_in (levels w))"
      using P(2) timing_put_insert [OF W(2) jb(2-4)] keys_in_put_insert [OF jb(2,3)]
      by (simp_all add: w1_def wheel_inv_def same_clock_def)
    obtain out w' where O: "place_overflow dMax ks (acc @ [k]) w1 = Some ((acc @ [k]) @ out, w')" "wheel_ok w'"
      "same_clock w1 w'" "overflow w' = overflow w1" "set out \<subseteq> set ks"
      "keys_in (levels w') = keys_in (levels w1) \<union> set out"
      "distinct ks \<longrightarrow> set ks \<subseteq> overflow w1 - set (acc @ [k]) \<longrightarrow>
        located {} (w1\<lparr>overflow := overflow w1 - set (acc @ [k])\<rparr>) \<longrightarrow>
        located {} (w'\<lparr>overflow := overflow w' - set ((acc @ [k]) @ out)\<rparr>)"
      using Cons.IH [OF w1(1), of "acc @ [k]"] Cons.prems(2) w1(4) by auto
    have loc: "located {} (w1\<lparr>overflow := overflow w1 - set (acc @ [k])\<rparr>)"
      if "k \<in> overflow w - set acc" "located {} (w\<lparr>overflow := overflow w - set acc\<rparr>)"
    proof -
      let ?v = "w\<lparr>overflow := overflow w - set acc - {k}\<rparr>"
      have "located {} ?v" using that(2) by (auto simp: located_def held_def)
      moreover have "k \<notin> held ?v"
        using located_overflow_disjoint [OF that(2), of k] that(1) by (auto simp: held_def keys_in_def)
      ultimately have "located ({} - {k}) (?v\<lparr>levels := put (insert k) j b (levels ?v),
          slotLocation := fmupd k \<lparr>loc_level = j, loc_bucket = int b\<rparr> (slotLocation ?v)\<rparr>)"
        using jb(2,3) by (intro located_place) simp_all
      then show ?thesis by (simp add: w1_def Diff_insert set_diff_eq located_def held_def conj_commute)
    qed
    have "place_overflow dMax (k # ks) acc w = Some (acc @ (k # out), w')"
      using True jb(1) P(1) O(1) by (simp add: w1_def Let_def)
    moreover have "located {} (w'\<lparr>overflow := overflow w' - set (acc @ k # out)\<rparr>)"
      if "distinct (k # ks)" "set (k # ks) \<subseteq> overflow w - set acc" "located {} (w\<lparr>overflow := overflow w - set acc\<rparr>)"
      using O(7) loc that w1(3) by auto
    ultimately show ?thesis using O(2-6) w1 same_clock_trans [OF w1(2) O(3)]
      by (intro exI [of _ "k # out"] exI [of _ w']) auto
  qed
qed

section \<open>The invariant between operations\<close>

text \<open>
  Between operations no key of the overflow is due, and a wheel that has no base yet holds
  no key.
\<close>

definition wheel_good :: "HierarchicalTimingWheel \<Rightarrow> bool" where
  "wheel_good w \<longleftrightarrow> wheel_ok w \<and> (\<forall>k \<in> overflow w. currentBase w < k * slotGapSeconds w) \<and>
     (\<not> initialized w \<longrightarrow> held w = {})"

lemma base_of_ok:
  assumes "0 \<le> t" "t < time_bound" "0 < g"
  shows "base_of t g = Some (t div g * g)" "0 \<le> t div g * g" "t div g * g \<le> t" "g dvd t div g * g"
proof -
  show 2: "0 \<le> t div g * g" "t div g * g \<le> t" "g dvd t div g * g"
    using assms by (simp_all add: pos_imp_zdiv_nonneg_iff)
      (metis add.commute add_le_cancel_right add_0 div_mult_mod_eq pos_mod_sign)
  then show "base_of t g = Some (t div g * g)"
    using assms by (simp add: base_of_def div64_nonneg mul64_def)
qed

lemma wheel_Advance_ok:
  assumes "range_order order" "wheel_good w" "0 \<le> now" "now < time_bound"
  shows "\<exists>ready w'. wheel_Advance order now w = Some (ready, w') \<and> wheel_good w' \<and>
     slotGapSeconds w' = slotGapSeconds w \<and> initialized w' = initialized w \<and>
     (initialized w \<longrightarrow> currentBase w' = max (currentBase w) (now div slotGapSeconds w * slotGapSeconds w)) \<and>
     held w = held w' \<union> set ready \<and> (\<forall>k \<in> set ready. k * slotGapSeconds w \<le> now) \<and>
     (initialized w \<longrightarrow> currentBase w < now div slotGapSeconds w * slotGapSeconds w \<longrightarrow>
        buckets (levels w ! 0) ! nat (current (levels w ! 0)) \<subseteq> set ready) \<and>
     (located {} w \<longrightarrow> located {} w' \<and> distinct ready \<and> set ready \<inter> held w' = {})"
proof -
  let ?g = "slotGapSeconds w"
  have ok: "wheel_ok w" and W: "wheel_frame_ok w" using assms(2) by (simp_all add: wheel_good_def wheel_inv_def)
  note D = wheel_frame_okD [OF W] and B = base_of_ok [OF assms(3,4), of ?g]
  let ?nb = "now div ?g * ?g"
  show ?thesis
  proof (cases "initialized w \<and> currentBase w < ?nb")
    case False
    then show ?thesis using assms(2) B D(6) by (auto simp: wheel_Advance_def)
  next
    case True
    obtain new w1 where L: "advance_loop order (nat (?nb - currentBase w)) ?nb ([], w) = Some ([] @ new, w1)"
      "wheel_ok w1" "currentBase w1 = ?nb" "slotGapSeconds w1 = ?g" "initialized w1 = initialized w"
      "length (levels w1) = length (levels w)" "held w = held w1 \<union> set new" "\<forall>k \<in> set new. k * ?g < ?nb"
      "located {} w \<longrightarrow> located {} w1 \<and> distinct new \<and> set new \<inter> held w1 = {}"
      "buckets (levels w ! 0) ! nat (current (levels w ! 0)) \<subseteq> set new"
      using advance_loop_ok [OF assms(1) ok, of ?nb "nat (?nb - currentBase w)" "[]"] B D(6) True assms(4) by auto
    have W1: "wheel_frame_ok w1" using L(2) by (simp add: wheel_inv_def)
    note D1 = wheel_frame_okD [OF W1]
    have keys: "\<forall>k \<in> set (order (overflow w1)). key_ok (slotGapSeconds w1) k"
      using D1(5,7) assms(1) by (simp add: held_def)
    obtain out w2 where O: "place_overflow (totalCoverage (levels w1)) (order (overflow w1)) [] w1 = Some ([] @ out, w2)"
      "wheel_ok w2" "same_clock w1 w2" "overflow w2 = overflow w1" "set out \<subseteq> overflow w1"
      "keys_in (levels w2) = keys_in (levels w1) \<union> set out"
      "located {} w1 \<longrightarrow> located {} (w2\<lparr>overflow := overflow w2 - set out\<rparr>)"
      using place_overflow_ok [OF L(2) keys, of "totalCoverage (levels w1)" "[]"] D1(5) assms(1)
        range_order_distinct [OF assms(1) D1(5)] by auto
    have W2: "wheel_frame_ok w2" "timing ?g ?nb (length (levels w2)) (levels w2)"
      and clock: "slotGapSeconds w2 = ?g" "currentBase w2 = ?nb" "initialized w2 = initialized w"
      using O(2,3) L(3-5) by (simp_all add: wheel_inv_def same_clock_def)
    define rest where "rest = overflow w2 - set out"
    define promote where "promote = filter (\<lambda>k. computeSlotTime w2 k \<le> ?nb) (order rest)"
    define w' where "w' = w2\<lparr>overflow := rest - set promote,
        slotLocation := fmfilter (\<lambda>k. k \<notin> set promote) (slotLocation w2)\<rparr>"
    have fin: "finite rest" using O(4) D1(5) by (simp add: rest_def)
    have eq: "wheel_Advance order now w = Some (new @ promote, w')"
      using True B(1) D(6) L(1) O(1) 
      by (simp add: wheel_Advance_def w'_def promote_def rest_def computeSlotTime_def cong del: fmfilter_cong)
    have time: "computeSlotTime w2 k = k * ?g" if "k \<in> rest" for k
    proof -
      have "key_ok ?g k" using that O(4) D1(7) L(4) by (auto simp: rest_def held_def)
      then show ?thesis
        using slot_delta_ok(2) [of w2 k] clock wheel_frame_okD(2,3,6) [OF W2(1)] by simp
    qed
    have pro: "set promote = {k \<in> rest. k * ?g \<le> ?nb}"
      using fin assms(1) time by (auto simp: promote_def)
    have held': "held w = held w' \<union> set (new @ promote)"
      using L(7) O(4-6) pro by (auto simp: held_def w'_def rest_def)
    have "wheel_frame_ok w'"
      using W2(1) fin by (auto simp: wheel_frame_ok_def w'_def held_def rest_def)
    moreover have s: "slotGapSeconds w' = ?g" "currentBase w' = ?nb" "levels w' = levels w2"
        "initialized w' = initialized w" "overflow w' = rest - set promote"
      using clock by (simp_all add: w'_def)
    ultimately have "wheel_ok w'" using W2(2) by (simp add: wheel_inv_def)
    moreover have "\<forall>k \<in> overflow w'. ?nb < k * ?g"
      unfolding s(5) pro not_le [symmetric] by blast
    ultimately have "wheel_good w'" using True s(1,2,4) unfolding wheel_good_def by simp
    moreover have "\<forall>k \<in> set (new @ promote). k * ?g \<le> now"
    proof
      fix k assume "k \<in> set (new @ promote)"
      then have "k * ?g \<le> ?nb" using L(8) unfolding set_append pro by (blast intro: less_imp_le)
      then show "k * ?g \<le> now" using B(3) [OF D(6)] by (rule order_trans)
    qed
    moreover have "located {} w' \<and> distinct (new @ promote) \<and> set (new @ promote) \<inter> held w' = {}"
      if "located {} w"
    proof -
      have l1: "located {} w1" "distinct new" "set new \<inter> held w1 = {}" using L(9) that by blast+
      have l2: "located {} (w2\<lparr>overflow := rest\<rparr>)" using O(7) l1(1) by (simp add: rest_def)
      have none: "fmlookup (slotLocation w2) k = None" "\<not> member (levels w2) j b k" if "k \<in> rest" for k j b
        using l2 located_overflow_disjoint [OF l2, of k] that by (auto simp: located_def)
      have sub: "set promote \<subseteq> rest" using pro by blast
      have "fmfilter (\<lambda>k. k \<notin> set promote) (slotLocation w2) = slotLocation w2"
        using none(1) sub by (intro fmap_ext) auto
      then have "located {} w'" using l2 sub unfolding located_def w'_def by (auto simp: held_def)
      moreover have "set promote \<inter> held w' = {}"
        using none(2) sub by (auto simp: held_def keys_in_def w'_def)
      moreover have "held w' \<subseteq> held w1" "set promote \<subseteq> held w1"
        using O(4-6) sub by (auto simp: held_def w'_def rest_def)
      moreover have "distinct promote" using range_order_distinct [OF assms(1) fin] by (simp add: promote_def)
      ultimately show ?thesis using l1(2,3) by auto
    qed
    moreover have "buckets (levels w ! 0) ! nat (current (levels w ! 0)) \<subseteq> set (new @ promote)"
      using L(10) by auto
    ultimately show ?thesis using eq held' s(1,2,4) True by simp
  qed
qed

section \<open>Adding, removing, resetting\<close>

lemma timing_no_keys: "keys_in ls = {} \<Longrightarrow> timing g B L ls"
  by (auto simp: timing_member keys_in_def)

lemma start_wheel_ok:
  assumes "wheel_good w" "\<not> initialized w" "0 \<le> b" "b < time_bound" "slotGapSeconds w dvd b"
  shows "wheel_good (w\<lparr>currentBase := b, initialized := True\<rparr>)"
proof -
  have "held w = {}" using assms(1,2) by (simp add: wheel_good_def)
  then have e: "keys_in (levels w) = {}" "overflow w = {}" by (auto simp: held_def)
  show ?thesis
    using assms timing_no_keys [OF e(1)] e
    by (simp add: wheel_good_def wheel_inv_def wheel_frame_ok_def held_def)
qed

lemma wheel_Init_ok:
  assumes "wheel_good w" "0 \<le> now" "now < time_bound"
  shows "\<exists>w'. wheel_Init now w = Some w' \<and> wheel_good w' \<and> initialized w' \<and> held w' = held w \<and>
     slotGapSeconds w' = slotGapSeconds w \<and>
     currentBase w' = (if initialized w then currentBase w else now div slotGapSeconds w * slotGapSeconds w) \<and>
     (located {} w \<longrightarrow> located {} w')"
proof (cases "initialized w")
  case True
  then show ?thesis using assms(1) by (simp add: wheel_Init_def)
next
  case False
  have g: "0 < slotGapSeconds w" using assms(1) wheel_frame_okD(6) by (auto simp: wheel_good_def wheel_inv_def)
  note B = base_of_ok [OF assms(2,3) g]
  have "now div slotGapSeconds w * slotGapSeconds w < time_bound" using B(3) assms(3) by linarith
  with start_wheel_ok [OF assms(1) False B(2) _ B(4)] B(1) False show ?thesis
    by (simp add: wheel_Init_def held_def located_def)
qed

lemma wheel_Add_ok:
  assumes "wheel_good w" "key_ok (slotGapSeconds w) k"
  shows "\<exists>w'. wheel_Add k w = Some w' \<and> wheel_good w' \<and> initialized w' \<and> held w' = insert k (held w) \<and>
     slotGapSeconds w' = slotGapSeconds w \<and>
     currentBase w' = (if initialized w then currentBase w else k * slotGapSeconds w) \<and>
     (located {} w \<longrightarrow> k \<notin> held w \<longrightarrow> located {} w')"
proof -
  let ?g = "slotGapSeconds w"
  have W: "wheel_frame_ok w" using assms(1) by (simp add: wheel_good_def wheel_inv_def)
  note D = wheel_frame_okD [OF W]
  have kg: "0 \<le> k * ?g" "k * ?g < time_bound" using assms(2) D(6) by (simp_all add: key_ok_def)
  define w0 where "w0 = (if initialized w then w else w\<lparr>currentBase := k * ?g, initialized := True\<rparr>)"
  have w0: "wheel_good w0" "initialized w0" "slotGapSeconds w0 = ?g" "levels w0 = levels w" "overflow w0 = overflow w"
    using assms(1) start_wheel_ok [OF assms(1) _ kg] by (simp_all add: w0_def)
  have start: "(if initialized w then Some w
      else do { base \<leftarrow> base_of (computeSlotTime w k) ?g; Some (w\<lparr>currentBase := base, initialized := True\<rparr>) }) = Some w0"
  proof -
    have "k * ?g div ?g * ?g = k * ?g" using D(6) by simp
    then show ?thesis
      using base_of_ok(1) [OF kg D(6)] slot_delta_ok(2) [OF assms(2) D(2,3,6)] by (simp add: w0_def)
  qed
  have W0: "wheel_frame_ok w0" "timing ?g (currentBase w0) (length (levels w0)) (levels w0)"
    using w0(1,3) by (simp_all add: wheel_good_def wheel_inv_def)
  have k0: "key_ok (slotGapSeconds w0) k" using assms(2) w0(3) by simp
  obtain j b where jb: "findBucket (levels w0) (slot_delta w0 k) = Some (Some \<lparr>loc_level = j, loc_bucket = int b\<rparr>)"
    "j < length (levels w0)" "b < length (buckets (levels w0 ! j))"
    "slot_ok ?g (currentBase w0) (length (levels w0)) (levels w0) j b k"
    using locate_key [OF W0(1) k0 order_refl] w0(3) by metis
  define w1 where "w1 = w0\<lparr>levels := put (insert k) j b (levels w0),
      slotLocation := fmupd k \<lparr>loc_level = j, loc_bucket = int b\<rparr> (slotLocation w0)\<rparr>"
  note P = place_ok [OF W0(1) k0 jb(2,3)]
  have eq: "wheel_Add k w = Some w1"
    using jb(1) P(1) unfolding wheel_Add_def start by (simp add: w1_def)
  have "wheel_ok w1"
    using P(2) timing_put_insert [OF W0(2) jb(2-4)] w0(3) by (simp add: w1_def wheel_inv_def)
  moreover have "held w1 = insert k (held w)" using P(3) w0(4,5) by (simp add: w1_def held_def)
  moreover have "initialized w1" "slotGapSeconds w1 = ?g" "currentBase w1 = currentBase w0" "overflow w1 = overflow w0"
    using w0 by (simp_all add: w1_def)
  moreover have "currentBase w0 = (if initialized w then currentBase w else k * ?g)" by (simp add: w0_def)
  moreover have "located {} w1" if "located {} w" "k \<notin> held w"
  proof -
    have "slotLocation w0 = slotLocation w" by (simp add: w0_def)
    then have "located {} w0" "k \<notin> held w0" using that w0(4,5) by (simp_all add: located_def held_def)
    from located_place [OF this(1) jb(2,3) this(2)] show ?thesis by (simp add: w1_def)
  qed
  ultimately show ?thesis using eq w0(1,3) by (simp add: wheel_good_def)
qed

lemma keys_in_put_remove:
  assumes "j < length ls" "b < length (buckets (ls ! j))"
  shows "keys_in (put (\<lambda>S. S - {k}) j b ls) \<subseteq> keys_in ls" "keys_in ls - {k} \<subseteq> keys_in (put (\<lambda>S. S - {k}) j b ls)"
  using assms by (auto simp: keys_in_def member_put) (auto simp: member_def split: if_splits)

lemma wheel_Remove_ok:
  assumes "wheel_good w"
  shows "\<exists>w'. wheel_Remove k w = Some w' \<and> wheel_good w' \<and> held w' \<subseteq> held w \<and> held w - {k} \<subseteq> held w' \<and>
     slotGapSeconds w' = slotGapSeconds w \<and> currentBase w' = currentBase w \<and> initialized w' = initialized w \<and>
     (located {} w \<longrightarrow> located {} w' \<and> held w' = held w - {k})"
proof (cases "fmlookup (slotLocation w) k")
  case None
  let ?w' = "w\<lparr>overflow := overflow w - {k}\<rparr>"
  have "wheel_Remove k w = Some ?w'" using None by (simp add: wheel_Remove_def)
  moreover have "wheel_good ?w'"
    using assms by (auto simp: wheel_good_def wheel_inv_def wheel_frame_ok_def held_def)
  moreover have "located {} ?w' \<and> held ?w' = held w - {k}" if "located {} w"
  proof -
    have "\<not> member (levels w) j b k" for j b
      using that None unfolding located_def by (metis empty_iff option.distinct(1))
    then show ?thesis using that by (auto simp: located_def held_def keys_in_def)
  qed
  ultimately show ?thesis by (auto simp: held_def)
next
  case (Some loc)
  have W: "wheel_frame_ok w" using assms by (simp add: wheel_good_def wheel_inv_def)
  then have loc: "loc_ok (levels w) loc" using Some by (simp add: wheel_frame_ok_def)
  define j b where "j = loc_level loc" and "b = nat (loc_bucket loc)"
  have jb: "j < length (levels w)" "b < length (buckets (levels w ! j))" "loc = \<lparr>loc_level = j, loc_bucket = int b\<rparr>"
    using loc by (simp_all add: loc_ok_def j_def b_def)
  let ?ls = "put (\<lambda>S. S - {k}) j b (levels w)"
  define w' where "w' = w\<lparr>levels := ?ls, slotLocation := fmdrop k (slotLocation w)\<rparr>"
  have eq: "wheel_Remove k w = Some w'"
    using Some at_bucket_put [OF jb(1,2)] by (simp add: wheel_Remove_def w'_def jb(3))
  note K = keys_in_put_remove [OF jb(1,2)]
  have "wheel_frame_ok (w\<lparr>levels := ?ls\<rparr>)"
    using frame_ok_sub [OF W levels_ok_put [OF wheel_frame_okD(1) [OF W] jb(1,2)] loc_ok_frame [OF put_frame [OF jb(1)]] K(1)]
    by simp
  then have "wheel_frame_ok w'" by (auto simp: wheel_frame_ok_def w'_def held_def)
  moreover have "timing (slotGapSeconds w) (currentBase w) (length (levels w)) ?ls"
    using assms timing_put_shrink [OF _ jb(1,2)] by (auto simp: wheel_good_def wheel_inv_def)
  ultimately have "wheel_ok w'" by (simp add: wheel_inv_def w'_def)
  moreover have held: "held w' \<subseteq> held w" "held w - {k} \<subseteq> held w'" using K by (auto simp: held_def w'_def)
  ultimately have "wheel_good w'" using assms by (auto simp: wheel_good_def w'_def)
  moreover have "located {} w' \<and> held w' = held w - {k}" if l: "located {} w"
  proof -
    have m: "member (levels w) j b k" using l Some jb(3) by (auto simp: located_def)
    then have "k \<notin> overflow w" using located_overflow_disjoint [OF l] by blast
    moreover have mem: "member ?ls i x q \<longleftrightarrow> member (levels w) i x q \<and> q \<noteq> k" for i x q
      using located_unique [OF l m] jb(1,2) by (auto simp: member_put) (auto simp: member_def)
    ultimately show ?thesis using l by (auto simp: located_def held_def keys_in_def w'_def mem)
  qed
  ultimately show ?thesis using eq held by (simp add: w'_def)
qed

lemma levels_ok_reset:
  assumes "levels_ok g ls"
  shows "levels_ok g (map (\<lambda>l. l\<lparr>buckets := map (\<lambda>b. {}) (buckets l), current := 0\<rparr>) ls)"
    "keys_in (map (\<lambda>l. l\<lparr>buckets := map (\<lambda>b. {}) (buckets l), current := 0\<rparr>) ls) = {}"
proof -
  have "0 < length ls" using assms by (auto simp: levels_ok_def)
  then show "levels_ok g (map (\<lambda>l. l\<lparr>buckets := map (\<lambda>b. {}) (buckets l), current := 0\<rparr>) ls)"
    using assms by (auto simp: levels_ok_def level_ok_def)
  show "keys_in (map (\<lambda>l. l\<lparr>buckets := map (\<lambda>b. {}) (buckets l), current := 0\<rparr>) ls) = {}"
    by (auto simp: keys_in_def member_def)
qed

lemma wheel_Reset_ok:
  assumes "wheel_good w"
  shows "wheel_good (wheel_Reset w)" "held (wheel_Reset w) = {}" "\<not> initialized (wheel_Reset w)"
    "slotGapSeconds (wheel_Reset w) = slotGapSeconds w" "located {} (wheel_Reset w)"
proof -
  have W: "wheel_frame_ok w" using assms by (simp add: wheel_good_def wheel_inv_def)
  note R = levels_ok_reset [OF wheel_frame_okD(1) [OF W]]
  show h: "held (wheel_Reset w) = {}" using R(2) by (simp add: held_def wheel_Reset_def)
  show g: "slotGapSeconds (wheel_Reset w) = slotGapSeconds w" by (simp add: wheel_Reset_def)
  show i: "\<not> initialized (wheel_Reset w)" by (simp add: wheel_Reset_def)
  show "located {} (wheel_Reset w)"
    using R(2) by (auto simp: located_def held_def keys_in_def wheel_Reset_def)
  have "timing g' B L (levels (wheel_Reset w))" for g' B L
    using timing_no_keys [OF R(2)] by (simp add: wheel_Reset_def)
  moreover have "wheel_frame_ok (wheel_Reset w)"
    using wheel_frame_okD [OF W] R(1) h g unfolding wheel_frame_ok_def by (simp add: wheel_Reset_def)
  ultimately show "wheel_good (wheel_Reset w)" using h by (simp add: wheel_good_def wheel_inv_def wheel_Reset_def)
qed

lemma default_wheel_good:
  assumes "0 < n" "n * 3153600 < time_bound div 1000000000"
  shows "\<exists>w. NewHierarchicalTimingWheel (n * Second) (DefaultWheelConfigs (n * Second)) = Some w \<and>
     wheel_good w \<and> held w = {} \<and> slotGapSeconds w = n \<and> \<not> initialized w \<and> located {} w"
proof -
  have ne: "n * Second \<noteq> 0" using assms(1) by (simp add: Second_def)
  have b: "n * Second * 360 = (n * 360) * Second" "n * Second * 360 * 24 = (n * 8640) * Second" by simp_all
  have m: "mul64 (n * Second) 360 = (n * 360) * Second" "mul64 ((n * 360) * Second) 24 = (n * 8640) * Second"
    using assms by (simp_all add: mul64_def Second_def in64_def)
  define ls where "ls = [\<lparr>granularity = n, bucketCount = 360, buckets = replicate 360 {}, current = 0\<rparr>,
     \<lparr>granularity = n * 360, bucketCount = 24, buckets = replicate 24 {}, current = 0\<rparr>,
     \<lparr>granularity = n * 8640, bucketCount = 365, buckets = replicate 365 ({} :: int set), current = 0\<rparr>]"
  define w where "w = \<lparr>levels = ls, currentBase = 0, wheelSlotGap = n * Second, slotLocation = fmempty,
     overflow = {}, initialized = False\<rparr>"
  have eq: "NewHierarchicalTimingWheel (n * Second) (DefaultWheelConfigs (n * Second)) = Some w"
    using ne m by (simp add: NewHierarchicalTimingWheel_def DefaultWheelConfigs_def newLevel_def w_def ls_def)
  have g: "slotGapSeconds w = n" using assms(1) by (simp add: slotGapSeconds_def w_def)
  have "finite x" if "x \<in> set (replicate c {})" for x :: "int set" and c using that by (simp split: if_splits)
  then have "\<forall>l \<in> set ls. level_ok l" using assms by (simp add: ls_def level_ok_def del: set_replicate_conv_if)
  moreover have "granularity (ls ! Suc i) = granularity (ls ! i) * bucketCount (ls ! i)" if "Suc i < length ls" for i
  proof -
    from that have "i = 0 \<or> i = 1" by (auto simp: ls_def)
    then show ?thesis by (auto simp: ls_def)
  qed
  ultimately have ok: "levels_ok n ls" by (simp add: levels_ok_def) (simp add: ls_def)
  have none: "keys_in ls = {}"
  proof -
    have "ls ! j = ls ! 0 \<or> ls ! j = ls ! 1 \<or> ls ! j = ls ! 2" if "j < length ls" for j
    proof -
      from that have "j = 0 \<or> j = 1 \<or> j = 2" by (auto simp: ls_def)
      then show ?thesis by auto
    qed
    then show ?thesis by (fastforce simp: keys_in_def member_def ls_def)
  qed
  have "wheel_frame_ok w"
    using ok none g unfolding wheel_frame_ok_def by (simp add: w_def held_def)
  moreover have "held w = {}" "timing n 0 (length ls) ls"
    using none timing_no_keys [OF none] by (simp_all add: held_def w_def)
  ultimately have "wheel_good w" using g unfolding wheel_good_def wheel_inv_def by (simp add: w_def)
  moreover have "located {} w" using none by (auto simp: located_def w_def held_def keys_in_def)
  ultimately show ?thesis using eq g \<open>held w = {}\<close> by (simp add: w_def)
qed

section \<open>Which keys can be due\<close>

lemma bdist_range:
  assumes "levels_ok g ls" "j < length ls"
  shows "0 \<le> bdist (ls ! j) b"
  using levels_okD(2) [OF assms] by (simp add: bdist_def)

lemma upper_not_due:
  assumes "levels_ok g ls" "timing g B (length ls) ls" "member ls j b k" "j \<noteq> 0"
  shows "B + g \<le> k * g"
proof -
  have j: "j < length ls" using assms(3) by (simp add: member_def)
  have "slot_ok g B (length ls) ls j b k" using assms(2,3) by (simp add: timing_member)
  then have s: "B + g + (\<Sum>i<j. slack (ls ! i)) + bdist (ls ! j) b * granularity (ls ! j) \<le> k * g"
    using assms(4) j by (simp add: slot_ok_def due_def)
  have "0 \<le> slack (ls ! i)" if "i < j" for i
    using levels_okD(1,6) [OF assms(1), of i] that j by (simp add: slack_def)
  then have "0 \<le> (\<Sum>i<j. slack (ls ! i))" by (intro sum_nonneg) simp
  moreover have "0 \<le> bdist (ls ! j) b * granularity (ls ! j)"
    using bdist_range [OF assms(1) j] levels_okD(1) [OF assms(1) j] by simp
  ultimately show ?thesis using s by linarith
qed

text \<open>A key that is due sits in the current bucket of the lowest level.\<close>

lemma due_key_current:
  assumes "wheel_good w" "k \<in> held w" "k * slotGapSeconds w \<le> currentBase w"
  shows "k \<in> buckets (levels w ! 0) ! nat (current (levels w ! 0))"
proof -
  let ?g = "slotGapSeconds w" and ?B = "currentBase w" and ?ls = "levels w"
  have W: "wheel_frame_ok w" "timing ?g ?B (length ?ls) ?ls" "\<forall>k \<in> overflow w. ?B < k * ?g"
    using assms(1) by (simp_all add: wheel_good_def wheel_inv_def)
  note D = wheel_frame_okD [OF W(1)]
  have "k \<notin> overflow w" using W(3) assms(3) by auto
  then obtain j b where m: "member ?ls j b k" using assms(2) by (auto simp: held_def keys_in_def)
  have j: "j = 0" using upper_not_due [OF D(1) W(2) m] assms(3) D(6) by linarith
  have len: "0 < length ?ls" "b < length (buckets (?ls ! 0))" "k \<in> buckets (?ls ! 0) ! b"
    using m j by (auto simp: member_def)
  have "slot_ok ?g ?B (length ?ls) ?ls 0 b k" using W(2) m j by (simp add: timing_member)
  then have "bdist (?ls ! 0) b = 0" using assms(3) D(6) by (simp add: slot_ok_def max_def split: if_splits)
  then have "b = nat (current (?ls ! 0))"
    using bdist_turn(2) [OF D(1) len(1,2)] by fastforce
  then show ?thesis using len(3) by simp
qed

section \<open>The least time\<close>

definition min_rep :: "int \<Rightarrow> int set \<Rightarrow> bool" where
  "min_rep m Y \<longleftrightarrow> finite Y \<and> (\<forall>y \<in> Y. 0 \<le> y) \<and> m = (if Y = {} then - 1 else Min Y)"

lemma min_rep_none:
  assumes "min_rep m Y"
  shows "m = - 1 \<longleftrightarrow> Y = {}"
proof (cases "Y = {}")
  case False
  then have "m \<in> Y" "\<forall>y \<in> Y. 0 \<le> y" using assms Min_in [of Y] by (auto simp: min_rep_def)
  then show ?thesis using False by force
qed (use assms in \<open>simp add: min_rep_def\<close>)

lemma min_rep_insert:
  assumes "min_rep m Y" "0 \<le> t"
  shows "min_rep (if m = - 1 \<or> t < m then t else m) (insert t Y)"
proof (cases "Y = {}")
  case True
  then show ?thesis using assms by (simp add: min_rep_def)
next
  case False
  then have m: "m = Min Y" "finite Y" "0 \<le> m" "\<forall>y \<in> Y. 0 \<le> y" using assms(1) by (auto simp: min_rep_def)
  then have "Min (insert t Y) = min t m" using False by simp
  moreover have "(if m = - 1 \<or> t < m then t else m) = min t m" using m(3) by auto
  ultimately show ?thesis using m assms(2) by (simp add: min_rep_def)
qed

lemma min_time_rep:
  assumes "min_rep m Y" "\<And>k. k \<in> set ks \<Longrightarrow> 0 \<le> computeSlotTime w k"
  shows "min_rep (min_time w ks m) (Y \<union> computeSlotTime w ` set ks)"
  using assms unfolding min_time_def
proof (induction ks arbitrary: m Y)
  case Nil
  then show ?case by simp
next
  case (Cons k ks)
  have "min_rep (if m = - 1 \<or> computeSlotTime w k < m then computeSlotTime w k else m) (insert (computeSlotTime w k) Y)"
    using Cons.prems by (intro min_rep_insert) simp_all
  from Cons.IH [OF this] Cons.prems(2) show ?case by simp
qed

lemma filter_hd:
  assumes "filter P xs = b # bs"
  shows "b \<in> set xs" "P b"
proof -
  have "b \<in> set (filter P xs)" unfolding assms by simp
  then show "b \<in> set xs" "P b" by simp_all
qed

lemma first_bucket_facts:
  assumes "level_ok l"
  shows "first_bucket l = {} \<or> first_bucket l \<in> set (buckets l)"
    and "first_bucket l = {} \<longleftrightarrow> (\<forall>b \<in> set (buckets l). b = {})"
    and "buckets l ! nat (current l) \<noteq> {} \<Longrightarrow> first_bucket l = buckets l ! nat (current l)"
proof -
  have ok: "0 < bucketCount l" "length (buckets l) = nat (bucketCount l)" "0 \<le> current l" "current l < bucketCount l"
    using assms by (auto simp: level_ok_def)
  let ?f = "\<lambda>offset. buckets l ! nat ((current l + int offset) smod bucketCount l)"
  let ?xs = "map ?f [0..<nat (bucketCount l)]"
  have idx: "(current l + int i) smod bucketCount l = (current l + int i) mod bucketCount l" for i
    using ok by (simp add: smod_nonneg_eq)
  have "set ?xs \<subseteq> set (buckets l)" using ok by (auto simp: idx nat_less_iff intro!: nth_mem)
  moreover have "set (buckets l) \<subseteq> set ?xs"
  proof
    fix b assume "b \<in> set (buckets l)"
    then obtain i where i: "i < length (buckets l)" "b = buckets l ! i" by (auto simp: in_set_conv_nth)
    let ?o = "nat ((int i - current l) mod bucketCount l)"
    have "(current l + int ?o) mod bucketCount l = int i"
      using ok i(1) by (simp add: mod_add_right_eq)
    moreover have "?o < nat (bucketCount l)" using ok by (simp add: nat_less_iff)
    ultimately have "b = ?f ?o" "?o \<in> set [0..<nat (bucketCount l)]" using i(2) idx [of ?o] by simp_all
    then show "b \<in> set ?xs" unfolding set_map by (rule image_eqI)
  qed
  ultimately have xs: "set ?xs = set (buckets l)" by blast
  show "first_bucket l = {} \<or> first_bucket l \<in> set (buckets l)"
    unfolding first_bucket_def xs [symmetric]
    by (cases "filter (\<lambda>b. b \<noteq> {}) ?xs") (simp_all only: list.case filter_hd simp_thms)
  show "first_bucket l = {} \<longleftrightarrow> (\<forall>b \<in> set (buckets l). b = {})"
    unfolding first_bucket_def xs [symmetric]
  proof (cases "filter (\<lambda>b. b \<noteq> {}) ?xs")
    case Nil
    then have "\<forall>b \<in> set ?xs. b = {}" unfolding filter_empty_conv by blast
    then show "(case filter (\<lambda>b. b \<noteq> {}) ?xs of [] \<Rightarrow> {} | b # bs \<Rightarrow> b) = {} \<longleftrightarrow> (\<forall>b \<in> set ?xs. b = {})"
      unfolding Nil by (simp only: list.case simp_thms)
  next
    case (Cons b bs)
    from filter_hd [OF Cons]
    show "(case filter (\<lambda>b. b \<noteq> {}) ?xs of [] \<Rightarrow> {} | b # bs \<Rightarrow> b) = {} \<longleftrightarrow> (\<forall>b \<in> set ?xs. b = {})"
      unfolding Cons list.case by blast
  qed
  show "first_bucket l = buckets l ! nat (current l)" if "buckets l ! nat (current l) \<noteq> {}"
  proof -
    have "[0..<nat (bucketCount l)] = 0 # [1..<nat (bucketCount l)]" using ok(1) by (simp add: upt_conv_Cons)
    then have "?xs = ?f 0 # map ?f [1..<nat (bucketCount l)]" by simp
    moreover have "?f 0 = buckets l ! nat (current l)" using idx [of 0] ok by simp
    ultimately show ?thesis using that by (simp add: first_bucket_def)
  qed
qed

text \<open>\<open>PeekMin\<close> is the least time over the candidates: the first non-empty bucket of each level.\<close>

lemma PeekMin_rep:
  assumes "range_order order" "wheel_good w" "initialized w"
  shows "min_rep (PeekMin order w)
     ((\<lambda>k. k * slotGapSeconds w) ` ((\<Union>l \<in> set (levels w). first_bucket l) \<union> overflow w))"
proof -
  have W: "wheel_frame_ok w" using assms(2) by (simp add: wheel_good_def wheel_inv_def)
  note D = wheel_frame_okD [OF W]
  let ?T = "\<lambda>k. k * slotGapSeconds w"
  have lv: "level_ok l" if "l \<in> set (levels w)" for l using D(1) that by (simp add: levels_ok_def)
  have sub: "first_bucket l \<subseteq> held w" if l: "l \<in> set (levels w)" for l
  proof
    fix k assume k: "k \<in> first_bucket l"
    then have "first_bucket l \<in> set (buckets l)" using first_bucket_facts(1) [OF lv [OF l]] by auto
    then obtain b where "b < length (buckets l)" "first_bucket l = buckets l ! b" by (auto simp: in_set_conv_nth)
    moreover obtain j where "j < length (levels w)" "l = levels w ! j" using l by (auto simp: in_set_conv_nth)
    ultimately have "member (levels w) j b k" using k by (simp add: member_def)
    then show "k \<in> held w" by (auto simp: held_def keys_in_def)
  qed
  have time: "computeSlotTime w k = ?T k" "0 \<le> ?T k" if "k \<in> held w" for k
    using slot_delta_ok(2) [OF D(7) [OF that] D(2,3,6)] D(6) D(7) [OF that] by (simp_all add: key_ok_def)
  have fin: "finite (first_bucket l)" if l: "l \<in> set (levels w)" for l
    using first_bucket_facts(1) [OF lv [OF l]] lv [OF l] by (auto simp: level_ok_def)
  have levels: "min_rep (fold (\<lambda>l m. min_time w (order (first_bucket l)) m) ls m)
      (Y \<union> ?T ` (\<Union>l \<in> set ls. first_bucket l))"
    if "min_rep m Y" "set ls \<subseteq> set (levels w)" for ls m Y
    using that
  proof (induction ls arbitrary: m Y)
    case Nil
    then show ?case by simp
  next
    case (Cons l ls)
    have l: "l \<in> set (levels w)" using Cons.prems(2) by simp
    have o: "set (order (first_bucket l)) = first_bucket l" using assms(1) fin [OF l] by simp
    have "min_rep (min_time w (order (first_bucket l)) m) (Y \<union> computeSlotTime w ` first_bucket l)"
    proof -
      have "0 \<le> computeSlotTime w k" if "k \<in> set (order (first_bucket l))" for k
      proof -
        have "k \<in> held w" using that o sub [OF l] by blast
        then show ?thesis using time by simp
      qed
      then have "min_rep (min_time w (order (first_bucket l)) m)
          (Y \<union> computeSlotTime w ` set (order (first_bucket l)))"
        by (rule min_time_rep [OF Cons.prems(1)])
      then show ?thesis unfolding o .
    qed
    moreover have "computeSlotTime w ` first_bucket l = ?T ` first_bucket l"
      using sub [OF l] time(1) by (intro image_cong) auto
    ultimately show ?case
      using Cons.IH [of _ "Y \<union> ?T ` first_bucket l"] Cons.prems(2) by (simp add: image_Un Un_assoc)
  qed
  have "min_rep (fold (\<lambda>l m. min_time w (order (first_bucket l)) m) (levels w) (- 1))
      (?T ` (\<Union>l \<in> set (levels w). first_bucket l))"
    using levels [of "- 1" "{}" "levels w"] by (simp add: min_rep_def)
  moreover have o: "set (order (overflow w)) = overflow w" using assms(1) D(5) by simp
  moreover have "computeSlotTime w ` overflow w = ?T ` overflow w"
    using time(1) by (intro image_cong) (auto simp: held_def)
  ultimately show ?thesis
    using min_time_rep [of _ _ "order (overflow w)" w] time assms(3)
    by (simp add: PeekMin_def image_Un held_def)
qed

lemma PeekMin_facts:
  assumes "range_order order" "wheel_good w" "initialized w"
  shows "PeekMin order w = - 1 \<longleftrightarrow> held w = {}"
    and "PeekMin order w \<noteq> - 1 \<Longrightarrow> \<exists>k \<in> held w. PeekMin order w = k * slotGapSeconds w"
    and "k \<in> held w \<Longrightarrow> k * slotGapSeconds w \<le> currentBase w \<Longrightarrow>
      PeekMin order w = Min ((\<lambda>k. k * slotGapSeconds w) ` held w)"
proof -
  have W: "wheel_frame_ok w" using assms(2) by (simp add: wheel_good_def wheel_inv_def)
  note D = wheel_frame_okD [OF W]
  let ?T = "\<lambda>k. k * slotGapSeconds w"
  let ?X = "(\<Union>l \<in> set (levels w). first_bucket l) \<union> overflow w"
  have lv: "level_ok l" if "l \<in> set (levels w)" for l using D(1) that by (simp add: levels_ok_def)
  have keys: "keys_in (levels w) = (\<Union>l \<in> set (levels w). \<Union> (set (buckets l)))"
  proof (intro equalityI subsetI)
    fix k assume "k \<in> keys_in (levels w)"
    then obtain j b where "j < length (levels w)" "b < length (buckets (levels w ! j))" "k \<in> buckets (levels w ! j) ! b"
      by (auto simp: keys_in_def member_def)
    then show "k \<in> (\<Union>l \<in> set (levels w). \<Union> (set (buckets l)))"
      by (auto intro!: bexI [of _ "levels w ! j"] bexI [of _ "buckets (levels w ! j) ! b"])
  next
    fix k assume "k \<in> (\<Union>l \<in> set (levels w). \<Union> (set (buckets l)))"
    then obtain l B where "l \<in> set (levels w)" "B \<in> set (buckets l)" "k \<in> B" by blast
    then show "k \<in> keys_in (levels w)" unfolding in_set_conv_nth keys_in_def member_def by blast
  qed
  have sub: "?X \<subseteq> held w"
    using first_bucket_facts(1) [OF lv] unfolding held_def keys by blast
  have rep: "min_rep (PeekMin order w) (?T ` ?X)" by (rule PeekMin_rep [OF assms])
  have empty: "?X = {} \<longleftrightarrow> held w = {}"
  proof -
    have "(\<forall>l \<in> set (levels w). first_bucket l = {}) \<longleftrightarrow> (\<forall>l \<in> set (levels w). \<forall>b \<in> set (buckets l). b = {})"
      using first_bucket_facts(2) [OF lv] by (intro ball_cong) simp_all
    then show ?thesis unfolding held_def keys by simp
  qed
  then show *: "PeekMin order w = - 1 \<longleftrightarrow> held w = {}"
    using min_rep_none [OF rep] by simp
  show "\<exists>k \<in> held w. PeekMin order w = ?T k" if "PeekMin order w \<noteq> - 1"
  proof -
    have "?T ` ?X \<noteq> {}" "finite (?T ` ?X)" "PeekMin order w = Min (?T ` ?X)"
      using rep that by (auto simp: min_rep_def split: if_splits)
    then have "PeekMin order w \<in> ?T ` ?X" using Min_in by metis
    then show ?thesis using sub by blast
  qed
  show "PeekMin order w = Min (?T ` held w)" if k: "k \<in> held w" "?T k \<le> currentBase w"
  proof -
    let ?c = "buckets (levels w ! 0) ! nat (current (levels w ! 0))"
    have len: "0 < length (levels w)" using D(1) by (auto simp: levels_ok_def)
    have due: "q \<in> ?c" if "q \<in> held w" "?T q \<le> currentBase w" for q
      by (rule due_key_current [OF assms(2) that])
    have "?c = first_bucket (levels w ! 0)"
      using first_bucket_facts(3) [OF lv, of "levels w ! 0"] due [OF k] len nth_mem [OF len] by auto
    then have cX: "?c \<subseteq> ?X" using len by (auto intro!: bexI [of _ "levels w ! 0"])
    have fin: "finite (held w)"
    proof -
      have "finite (keys_in (levels w))" unfolding keys using lv by (auto simp: level_ok_def)
      then show ?thesis using D(5) by (simp add: held_def)
    qed
    have "Min (?T ` held w) \<in> ?T ` held w" using fin k(1) by (intro Min_in) auto
    then obtain q where q: "q \<in> held w" "Min (?T ` held w) = ?T q" by blast
    have "?T q \<le> ?T k" unfolding q(2) [symmetric] using fin k(1) by (intro Min_le) auto
    then have qX: "q \<in> ?X" using due [OF q(1)] k(2) cX by auto
    have finX: "finite (?T ` ?X)" "PeekMin order w = Min (?T ` ?X)"
      using rep qX by (auto simp: min_rep_def)
    have "Min (?T ` ?X) \<le> ?T q" using finX(1) qX by (intro Min_le) auto
    moreover have "?T q \<le> Min (?T ` ?X)"
      unfolding q(2) [symmetric] using qX sub fin by (intro Min_antimono image_mono) auto
    ultimately show ?thesis using finX(2) q(2) by simp
  qed
qed

end
