(* ===== verification/Wheel_Properties.thy ===== *)
theory Wheel_Properties
  imports Wheel_Invariants
begin

text \<open>
  The contract that the slot queue needs of an index of slots, as the locale \<open>slot_index\<close>,
  the timing wheel as its instance, and the properties of the wheel: it never panics on a
  well-formed configuration, it loses no key, it returns no key before its time and every
  due key at the next move of its base, and \<open>PeekMin\<close> finds the least time whenever a key
  is due.
\<close>

section \<open>The contract\<close>

locale slot_index =
  fixes good :: "'w \<Rightarrow> bool" and keys :: "'w \<Rightarrow> int set" and gap :: "'w \<Rightarrow> int"
    and started :: "'w \<Rightarrow> bool"
    and init :: "int \<Rightarrow> 'w \<Rightarrow> 'w option"
    and add :: "int \<Rightarrow> 'w \<Rightarrow> 'w option"
    and remove :: "int \<Rightarrow> 'w \<Rightarrow> 'w option"
    and advance :: "int \<Rightarrow> 'w \<Rightarrow> (int list \<times> 'w) option"
    and peek :: "'w \<Rightarrow> int"
  assumes init_law: "good w \<Longrightarrow> 0 \<le> now \<Longrightarrow> now < time_bound \<Longrightarrow>
      \<exists>w'. init now w = Some w' \<and> good w' \<and> started w' \<and> keys w' = keys w \<and> gap w' = gap w"
    and add_law: "good w \<Longrightarrow> key_ok (gap w) k \<Longrightarrow>
      \<exists>w'. add k w = Some w' \<and> good w' \<and> started w' \<and> keys w' = insert k (keys w) \<and> gap w' = gap w"
    and remove_law: "good w \<Longrightarrow>
      \<exists>w'. remove k w = Some w' \<and> good w' \<and> started w' = started w \<and> gap w' = gap w \<and>
        keys w - {k} \<subseteq> keys w' \<and> keys w' \<subseteq> keys w"
    and advance_law: "good w \<Longrightarrow> 0 \<le> now \<Longrightarrow> now < time_bound \<Longrightarrow>
      \<exists>ready w'. advance now w = Some (ready, w') \<and> good w' \<and> started w' = started w \<and> gap w' = gap w \<and>
        keys w = keys w' \<union> set ready \<and> (\<forall>k \<in> set ready. k * gap w \<le> now)"
    and peek_none: "good w \<Longrightarrow> started w \<Longrightarrow> peek w = - 1 \<longleftrightarrow> keys w = {}"
    and peek_some: "good w \<Longrightarrow> started w \<Longrightarrow> peek w \<noteq> - 1 \<Longrightarrow> \<exists>k \<in> keys w. peek w = k * gap w"
    and gap_pos: "good w \<Longrightarrow> 0 < gap w"

text \<open>Adding or removing the keys of a list, one after the other.\<close>

fun each :: "('k \<Rightarrow> 'w \<Rightarrow> 'w option) \<Rightarrow> 'k list \<Rightarrow> 'w \<Rightarrow> 'w option" where
  "each f [] w = Some w"
| "each f (k # ks) w = f k w \<bind> each f ks"

context slot_index
begin

lemma add_all:
  assumes "good w" "\<forall>k \<in> set ks. key_ok (gap w) k"
  shows "\<exists>w'. each add ks w = Some w' \<and> good w' \<and> keys w' = keys w \<union> set ks \<and> gap w' = gap w \<and>
     (started w' \<longleftrightarrow> started w \<or> ks \<noteq> [])"
  using assms
proof (induction ks arbitrary: w)
  case Nil
  then show ?case by simp
next
  case (Cons k ks)
  obtain w1 where w1: "add k w = Some w1" "good w1" "started w1" "keys w1 = insert k (keys w)" "gap w1 = gap w"
    using add_law [OF Cons.prems(1), of k] Cons.prems(2) by auto
  from Cons.IH [OF w1(2)] Cons.prems(2) w1 show ?case by auto
qed

lemma remove_all:
  assumes "good w"
  shows "\<exists>w'. each remove ks w = Some w' \<and> good w' \<and> started w' = started w \<and> gap w' = gap w \<and>
     keys w - set ks \<subseteq> keys w' \<and> keys w' \<subseteq> keys w"
  using assms
proof (induction ks arbitrary: w)
  case Nil
  then show ?case by simp
next
  case (Cons k ks)
  obtain w1 where w1: "remove k w = Some w1" "good w1" "started w1 = started w" "gap w1 = gap w"
    "keys w - {k} \<subseteq> keys w1" "keys w1 \<subseteq> keys w"
    using remove_law [OF Cons.prems, of k] by auto
  obtain w' where w': "each remove ks w1 = Some w'" "good w'" "started w' = started w1" "gap w' = gap w1"
    "keys w1 - set ks \<subseteq> keys w'" "keys w' \<subseteq> keys w1"
    using Cons.IH [OF w1(2)] by blast
  have "keys w - set (k # ks) \<subseteq> keys w'" "keys w' \<subseteq> keys w" using w1(5,6) w'(5,6) by auto
  then show ?case using w1 w' by simp
qed

text \<open>After an advance, what \<open>peek\<close> reports is still a key that was there before.\<close>

lemma advance_peek:
  assumes "good w" "started w" "0 \<le> now" "now < time_bound"
  obtains ready w' where "advance now w = Some (ready, w')" "good w'" "started w'"
    "peek w' \<noteq> - 1 \<Longrightarrow> \<exists>k \<in> keys w. peek w' = k * gap w"
proof -
  obtain ready w' where w': "advance now w = Some (ready, w')" "good w'" "started w'" "gap w' = gap w"
    "keys w = keys w' \<union> set ready"
    using advance_law [OF assms(1,3,4)] assms(2) by auto
  from that [OF w'(1-3)] peek_some [OF w'(2,3)] w'(4,5) show ?thesis by auto
qed

end

section \<open>The wheel as an instance\<close>

lemma wheel_slot_index:
  assumes "range_order order"
  shows "slot_index wheel_good held slotGapSeconds initialized wheel_Init wheel_Add wheel_Remove
     (wheel_Advance order) (PeekMin order)"
proof unfold_locales
  fix w now k
  assume w: "wheel_good w"
  show "0 < slotGapSeconds w"
    using w wheel_frame_okD(6) by (auto simp: wheel_good_def wheel_inv_def)
  show "\<exists>w'. wheel_Init now w = Some w' \<and> wheel_good w' \<and> initialized w' \<and> held w' = held w \<and>
      slotGapSeconds w' = slotGapSeconds w" if "0 \<le> now" "now < time_bound"
    using wheel_Init_ok [OF w that] by blast
  show "\<exists>w'. wheel_Add k w = Some w' \<and> wheel_good w' \<and> initialized w' \<and> held w' = insert k (held w) \<and>
      slotGapSeconds w' = slotGapSeconds w" if "key_ok (slotGapSeconds w) k"
    using wheel_Add_ok [OF w that] by blast
  show "\<exists>w'. wheel_Remove k w = Some w' \<and> wheel_good w' \<and> initialized w' = initialized w \<and>
      slotGapSeconds w' = slotGapSeconds w \<and> held w - {k} \<subseteq> held w' \<and> held w' \<subseteq> held w"
    using wheel_Remove_ok [OF w, of k] by blast
  show "\<exists>ready w'. wheel_Advance order now w = Some (ready, w') \<and> wheel_good w' \<and> initialized w' = initialized w \<and>
      slotGapSeconds w' = slotGapSeconds w \<and> held w = held w' \<union> set ready \<and>
      (\<forall>k \<in> set ready. k * slotGapSeconds w \<le> now)" if "0 \<le> now" "now < time_bound"
    using wheel_Advance_ok [OF assms w that] by blast
  show "(PeekMin order w = - 1) = (held w = {})" if "initialized w"
    by (rule PeekMin_facts(1) [OF assms w that])
  show "\<exists>k \<in> held w. PeekMin order w = k * slotGapSeconds w" if "initialized w" "PeekMin order w \<noteq> - 1"
    by (rule PeekMin_facts(2) [OF assms w that])
qed

interpretation wheel: slot_index wheel_good held slotGapSeconds initialized wheel_Init wheel_Add wheel_Remove
  "wheel_Advance sorted_list_of_set" "PeekMin sorted_list_of_set"
  by (rule wheel_slot_index [OF range_order_sorted])

section \<open>Reachable wheels\<close>

text \<open>
  The wheels that a client with the default configuration reaches when it reads times in
  range and adds only keys that the wheel does not hold.
\<close>

inductive wheel_reachable :: "int key_order \<Rightarrow> int \<Rightarrow> HierarchicalTimingWheel \<Rightarrow> bool" for order g where
  new: "NewHierarchicalTimingWheel (g * Second) (DefaultWheelConfigs (g * Second)) = Some w \<Longrightarrow>
     wheel_reachable order g w"
| init: "wheel_reachable order g w \<Longrightarrow> 0 \<le> now \<Longrightarrow> now < time_bound \<Longrightarrow> wheel_Init now w = Some w' \<Longrightarrow>
     wheel_reachable order g w'"
| add: "wheel_reachable order g w \<Longrightarrow> key_ok g k \<Longrightarrow> k \<notin> held w \<Longrightarrow> wheel_Add k w = Some w' \<Longrightarrow>
     wheel_reachable order g w'"
| remove: "wheel_reachable order g w \<Longrightarrow> wheel_Remove k w = Some w' \<Longrightarrow> wheel_reachable order g w'"
| advance: "wheel_reachable order g w \<Longrightarrow> 0 \<le> now \<Longrightarrow> now < time_bound \<Longrightarrow>
     wheel_Advance order now w = Some (ready, w') \<Longrightarrow> wheel_reachable order g w'"
| reset: "wheel_reachable order g w \<Longrightarrow> wheel_reachable order g (wheel_Reset w)"

abbreviation gap_ok :: "int \<Rightarrow> bool" where
  "gap_ok g \<equiv> 0 < g \<and> g * 3153600 < time_bound div 1000000000"

lemma reachable_good:
  assumes "wheel_reachable order g w" "range_order order" "gap_ok g"
  shows "wheel_good w \<and> located {} w \<and> slotGapSeconds w = g"
  using assms(1)
proof induction
  case (new w)
  then show ?case using default_wheel_good [of g] assms(3) by auto
next
  case (init w now w')
  then show ?case using wheel_Init_ok [of w now] by auto
next
  case (add w k w')
  then show ?case using wheel_Add_ok [of w k] by auto
next
  case (remove w k w')
  then show ?case using wheel_Remove_ok [of w k] by auto
next
  case (advance w now ready w')
  then show ?case using wheel_Advance_ok [OF assms(2), of w now] by auto
next
  case (reset w)
  then show ?case using wheel_Reset_ok [of w] by auto
qed

section \<open>Properties\<close>

text \<open>C5: Advancing a well-formed wheel never panics and loses no key: \<open>Advance\<close> terminates, moves
  the base to the start of the slot of \<open>now\<close> (or leaves it when it is there already), keeps
  the wheel well formed, and every key that was held is afterwards held or returned.\<close>
theorem advance_loses_no_key:
  assumes "range_order order" "wheel_good w" "initialized w" "0 \<le> now" "now < time_bound"
  shows "\<exists>ready w'. wheel_Advance order now w = Some (ready, w') \<and> wheel_good w' \<and>
     currentBase w' = max (currentBase w) (now div slotGapSeconds w * slotGapSeconds w) \<and>
     held w = held w' \<union> set ready"
  using wheel_Advance_ok [OF assms(1,2,4,5)] assms(3) by blast

definition sample_wheel :: HierarchicalTimingWheel where
  "sample_wheel = the (NewHierarchicalTimingWheel DefaultSlotGap (DefaultWheelConfigs DefaultSlotGap))"

lemma sample_wheel_good:
  "wheel_good sample_wheel" "slotGapSeconds sample_wheel = 10" "held sample_wheel = {}"
  "\<not> initialized sample_wheel" "located {} sample_wheel"
  using default_wheel_good [of 10] by (auto simp: sample_wheel_def DefaultSlotGap_def)

text \<open>A wheel with base 1000 that holds the slots 100 (due at 1000) and 500 (due at 5000).\<close>

definition sample_held :: HierarchicalTimingWheel where
  "sample_held = the (wheel_Init 1003 sample_wheel \<bind> wheel_Add 100 \<bind> wheel_Add 500)"

lemma sample_held_good:
  "wheel_good sample_held" "slotGapSeconds sample_held = 10" "held sample_held = {100, 500}"
  "initialized sample_held" "currentBase sample_held = 1000" "located {} sample_held"
proof -
  obtain w1 where w1: "wheel_Init 1003 sample_wheel = Some w1" "wheel_good w1" "initialized w1" "held w1 = {}"
    "slotGapSeconds w1 = 10" "currentBase w1 = 1000" "located {} w1"
    using wheel_Init_ok [of sample_wheel 1003] sample_wheel_good by auto
  obtain w2 where w2: "wheel_Add 100 w1 = Some w2" "wheel_good w2" "initialized w2" "held w2 = {100}"
    "slotGapSeconds w2 = 10" "currentBase w2 = 1000" "located {} w2"
    using wheel_Add_ok [of w1 100] w1 by (auto simp: key_ok_def)
  obtain w3 where w3: "wheel_Add 500 w2 = Some w3" "wheel_good w3" "initialized w3" "held w3 = {500, 100}"
    "slotGapSeconds w3 = 10" "currentBase w3 = 1000" "located {} w3"
    using wheel_Add_ok [of w2 500] w2 by (auto simp: key_ok_def)
  have "sample_held = w3" using w1(1) w2(1) w3(1) by (simp add: sample_held_def)
  with w3 show "wheel_good sample_held" "slotGapSeconds sample_held = 10" "held sample_held = {100, 500}"
    "initialized sample_held" "currentBase sample_held = 1000" "located {} sample_held" by auto
qed

lemma advance_loses_no_key_witness:
  "\<exists>ready w'. wheel_Advance sorted_list_of_set 1015 sample_held = Some (ready, w') \<and> currentBase w' = 1010 \<and>
     {100, 500} = held w' \<union> set ready"
  using advance_loses_no_key [OF range_order_sorted sample_held_good(1,4), of 1015] sample_held_good(2,3,5)
  by auto

text \<open>C17: The wheel is never early: every key that \<open>Advance\<close> returns belongs to a slot whose time
  has come.\<close>
theorem advance_never_early:
  assumes "range_order order" "wheel_good w" "0 \<le> now" "now < time_bound"
    and "wheel_Advance order now w = Some (ready, w')" "k \<in> set ready"
  shows "k * slotGapSeconds w \<le> now"
  using wheel_Advance_ok [OF assms(1-4)] assms(5,6) by auto

text \<open>C10: A due key is returned: a held key whose slot starts at or before the base is among the
  keys of the next \<open>Advance\<close> that moves the base.\<close>
theorem due_key_is_returned:
  assumes "range_order order" "wheel_good w" "initialized w" "0 \<le> now" "now < time_bound"
    and "k \<in> held w" "k * slotGapSeconds w \<le> currentBase w"
    and "currentBase w < now div slotGapSeconds w * slotGapSeconds w"
    and "wheel_Advance order now w = Some (ready, w')"
  shows "k \<in> set ready"
  using wheel_Advance_ok [OF assms(1,2,4,5)] assms(3,8,9) due_key_current [OF assms(2,6,7)] by auto

lemma due_key_is_returned_witness:
  "100 \<in> set (fst (the (wheel_Advance sorted_list_of_set 1015 sample_held)))"
proof -
  obtain ready w' where A: "wheel_Advance sorted_list_of_set 1015 sample_held = Some (ready, w')"
    using wheel_Advance_ok [OF range_order_sorted sample_held_good(1), of 1015] by auto
  have "100 \<in> set ready"
    by (rule due_key_is_returned [OF range_order_sorted sample_held_good(1,4) _ _ _ _ _ A])
      (simp_all add: sample_held_good)
  then show ?thesis by (simp add: A)
qed

lemma advance_never_early_witness:
  "100 * slotGapSeconds sample_held \<le> 1015"
proof -
  obtain ready w' where A: "wheel_Advance sorted_list_of_set 1015 sample_held = Some (ready, w')"
    and r: "buckets (levels sample_held ! 0) ! nat (current (levels sample_held ! 0)) \<subseteq> set ready"
    using wheel_Advance_ok [OF range_order_sorted sample_held_good(1), of 1015] sample_held_good(2,4,5) by auto
  have "100 \<in> set ready"
    using due_key_current [OF sample_held_good(1), of 100] r sample_held_good(2,3,5) by auto
  from advance_never_early [OF range_order_sorted sample_held_good(1) _ _ A this] show ?thesis by simp
qed

text \<open>\<open>PeekMin\<close> is exact whenever it matters: it reports \<open>-1\<close> exactly for an empty wheel, what it
  reports otherwise is the time of a held slot, and as soon as some held slot is due at the
  base it reports the least time of all held slots.\<close>
theorem peek_min_exact_when_due:
  assumes "range_order order" "wheel_good w" "initialized w"
  shows "(PeekMin order w = - 1 \<longleftrightarrow> held w = {}) \<and>
     (PeekMin order w \<noteq> - 1 \<longrightarrow> (\<exists>k \<in> held w. PeekMin order w = k * slotGapSeconds w)) \<and>
     ((\<exists>k \<in> held w. k * slotGapSeconds w \<le> currentBase w) \<longrightarrow>
        PeekMin order w = Min ((\<lambda>k. k * slotGapSeconds w) ` held w))"
  using PeekMin_facts [OF assms] by blast

lemma peek_min_exact_when_due_witness:
  "PeekMin sorted_list_of_set sample_held = 1000"
  using peek_min_exact_when_due [OF range_order_sorted sample_held_good(1,4)] sample_held_good(2,3,5) by simp

text \<open>On a wheel reached by adding only absent keys, \<open>Remove\<close> removes: it never panics, the key
  is gone from every bucket and from the overflow, and all other keys stay.\<close>
theorem remove_removes:
  assumes "range_order order" "gap_ok g" "wheel_reachable order g w"
  shows "\<exists>w'. wheel_Remove k w = Some w' \<and> held w' = held w - {k}"
  using wheel_Remove_ok [of w k] reachable_good [OF assms(3,1,2)] by blast

lemma sample_reachable: "wheel_reachable sorted_list_of_set 10 sample_wheel"
  using default_wheel_good [of 10]
  by (intro wheel_reachable.new) (auto simp: sample_wheel_def DefaultSlotGap_def)

lemma remove_removes_witness:
  "\<exists>w'. wheel_Remove 7 (the (wheel_Add 7 sample_wheel)) = Some w' \<and> held w' = {}"
proof -
  obtain w1 where w1: "wheel_Add 7 sample_wheel = Some w1" "held w1 = {7}"
    using wheel_Add_ok [of sample_wheel 7] sample_wheel_good by (auto simp: key_ok_def)
  have "wheel_reachable sorted_list_of_set 10 w1"
    by (rule wheel_reachable.add [OF sample_reachable _ _ w1(1)]) (simp_all add: key_ok_def sample_wheel_good)
  from remove_removes [OF range_order_sorted _ this, of 7] w1 show ?thesis by auto
qed



text \<open>A wheel with two levels, of two buckets of 10 and three buckets of 20 seconds.\<close>

definition small_wheel :: HierarchicalTimingWheel where
  "small_wheel = the (NewHierarchicalTimingWheel (10 * Second)
     [\<lparr>Granularity = 10 * Second, Buckets = 2\<rparr>, \<lparr>Granularity = 20 * Second, Buckets = 3\<rparr>])"

definition readd_and_remove :: "HierarchicalTimingWheel option" where
  "readd_and_remove = do {
     w \<leftarrow> wheel_Init 0 small_wheel;
     w \<leftarrow> wheel_Add 6 w;
     (ready, w) \<leftarrow> wheel_Advance sorted_list_of_set 10 w;
     w \<leftarrow> wheel_Add 6 w;
     wheel_Remove 6 w
   }"

text \<open>Adding a key that is already held can leave a second copy behind: after the base has
  moved by one slot the key lands in another bucket, and \<open>Remove\<close> then deletes only the
  copy that the location map knows.\<close>
theorem readd_leaves_ghost:
  "map_option (\<lambda>w. (map buckets (levels w), overflow w)) readd_and_remove = Some ([[{}, {}], [{}, {}, {6}]], {})"
  by code_simp

definition two_far_slots :: "HierarchicalTimingWheel option" where
  "two_far_slots = do {
     w \<leftarrow> NewHierarchicalTimingWheel (10 * Second)
            [\<lparr>Granularity = 10 * Second, Buckets = 3\<rparr>, \<lparr>Granularity = 30 * Second, Buckets = 3\<rparr>];
     w \<leftarrow> wheel_Init 0 w;
     w \<leftarrow> wheel_Add 6 w;
     (ready, w) \<leftarrow> wheel_Advance sorted_list_of_set 20 w;
     wheel_Add 7 w
   }"

text \<open>When no slot is due \<open>PeekMin\<close> need not report the least time: it looks at the first
  non-empty bucket of each level only, and here reports 70 although the slot due at 60 is
  held in the next bucket.\<close>
theorem peek_min_can_miss_least:
  "map_option (\<lambda>w. (PeekMin sorted_list_of_set w, map buckets (levels w))) two_far_slots
     = Some (70, [[{}, {}, {}], [{7}, {6}, {}]])"
  by code_simp

end
