(* ===== verification/Capacity.thy ===== *)
theory Capacity
  imports Job_Store
begin

text \<open>
  The capacity limits of \<open>internal/slots\<close>: the size of a job (\<open>size_calculator.go\<close>), the
  memory tracker (\<open>memory_tracker.go\<close>), the job counter (\<open>job_counter.go\<close>) and the limit
  manager over them (\<open>limit_manager.go\<close>). The counters live in the replicated state
  machine and change through the store. The size of a payload is the length of its JSON
  text, so the encoder of \<open>encoding/json\<close> is modelled with its escapes.
\<close>

section \<open>JSON text\<close>

definition hex_digit :: "nat \<Rightarrow> char" where
  "hex_digit d = (if d < 10 then char_of (48 + d) else char_of (87 + d))"

text \<open>The escapes of one byte below 128.\<close>

definition escape_ascii :: "char \<Rightarrow> string" where
  "escape_ascii c =
     (let n = (of_char c :: nat)
      in if n = 34 \<or> n = 92 then [CHR 0x5C, c]
         else if n = 8 then [CHR 0x5C, CHR ''b'']
         else if n = 12 then [CHR 0x5C, CHR ''f'']
         else if n = 10 then [CHR 0x5C, CHR ''n'']
         else if n = 13 then [CHR 0x5C, CHR ''r'']
         else if n = 9 then [CHR 0x5C, CHR ''t'']
         else if n < 32 \<or> n = 60 \<or> n = 62 \<or> n = 38
           then [CHR 0x5C, CHR ''u'', CHR ''0'', CHR ''0'', hex_digit (n div 16), hex_digit (n mod 16)]
         else [c])"

text \<open>
  A string is valid UTF-8; the characters U+2028 and U+2029, three bytes each, are
  escaped, other bytes from 128 on are copied.
\<close>

fun escape_string :: "string \<Rightarrow> string" where
  "escape_string [] = []"
| "escape_string (c # cs) =
     (case cs of
        c1 # c2 # rest \<Rightarrow>
          if of_char c = (226 :: nat) \<and> of_char c1 = (128 :: nat) \<and>
             (of_char c2 = (168 :: nat) \<or> of_char c2 = (169 :: nat))
          then CHR 0x5C # ''u202'' @ [hex_digit (of_char c2 - 160)] @ escape_string rest
          else (if (of_char c :: nat) < 128 then escape_ascii c else [c]) @ escape_string cs
      | _ \<Rightarrow> (if (of_char c :: nat) < 128 then escape_ascii c else [c]) @ escape_string cs)"

definition quote_string :: "string \<Rightarrow> string" where
  "quote_string s = CHR 0x22 # escape_string s @ [CHR 0x22]"

fun join_with :: "string \<Rightarrow> string list \<Rightarrow> string" where
  "join_with sep [] = []"
| "join_with sep [x] = x"
| "join_with sep (x # y # ys) = x @ sep @ join_with sep (y # ys)"

fun Marshal :: "json \<Rightarrow> string" where
  "Marshal JNull = ''null''"
| "Marshal (JBool b) = (if b then ''true'' else ''false'')"
| "Marshal (JNumber n) = n"
| "Marshal (JString s) = quote_string s"
| "Marshal (JArray xs) = ''['' @ join_with '','' (map Marshal xs) @ '']''"
| "Marshal (JObject ms) = ''{'' @ join_with '','' (map (\<lambda>(k, v). quote_string k @ '':'' @ Marshal v) ms) @ ''}''"

section \<open>Size calculator\<close>

record SizeCalculator =
  baseOverhead :: int

definition NewSizeCalculator :: SizeCalculator where
  "NewSizeCalculator = \<lparr>baseOverhead = 128\<rparr>"

text \<open>A decoded payload always marshals.\<close>

definition calculatePayloadSize :: "payload \<Rightarrow> int" where
  "calculatePayloadSize payload = int (length (Marshal (JObject payload)))"

definition CalculateSize :: "SizeCalculator \<Rightarrow> Job \<Rightarrow> int" where
  "CalculateSize sc job =
     (let size = baseOverhead sc;
          size = add64 size (int (length (Job_ID job)));
          size = (if Job_WebhookURL job \<noteq> '''' then add64 size (int (length (Job_WebhookURL job))) else size);
          size = (if Job_CronExpr job \<noteq> '''' then add64 size (int (length (Job_CronExpr job))) else size);
          size = (case Job_Payload job of None \<Rightarrow> size | Some p \<Rightarrow> add64 size (calculatePayloadSize p));
          size = add64 size 64
      in size)"

section \<open>Memory tracker and job counter\<close>

record MemoryUsage =
  CurrentBytes :: int
  LimitBytes :: int
  AvailableBytes :: int
  Utilization :: rat

datatype CapacityErrorType = MemoryError | JobCountError | OtherCapacityError string

record CapacityError =
  CE_Type :: CapacityErrorType
  CE_Current :: int
  CE_Limit :: int
  CE_Requested :: int

text \<open>The percentage is the exact quotient, without the rounding of \<open>float64\<close>.\<close>

definition GetUsage :: "int \<Rightarrow> ('c, 'r, 'z) Store_scheme \<Rightarrow> MemoryUsage" where
  "GetUsage memoryLimit s =
     (let current = Store_GetMemoryUsage s;
          available = sub64 memoryLimit current;
          available = (if available < 0 then 0 else available);
          utilization = (if memoryLimit > 0 then of_int current / of_int memoryLimit * 100 else 0)
      in \<lparr>CurrentBytes = current, LimitBytes = memoryLimit, AvailableBytes = available,
          Utilization = utilization\<rparr>)"

definition Memory_CheckCapacity :: "int \<Rightarrow> int \<Rightarrow> ('c, 'r, 'z) Store_scheme \<Rightarrow> CapacityError option" where
  "Memory_CheckCapacity memoryLimit bytes s =
     (let usage = GetUsage memoryLimit s
      in if add64 (CurrentBytes usage) bytes > LimitBytes usage
         then Some \<lparr>CE_Type = MemoryError, CE_Current = CurrentBytes usage,
                    CE_Limit = LimitBytes usage, CE_Requested = bytes\<rparr>
         else None)"

definition IncrementUsage ::
  "('c, 'r) Env \<Rightarrow> int \<Rightarrow> ('c, 'r, 'z) Store_scheme \<Rightarrow> store_error option \<times> ('c, 'r, 'z) Store_scheme" where
  "IncrementUsage E bytes s = UpdateMemoryUsage E bytes s"

definition DecrementUsage ::
  "('c, 'r) Env \<Rightarrow> int \<Rightarrow> ('c, 'r, 'z) Store_scheme \<Rightarrow> store_error option \<times> ('c, 'r, 'z) Store_scheme" where
  "DecrementUsage E bytes s = UpdateMemoryUsage E (neg64 bytes) s"

definition Counter_CheckCapacity :: "int \<Rightarrow> ('c, 'r, 'z) Store_scheme \<Rightarrow> CapacityError option" where
  "Counter_CheckCapacity limit s =
     (let current = Store_GetJobCount s
      in if current \<ge> limit
         then Some \<lparr>CE_Type = JobCountError, CE_Current = current, CE_Limit = limit, CE_Requested = 0\<rparr>
         else None)"

definition Counter_Increment ::
  "('c, 'r) Env \<Rightarrow> ('c, 'r, 'z) Store_scheme \<Rightarrow> store_error option \<times> ('c, 'r, 'z) Store_scheme" where
  "Counter_Increment E s = UpdateJobCount E 1 s"

definition Counter_Decrement ::
  "('c, 'r) Env \<Rightarrow> ('c, 'r, 'z) Store_scheme \<Rightarrow> store_error option \<times> ('c, 'r, 'z) Store_scheme" where
  "Counter_Decrement E s = UpdateJobCount E (- 1) s"

text \<open>The message and the HTTP status of a capacity error.\<close>

definition CapacityError_Error :: "CapacityError \<Rightarrow> string" where
  "CapacityError_Error e =
     (case CE_Type e of
        MemoryError \<Rightarrow>
          if CE_Requested e > 0
          then ''insufficient memory: current='' @ Sprintf_d (CE_Current e) @ '' bytes, limit='' @
               Sprintf_d (CE_Limit e) @ '' bytes, requested='' @ Sprintf_d (CE_Requested e) @ '' bytes''
          else ''insufficient memory: current='' @ Sprintf_d (CE_Current e) @ '' bytes, limit='' @
               Sprintf_d (CE_Limit e) @ '' bytes''
      | JobCountError \<Rightarrow>
          ''maximum jobs reached: current='' @ Sprintf_d (CE_Current e) @ '', limit='' @ Sprintf_d (CE_Limit e)
      | OtherCapacityError t \<Rightarrow> ''capacity limit exceeded'')"

definition CapacityError_HTTPStatus :: "CapacityError \<Rightarrow> int" where
  "CapacityError_HTTPStatus e = 507"

section \<open>Limit manager\<close>

record LimitManager =
  LM_memoryLimit :: int
  LM_jobLimit :: int
  LM_sizeCalculator :: SizeCalculator

definition CheckCapacity :: "LimitManager \<Rightarrow> Job \<Rightarrow> ('c, 'r, 'z) Store_scheme \<Rightarrow> CapacityError option" where
  "CheckCapacity lm job s =
     (let size = CalculateSize (LM_sizeCalculator lm) job
      in case Memory_CheckCapacity (LM_memoryLimit lm) size s of
           Some err \<Rightarrow> Some err
         | None \<Rightarrow> (case Counter_CheckCapacity (LM_jobLimit lm) s of Some err \<Rightarrow> Some err | None \<Rightarrow> None))"

definition RecordJobAdded ::
  "('c, 'r) Env \<Rightarrow> LimitManager \<Rightarrow> Job \<Rightarrow> ('c, 'r, 'z) Store_scheme
     \<Rightarrow> store_error option \<times> ('c, 'r, 'z) Store_scheme" where
  "RecordJobAdded E lm job s =
     (let size = CalculateSize (LM_sizeCalculator lm) job
      in case IncrementUsage E size s of
           (Some err, s) \<Rightarrow> (Some err, s)
         | (None, s) \<Rightarrow>
             (case Counter_Increment E s of
                (Some err, s) \<Rightarrow> (Some err, snd (DecrementUsage E size s))
              | (None, s) \<Rightarrow> (None, s)))"

definition RecordJobRemoved ::
  "('c, 'r) Env \<Rightarrow> LimitManager \<Rightarrow> Job \<Rightarrow> ('c, 'r, 'z) Store_scheme
     \<Rightarrow> store_error option \<times> ('c, 'r, 'z) Store_scheme" where
  "RecordJobRemoved E lm job s =
     (let size = CalculateSize (LM_sizeCalculator lm) job
      in case DecrementUsage E size s of
           (Some err, s) \<Rightarrow> (Some err, s)
         | (None, s) \<Rightarrow>
             (case Counter_Decrement E s of
                (Some err, s) \<Rightarrow> (Some err, s)
              | (None, s) \<Rightarrow> (None, s)))"

section \<open>Lemmas\<close>

lemma calculatePayloadSize_ge: "2 \<le> calculatePayloadSize p"
  by (simp add: calculatePayloadSize_def)

definition text_size :: "Job \<Rightarrow> int" where
  "text_size job = int (length (Job_ID job)) + int (length (Job_WebhookURL job)) +
     int (length (Job_CronExpr job)) + (case Job_Payload job of None \<Rightarrow> 0 | Some p \<Rightarrow> calculatePayloadSize p)"

lemma text_size_nonneg [simp]: "0 \<le> text_size job"
  using calculatePayloadSize_ge [of "the (Job_Payload job)"]
  by (cases "Job_Payload job") (auto simp: text_size_def)

lemma CalculateSize_wraps: "CalculateSize sc job = i64 (baseOverhead sc + text_size job + 64)"
  by (cases "Job_Payload job")
    (auto simp: CalculateSize_def text_size_def add64_def Let_def add.assoc)

lemma CalculateSize_eq:
  assumes "text_size job < 9223372036854775616"
  shows "CalculateSize NewSizeCalculator job = 192 + text_size job"
proof -
  have "in64 (192 + text_size job)"
    using assms text_size_nonneg [of job] unfolding in64_def by linarith
  then show ?thesis by (simp add: CalculateSize_wraps NewSizeCalculator_def add.commute add.left_commute)
qed

lemma counter_write_leaves:
  assumes "UpdateMemoryUsage E d s = (None, s')"
  shows "memoryUsage (St_fsm s') = (if add64 (memoryUsage (St_fsm s)) d < 0 then 0 else add64 (memoryUsage (St_fsm s)) d)"
    "jobCount (St_fsm s') = jobCount (St_fsm s)"
  using UpdateMemoryUsage_ok [OF assms] by (simp_all add: applyMemoryUpdate_def Let_def)

lemma count_write_leaves:
  assumes "UpdateJobCount E d s = (None, s')"
  shows "jobCount (St_fsm s') = (if add64 (jobCount (St_fsm s)) d < 0 then 0 else add64 (jobCount (St_fsm s)) d)"
    "memoryUsage (St_fsm s') = memoryUsage (St_fsm s)"
  using UpdateJobCount_ok [OF assms] by (simp_all add: applyJobCountUpdate_def Let_def)

text \<open>Both counters after a recorded addition and after a recorded removal.\<close>

lemma RecordJobAdded_ok:
  assumes "RecordJobAdded E lm job s = (None, s')"
    and "fsm_wf (St_fsm s)" "0 \<le> CalculateSize (LM_sizeCalculator lm) job"
    and "in64 (memoryUsage (St_fsm s) + CalculateSize (LM_sizeCalculator lm) job)" "in64 (jobCount (St_fsm s) + 1)"
  shows "memoryUsage (St_fsm s') = memoryUsage (St_fsm s) + CalculateSize (LM_sizeCalculator lm) job"
    "jobCount (St_fsm s') = jobCount (St_fsm s) + 1"
proof -
  let ?z = "CalculateSize (LM_sizeCalculator lm) job"
  obtain s1 where s1: "UpdateMemoryUsage E ?z s = (None, s1)" "UpdateJobCount E 1 s1 = (None, s')"
    using assms(1) by (auto simp: RecordJobAdded_def IncrementUsage_def Counter_Increment_def Let_def
        split: prod.splits option.splits)
  have nn: "0 \<le> memoryUsage (St_fsm s)" "0 \<le> jobCount (St_fsm s)" using assms(2) by (simp_all add: fsm_wf_def)
  show "memoryUsage (St_fsm s') = memoryUsage (St_fsm s) + ?z" "jobCount (St_fsm s') = jobCount (St_fsm s) + 1"
    using counter_write_leaves [OF s1(1)] count_write_leaves [OF s1(2)] assms(3-5) nn
    by (simp_all add: add64_id)
qed

lemma RecordJobRemoved_ok:
  assumes "RecordJobRemoved E lm job s = (None, s')"
    and "CalculateSize (LM_sizeCalculator lm) job \<le> memoryUsage (St_fsm s)" "1 \<le> jobCount (St_fsm s)"
    and "0 \<le> CalculateSize (LM_sizeCalculator lm) job" "in64 (memoryUsage (St_fsm s))" "in64 (jobCount (St_fsm s))"
  shows "memoryUsage (St_fsm s') = memoryUsage (St_fsm s) - CalculateSize (LM_sizeCalculator lm) job"
    "jobCount (St_fsm s') = jobCount (St_fsm s) - 1"
proof -
  let ?z = "CalculateSize (LM_sizeCalculator lm) job"
  obtain s1 where s1: "UpdateMemoryUsage E (neg64 ?z) s = (None, s1)" "UpdateJobCount E (- 1) s1 = (None, s')"
    using assms(1) by (auto simp: RecordJobRemoved_def DecrementUsage_def Counter_Decrement_def Let_def
        split: prod.splits option.splits)
  have n: "neg64 ?z = - ?z" using assms(2,4,5) by (intro neg64_id) (simp add: in64_def)
  have a: "add64 (memoryUsage (St_fsm s)) (- ?z) = memoryUsage (St_fsm s) - ?z"
    "add64 (jobCount (St_fsm s)) (- 1) = jobCount (St_fsm s) - 1"
    using assms(2-6) by (simp_all add: add64_def in64_def)
  show "memoryUsage (St_fsm s') = memoryUsage (St_fsm s) - ?z" "jobCount (St_fsm s') = jobCount (St_fsm s) - 1"
    using counter_write_leaves [OF s1(1)] count_write_leaves [OF s1(2)] assms(2,3) by (simp_all add: n a)
qed

section \<open>Properties\<close>

text \<open>The size of a job is 192 bytes plus the lengths of its identifier, webhook address, cron
  expression and payload text, as long as the sum is an \<open>int64\<close>.\<close>
theorem job_size_formula:
  assumes "text_size job < 9223372036854775616"
  shows "CalculateSize NewSizeCalculator job = 192 + int (length (Job_ID job)) + int (length (Job_WebhookURL job))
     + int (length (Job_CronExpr job)) +
     (case Job_Payload job of None \<Rightarrow> 0 | Some p \<Rightarrow> int (length (Marshal (JObject p))))"
  using CalculateSize_eq [OF assms]
  by (simp add: text_size_def calculatePayloadSize_def split: option.splits)

definition payload_job :: Job where
  "payload_job = sample_job\<lparr>Job_Payload := Some [(''k'', JString ''<a>'')]\<rparr>"

lemma job_size_formula_witness: "CalculateSize NewSizeCalculator payload_job = 193 + 21"
proof -
  have "Marshal (JObject [(''k'', JString ''<a>'')]) = ''{'' @ [CHR 0x22] @ ''k'' @ [CHR 0x22] @ '':'' @
      [CHR 0x22, CHR 0x5C] @ ''u003ca'' @ [CHR 0x5C] @ ''u003e'' @ [CHR 0x22] @ ''}''"
    by code_simp
  moreover from this have "text_size payload_job < 9223372036854775616"
    by (simp add: text_size_def payload_job_def sample_job_def calculatePayloadSize_def)
  ultimately show ?thesis
    using job_size_formula [of payload_job] by (simp add: payload_job_def sample_job_def)
qed


definition sample_limits :: LimitManager where
  "sample_limits = \<lparr>LM_memoryLimit = 1000, LM_jobLimit = 2, LM_sizeCalculator = NewSizeCalculator\<rparr>"

lemma sample_size: "CalculateSize NewSizeCalculator sample_job = 193"
  by (simp add: CalculateSize_def NewSizeCalculator_def sample_job_def add64_def)


text \<open>Admission keeps the limits: when the check passes and the addition is recorded without
  error, memory usage and job count are still within their limits.\<close>
theorem admission_keeps_limits:
  assumes "CheckCapacity lm job s = None" "RecordJobAdded E lm job s = (None, s')"
    and "fsm_wf (St_fsm s)" "LM_sizeCalculator lm = NewSizeCalculator" "text_size job < 9223372036854775616"
    and "in64 (memoryUsage (St_fsm s) + CalculateSize (LM_sizeCalculator lm) job)" "in64 (LM_jobLimit lm)"
  shows "memoryUsage (St_fsm s') \<le> LM_memoryLimit lm \<and> jobCount (St_fsm s') \<le> LM_jobLimit lm"
proof -
  have nn: "0 \<le> CalculateSize (LM_sizeCalculator lm) job"
    using CalculateSize_eq [OF assms(5)] text_size_nonneg [of job] assms(4) by simp
  have chk: "memoryUsage (St_fsm s) + CalculateSize (LM_sizeCalculator lm) job \<le> LM_memoryLimit lm"
      "jobCount (St_fsm s) < LM_jobLimit lm"
    using assms(1,6)
    by (auto simp: CheckCapacity_def Memory_CheckCapacity_def Counter_CheckCapacity_def GetUsage_def Let_def add64_id
        split: option.splits if_splits)
  have "in64 (jobCount (St_fsm s) + 1)"
    using chk(2) assms(3,7) by (simp add: fsm_wf_def in64_def)
  from RecordJobAdded_ok [OF assms(2,3) nn assms(6) this] chk show ?thesis by simp
qed

lemma admission_keeps_limits_witness:
  "memoryUsage (St_fsm (snd (RecordJobAdded solo_env sample_limits sample_job (solo_store True NewFSM)))) \<le> 1000"
proof -
  let ?s = "solo_store True NewFSM" and ?r = "RecordJobAdded solo_env sample_limits sample_job (solo_store True NewFSM)"
  have chk: "CheckCapacity sample_limits sample_job ?s = None"
    by (simp add: CheckCapacity_def Memory_CheckCapacity_def Counter_CheckCapacity_def GetUsage_def
        sample_limits_def sample_size NewFSM_def add64_def Let_def)
  have rec: "?r = (None, snd ?r)"
    by (simp add: RecordJobAdded_def IncrementUsage_def UpdateMemoryUsage_def Counter_Increment_def UpdateJobCount_def Let_def)
  have "text_size sample_job < 9223372036854775616" by (simp add: text_size_def sample_job_def)
  from admission_keeps_limits [OF chk rec _ _ this] show ?thesis
    by (simp add: sample_limits_def sample_size) (simp add: NewFSM_def)
qed

text \<open>Removing undoes adding: recording the addition and then the removal of one and the same
  job, both without error, brings both counters back to their values.\<close>
theorem removal_undoes_addition:
  assumes "RecordJobAdded E lm job s = (None, s1)" "RecordJobRemoved E lm job s1 = (None, s2)"
    and "fsm_wf (St_fsm s)" "LM_sizeCalculator lm = NewSizeCalculator" "text_size job < 9223372036854775616"
    and "in64 (memoryUsage (St_fsm s) + CalculateSize (LM_sizeCalculator lm) job)" "in64 (jobCount (St_fsm s) + 1)"
  shows "memoryUsage (St_fsm s2) = memoryUsage (St_fsm s) \<and> jobCount (St_fsm s2) = jobCount (St_fsm s)"
proof -
  let ?z = "CalculateSize (LM_sizeCalculator lm) job"
  have nn: "0 \<le> ?z"
    using CalculateSize_eq [OF assms(5)] text_size_nonneg [of job] assms(4) by simp
  note A = RecordJobAdded_ok [OF assms(1,3) nn assms(6,7)]
  have w: "0 \<le> memoryUsage (St_fsm s)" "0 \<le> jobCount (St_fsm s)" using assms(3) by (simp_all add: fsm_wf_def)
  show ?thesis using RecordJobRemoved_ok [OF assms(2)] A assms(6,7) nn w by simp
qed

lemma removal_undoes_addition_witness:
  "memoryUsage (St_fsm (snd (RecordJobRemoved solo_env sample_limits sample_job
     (snd (RecordJobAdded solo_env sample_limits sample_job (solo_store True NewFSM)))))) = 0"
proof -
  let ?s = "solo_store True NewFSM"
  let ?r1 = "RecordJobAdded solo_env sample_limits sample_job ?s"
  let ?r2 = "RecordJobRemoved solo_env sample_limits sample_job (snd ?r1)"
  have 1: "?r1 = (None, snd ?r1)"
    by (simp add: RecordJobAdded_def IncrementUsage_def UpdateMemoryUsage_def Counter_Increment_def UpdateJobCount_def Let_def)
  have "solo_leader (St_raft (snd ?r1))"
    by (simp add: RecordJobAdded_def IncrementUsage_def UpdateMemoryUsage_def Counter_Increment_def UpdateJobCount_def Let_def)
  then have 2: "?r2 = (None, snd ?r2)"
    by (simp add: RecordJobRemoved_def DecrementUsage_def UpdateMemoryUsage_def Counter_Decrement_def UpdateJobCount_def Let_def)
  have "text_size sample_job < 9223372036854775616" by (simp add: text_size_def sample_job_def)
  from removal_undoes_addition [OF 1 2 _ _ this] have "memoryUsage (St_fsm (snd ?r2)) = memoryUsage (NewFSM :: disk FSM)"
    by (simp add: sample_limits_def sample_size) (simp add: NewFSM_def)
  then show ?thesis by (simp add: NewFSM_def)
qed

text \<open>An empty payload object is charged but not refunded: a job submitted with an empty
  payload is counted with two bytes for it, and the stored job, whose payload is gone after
  the wire, counts two bytes less.\<close>
theorem empty_payload_leaks_two_bytes:
  assumes "Job_Payload job = Some []" "text_size job < 9223372036854775616"
  shows "CalculateSize NewSizeCalculator (wire_Job job) = CalculateSize NewSizeCalculator job - 2"
proof -
  have "text_size (wire_Job job) = text_size job - 2"
    using assms(1) by (simp add: text_size_def wire_Job_def calculatePayloadSize_def)
  then show ?thesis
    using CalculateSize_eq [OF assms(2)] CalculateSize_eq [of "wire_Job job"] assms(2) by simp
qed

lemma empty_payload_leaks_two_bytes_witness:
  "CalculateSize NewSizeCalculator (wire_Job (sample_job\<lparr>Job_Payload := Some []\<rparr>)) = 193"
proof -
  let ?j = "sample_job\<lparr>Job_Payload := Some []\<rparr>"
  have t: "text_size ?j < 9223372036854775616" by (simp add: text_size_def sample_job_def calculatePayloadSize_def)
  have "CalculateSize NewSizeCalculator ?j = 195"
    using CalculateSize_eq [OF t] by (simp add: text_size_def sample_job_def calculatePayloadSize_def)
  then show ?thesis using empty_payload_leaks_two_bytes [OF _ t] by simp
qed

text \<open>Only the two counter commands move the counters: creating, deleting, archiving and
  status commands leave memory usage and job count as they are, so a job that is deleted
  without \<open>RecordJobRemoved\<close> stays counted.\<close>
theorem counters_move_by_updates_only:
  assumes "Cmd_Type cmd \<noteq> CommandUpdateMemoryUsage" "Cmd_Type cmd \<noteq> CommandUpdateJobCount"
  shows "memoryUsage (snd (applyCommandInternal C cmd f)) = memoryUsage f \<and>
     jobCount (snd (applyCommandInternal C cmd f)) = jobCount f"
  using assms
  by (cases "Cmd_Type cmd")
    (auto simp: fsm_defs Let_def split: option.splits if_splits prod.splits sum.splits)

lemma counters_move_by_updates_only_witness:
  "memoryUsage (snd (applyCommandInternal memory_archive (create_command sample_job) NewFSM)) = 0"
  using counters_move_by_updates_only [of "create_command sample_job" memory_archive NewFSM]
  by (simp add: create_command_def) (simp add: NewFSM_def)

end
