(* ===== verification/Slot_Queue.thy ===== *)
theory Slot_Queue
  imports Status_Tracker Wheel_Properties
begin

text \<open>
  The persistent slot queue of \<open>internal/slots/persistent_slots.go\<close> and \<open>types.go\<close>: jobs are
  grouped into slots of \<open>slotGap\<close> seconds, the slots live in the store, and a timing wheel
  holds the keys of the slots to come. The queue shares the node with the store, so its
  fields extend the record \<open>Store\<close>. An operation returns \<open>None\<close> when the Go code panics.
\<close>

named_theorems queue_defs \<open>the operations of the slot queue\<close>

section \<open>State\<close>

record ('c, 'r) Node = "('c, 'r) Store" +
  Q_slotGap :: Duration
  Q_jobToSlot :: "(string, int) fmap"
  Q_wheel :: HierarchicalTimingWheel
  Q_lastAdvance :: int

record Slot =
  QS_Key :: int
  QS_MinTime :: int
  QS_MaxTime :: int
  QS_Jobs :: "Job list"

definition NewPersistentSlotQueueWithConfig ::
  "Duration \<Rightarrow> WheelLevelConfig list \<Rightarrow> ('c, 'r) Store \<Rightarrow> ('c, 'r) Node option" where
  "NewPersistentSlotQueueWithConfig slotGap wheelConfigs s =
     (let slotGap = (if slotGap = 0 then DefaultSlotGap else slotGap)
      in map_option (\<lambda>wheel. Store.extend s (Node.fields slotGap fmempty wheel 0))
           (NewHierarchicalTimingWheel slotGap wheelConfigs))"

definition NewPersistentSlotQueue :: "Duration \<Rightarrow> ('c, 'r) Store \<Rightarrow> ('c, 'r) Node option" where
  "NewPersistentSlotQueue slotGap s =
     (let slotGap = (if slotGap = 0 then DefaultSlotGap else slotGap);
          configs = DefaultWheelConfigs slotGap
      in map_option (\<lambda>wheel. Store.extend s (Node.fields slotGap fmempty wheel 0))
           (NewHierarchicalTimingWheel slotGap configs))"

section \<open>Operations\<close>

definition getSlotKey :: "('c, 'r, 'z) Node_scheme \<Rightarrow> int \<Rightarrow> int option" where
  "getSlotKey n timestamp = div64 timestamp (seconds64 (Q_slotGap n))"

text \<open>A step of the wheel inside the node.\<close>

definition on_wheel ::
  "(HierarchicalTimingWheel \<Rightarrow> HierarchicalTimingWheel option) \<Rightarrow> ('c, 'r, 'z) Node_scheme
     \<Rightarrow> ('c, 'r, 'z) Node_scheme option" where
  "on_wheel f n = map_option (\<lambda>w. n\<lparr>Q_wheel := w\<rparr>) (f (Q_wheel n))"

text \<open>A write of the store whose error is only logged, made by the leader only.\<close>

definition if_leader ::
  "('c, 'r) Env \<Rightarrow> (('c, 'r, 'z) Node_scheme \<Rightarrow> store_error option \<times> ('c, 'r, 'z) Node_scheme)
     \<Rightarrow> ('c, 'r, 'z) Node_scheme \<Rightarrow> ('c, 'r, 'z) Node_scheme" where
  "if_leader E write n = (if IsLeader E n then snd (write n) else n)"

definition job_time :: "Job \<Rightarrow> int option" where
  "job_time job =
     (if Job_Type job = JobUnico \<and> Job_Timestamp job \<noteq> None then Job_Timestamp job
      else if Job_Type job = JobRecurrente then Some (Job_CreatedAt job)
      else None)"

definition new_slot :: "int \<Rightarrow> int \<Rightarrow> string \<Rightarrow> SlotData" where
  "new_slot key gap jobID =
     \<lparr>Slot_Key = key, Slot_MinTime = mul64 key gap,
      Slot_MaxTime = sub64 (mul64 (add64 key 1) gap) 1, Slot_JobIDs = [jobID]\<rparr>"

definition AddJob ::
  "('c, 'r) Env \<Rightarrow> int \<Rightarrow> Job \<Rightarrow> ('c, 'r, 'z) Node_scheme \<Rightarrow> ('c, 'r, 'z) Node_scheme option" where
  "AddJob E now job n =
     (case job_time job of
        None \<Rightarrow> Some n
      | Some timestamp \<Rightarrow> do {
          key \<leftarrow> getSlotKey n timestamp;
          n \<leftarrow> (if \<not> initialized (Q_wheel n) then on_wheel (wheel_Init now) n else Some n);
          let slotData =
            (case Store_GetSlot E n key of
               None \<Rightarrow> new_slot key (seconds64 (Q_slotGap n)) (Job_ID job)
             | Some d \<Rightarrow> d\<lparr>Slot_JobIDs := Slot_JobIDs d @ [Job_ID job]\<rparr>);
          let n = if_leader E (CreateSlot E slotData) n;
          let n = n\<lparr>Q_jobToSlot := fmupd (Job_ID job) key (Q_jobToSlot n)\<rparr>;
          on_wheel (wheel_Add key) n
        })"

text \<open>
  The slot without the first occurrence of the job: deleted when it is empty, written
  back otherwise.
\<close>

definition drop_from_slot ::
  "('c, 'r) Env \<Rightarrow> int \<Rightarrow> SlotData \<Rightarrow> string \<Rightarrow> ('c, 'r, 'z) Node_scheme \<Rightarrow> ('c, 'r, 'z) Node_scheme option" where
  "drop_from_slot E key slotData jobID n =
     (let slotData = slotData\<lparr>Slot_JobIDs := remove1 jobID (Slot_JobIDs slotData)\<rparr>
      in if Slot_JobIDs slotData = []
         then on_wheel (wheel_Remove key) (if_leader E (DeleteSlot E key) n)
         else Some (if_leader E (CreateSlot E slotData) n))"

text \<open>
  The search of \<open>removeJobFallback\<close> through slots in the order of its loops; \<open>load\<close> reads
  the slot of a key, and the first slot with the job ends the search.
\<close>

fun fallback_search ::
  "('c, 'r) Env \<Rightarrow> string \<Rightarrow> (int \<Rightarrow> SlotData option) \<Rightarrow> int list \<Rightarrow> ('c, 'r, 'z) Node_scheme
     \<Rightarrow> (bool \<times> ('c, 'r, 'z) Node_scheme) option" where
  "fallback_search E jobID load [] n = Some (False, n)"
| "fallback_search E jobID load (key # keys) n =
     (case load key of
        None \<Rightarrow> fallback_search E jobID load keys n
      | Some slotData \<Rightarrow>
          if jobID \<in> set (Slot_JobIDs slotData)
          then do {
            n \<leftarrow> drop_from_slot E key slotData jobID n;
            Some (True, n\<lparr>Q_jobToSlot := fmdrop jobID (fmupd jobID key (Q_jobToSlot n))\<rparr>)
          }
          else fallback_search E jobID load keys n)"

text \<open>\<open>slotData, err := GetColdSlotData(key)\<close>, skipping an error or nil.\<close>

definition cold_slot ::
  "('c, 'r) Env \<Rightarrow> ('c, 'r, 'z) Node_scheme \<Rightarrow> int \<Rightarrow> SlotData option" where
  "cold_slot E n key = (case GetColdSlotData E n key of Inl err \<Rightarrow> None | Inr d \<Rightarrow> d)"

definition removeJobFallback ::
  "('c, 'r) Env \<Rightarrow> int key_order \<Rightarrow> string \<Rightarrow> ('c, 'r, 'z) Node_scheme \<Rightarrow> ('c, 'r, 'z) Node_scheme option" where
  "removeJobFallback E order jobID n =
     (let hot = Store_GetAllSlots n
      in if IsColdSpillingEnabled n
         then do {
           (found, n) \<leftarrow> fallback_search E jobID (cold_slot E n) (Store_GetColdSlotKeys order n) n;
           if found then Some n
           else map_option snd (fallback_search E jobID (fmlookup hot) (order (fmdom' hot)) n)
         }
         else map_option snd (fallback_search E jobID (fmlookup hot) (order (fmdom' hot)) n))"

definition RemoveJob ::
  "('c, 'r) Env \<Rightarrow> int key_order \<Rightarrow> string \<Rightarrow> ('c, 'r, 'z) Node_scheme \<Rightarrow> ('c, 'r, 'z) Node_scheme option" where
  "RemoveJob E order jobID n =
     (case fmlookup (Q_jobToSlot n) jobID of
        None \<Rightarrow> removeJobFallback E order jobID n
      | Some key \<Rightarrow>
          let n = n\<lparr>Q_jobToSlot := fmdrop jobID (Q_jobToSlot n)\<rparr>
          in case Store_GetSlot E n key of
               None \<Rightarrow> Some n
             | Some slotData \<Rightarrow> drop_from_slot E key slotData jobID n)"

text \<open>The loop of \<open>GetNextSlot\<close> over the keys that the wheel has returned.\<close>

fun discard_ready ::
  "('c, 'r) Env \<Rightarrow> int list \<Rightarrow> ('c, 'r, 'z) Node_scheme \<Rightarrow> ('c, 'r, 'z) Node_scheme option" where
  "discard_ready E [] n = Some n"
| "discard_ready E (key # keys) n =
     (case Store_GetSlot E n key of
        None \<Rightarrow> on_wheel (wheel_Remove key) n \<bind> discard_ready E keys
      | Some slotData \<Rightarrow>
          if Slot_JobIDs slotData = []
          then do {
            n \<leftarrow> on_wheel (wheel_Remove key) n;
            discard_ready E keys (if_leader E (DeleteSlot E key) n)
          }
          else discard_ready E keys n)"

text \<open>\<open>t0\<close> and \<open>now\<close> are the two readings of the clock.\<close>

definition GetNextSlot ::
  "('c, 'r) Env \<Rightarrow> int key_order \<Rightarrow> int \<Rightarrow> int \<Rightarrow> ('c, 'r, 'z) Node_scheme
     \<Rightarrow> (Slot option \<times> ('c, 'r, 'z) Node_scheme) option" where
  "GetNextSlot E order t0 now n = do {
     n \<leftarrow> (if \<not> initialized (Q_wheel n) then on_wheel (wheel_Init t0) n else Some n);
     (readyKeys, wheel) \<leftarrow> wheel_Advance order now (Q_wheel n);
     n \<leftarrow> discard_ready E readyKeys (n\<lparr>Q_wheel := wheel\<rparr>);
     let minTime = PeekMin order (Q_wheel n);
     if minTime = - 1 then Some (None, n)
     else do {
       minKey \<leftarrow> div64 minTime (seconds64 (Q_slotGap n));
       case Store_GetSlot E n minKey of
         None \<Rightarrow> Some (None, n)
       | Some slotData \<Rightarrow>
           let jobs = List.map_filter (\<lambda>jobID. Store_GetJob n jobID) (Slot_JobIDs slotData)
           in if jobs = [] then Some (None, n)
              else Some (Some \<lparr>QS_Key = minKey, QS_MinTime = Slot_MinTime slotData,
                               QS_MaxTime = Slot_MaxTime slotData, QS_Jobs = jobs\<rparr>, n)
     }
   }"

definition RemoveSlot ::
  "('c, 'r) Env \<Rightarrow> int \<Rightarrow> ('c, 'r, 'z) Node_scheme \<Rightarrow> ('c, 'r, 'z) Node_scheme option" where
  "RemoveSlot E key n =
     (let n = (case Store_GetSlot E n key of
                 None \<Rightarrow> n
               | Some slotData \<Rightarrow> n\<lparr>Q_jobToSlot := fold fmdrop (Slot_JobIDs slotData) (Q_jobToSlot n)\<rparr>)
      in map_option (if_leader E (DeleteSlot E key)) (on_wheel (wheel_Remove key) n))"

text \<open>One turn of the loops of \<open>LoadJobs\<close>: the jobs of a slot are filed, the slot is added.\<close>

definition load_slot ::
  "int \<times> SlotData \<Rightarrow> ('c, 'r, 'z) Node_scheme \<Rightarrow> ('c, 'r, 'z) Node_scheme option" where
  "load_slot kd n = (case kd of (key, slotData) \<Rightarrow>
     on_wheel (wheel_Add key)
       (n\<lparr>Q_jobToSlot := fold (\<lambda>jobID. fmupd jobID key) (Slot_JobIDs slotData) (Q_jobToSlot n)\<rparr>))"

definition LoadJobs ::
  "('c, 'r) Env \<Rightarrow> int key_order \<Rightarrow> int \<Rightarrow> int \<Rightarrow> ('c, 'r, 'z) Node_scheme \<Rightarrow> ('c, 'r, 'z) Node_scheme option" where
  "LoadJobs E order t0 now n = do {
     let n = n\<lparr>Q_jobToSlot := fmempty, Q_wheel := wheel_Reset (Q_wheel n)\<rparr>;
     n \<leftarrow> on_wheel (wheel_Init t0) n;
     let hot = Store_GetAllSlots n;
     n \<leftarrow> each load_slot (map (\<lambda>key. (key, the (fmlookup hot key))) (order (fmdom' hot))) n;
     n \<leftarrow> (if IsColdSpillingEnabled n
          then each load_slot (List.map_filter (\<lambda>key. map_option (Pair key) (cold_slot E n key))
                  (Store_GetColdSlotKeys order n)) n
          else Some n);
     Some (n\<lparr>Q_lastAdvance := now\<rparr>)
   }"

definition Queue_Size :: "('c, 'r, 'z) Node_scheme \<Rightarrow> int" where
  "Queue_Size n = wheel_Size (Q_wheel n)"

definition Queue_JobCount :: "('c, 'r, 'z) Node_scheme \<Rightarrow> int" where
  "Queue_JobCount n = map_len (Q_jobToSlot n)"

section \<open>Invariant\<close>

text \<open>
  The wheel of a queue is well formed and cut into slots of the queue's own gap.
\<close>

definition queue_ok :: "('c, 'r, 'z) Node_scheme \<Rightarrow> bool" where
  "queue_ok n \<longleftrightarrow> wheel_good (Q_wheel n) \<and> slotGapSeconds (Q_wheel n) = seconds64 (Q_slotGap n)"

lemma queue_ok_gap: "queue_ok n \<Longrightarrow> 0 < seconds64 (Q_slotGap n)"
  using wheel.gap_pos [of "Q_wheel n"] by (simp add: queue_ok_def)

lemma on_wheel_Some:
  "on_wheel f n = Some n' \<longleftrightarrow> (\<exists>w. f (Q_wheel n) = Some w \<and> n' = n\<lparr>Q_wheel := w\<rparr>)"
  by (auto simp: on_wheel_def)

text \<open>A write of the store touches Raft and the state machine only.\<close>

lemma raftApply_queue [simp]:
  "Q_wheel (snd (raftApply E cmd n)) = Q_wheel n" "Q_slotGap (snd (raftApply E cmd n)) = Q_slotGap n"
  "Q_jobToSlot (snd (raftApply E cmd n)) = Q_jobToSlot n"
  by (simp_all add: raftApply_def Let_def split: prod.splits apply_outcome.splits)

lemma slot_write_queue [simp]:
  "Q_wheel (if_leader E (CreateSlot E d) n) = Q_wheel n"
  "Q_slotGap (if_leader E (CreateSlot E d) n) = Q_slotGap n"
  "Q_jobToSlot (if_leader E (CreateSlot E d) n) = Q_jobToSlot n"
  "Q_wheel (if_leader E (DeleteSlot E k) n) = Q_wheel n"
  "Q_slotGap (if_leader E (DeleteSlot E k) n) = Q_slotGap n"
  "Q_jobToSlot (if_leader E (DeleteSlot E k) n) = Q_jobToSlot n"
  by (simp_all add: if_leader_def CreateSlot_def DeleteSlot_def)

lemma slot_write_ok [simp]:
  "queue_ok (snd (raftApply E cmd n)) = queue_ok n"
  "queue_ok (if_leader E (CreateSlot E d) n) = queue_ok n"
  "queue_ok (if_leader E (DeleteSlot E k) n) = queue_ok n"
  "queue_ok (n\<lparr>Q_jobToSlot := m\<rparr>) = queue_ok n"
  by (simp_all add: queue_ok_def)

text \<open>On a steady Raft the leader's writes take effect.\<close>

lemma steady_raftApply:
  assumes "steady_raft (raft_lib E) P" "P (St_raft s)"
  shows "IsLeader E s" "fst (raftApply E cmd s) = None" "P (St_raft (snd (raftApply E cmd s)))"
proof -
  obtain r' where "raft_Apply (raft_lib E) cmd (St_raft s) = (Applied, r')" "P r'"
    using assms unfolding steady_raft_def by blast
  then show "fst (raftApply E cmd s) = None" "P (St_raft (snd (raftApply E cmd s)))"
    by (simp_all add: raftApply_def)
  show "IsLeader E s" using assms by (simp add: steady_raft_def IsLeader_def)
qed

lemma steady_CreateSlot:
  assumes "steady_raft (raft_lib E) P" "P (St_raft n)"
  shows "P (St_raft (if_leader E (CreateSlot E d) n))"
    "St_fsm (if_leader E (CreateSlot E d) n) = (St_fsm n)\<lparr>slots := fmupd (Slot_Key d) d (slots (St_fsm n))\<rparr>"
proof -
  note S = steady_raftApply [OF assms]
  show "P (St_raft (if_leader E (CreateSlot E d) n))" using S by (simp add: if_leader_def CreateSlot_def)
  have "CreateSlot E d n = (None, snd (CreateSlot E d n))" using S by (simp add: CreateSlot_def prod_eq_iff)
  from CreateSlot_ok [OF this] S(1)
  show "St_fsm (if_leader E (CreateSlot E d) n) = (St_fsm n)\<lparr>slots := fmupd (Slot_Key d) d (slots (St_fsm n))\<rparr>"
    by (simp add: if_leader_def)
qed

lemma steady_DeleteSlot:
  assumes "steady_raft (raft_lib E) P" "P (St_raft n)" "in64 k"
  shows "P (St_raft (if_leader E (DeleteSlot E k) n))"
    "slots (St_fsm (if_leader E (DeleteSlot E k) n)) = fmdrop k (slots (St_fsm n))"
    "coldSlotMeta (St_fsm (if_leader E (DeleteSlot E k) n)) = fmdrop k (coldSlotMeta (St_fsm n))"
    "jobs (St_fsm (if_leader E (DeleteSlot E k) n)) = jobs (St_fsm n)"
proof -
  note S = steady_raftApply [OF assms(1,2)]
  show "P (St_raft (if_leader E (DeleteSlot E k) n))" using S by (simp add: if_leader_def DeleteSlot_def)
  have "DeleteSlot E k n = (None, snd (DeleteSlot E k n))" using S by (simp add: DeleteSlot_def prod_eq_iff)
  note D = DeleteSlot_ok [OF this assms(3)]
  show "slots (St_fsm (if_leader E (DeleteSlot E k) n)) = fmdrop k (slots (St_fsm n))"
    "coldSlotMeta (St_fsm (if_leader E (DeleteSlot E k) n)) = fmdrop k (coldSlotMeta (St_fsm n))"
    "jobs (St_fsm (if_leader E (DeleteSlot E k) n)) = jobs (St_fsm n)"
    using D S(1) by (simp_all add: if_leader_def)
qed

text \<open>A delete, applied or not, leaves the other slots alone.\<close>

lemma DeleteSlot_other:
  assumes "in64 k" "q \<noteq> k"
  shows "fmlookup (slots (St_fsm (if_leader E (DeleteSlot E k) n))) q = fmlookup (slots (St_fsm n)) q"
    "jobs (St_fsm (if_leader E (DeleteSlot E k) n)) = jobs (St_fsm n)"
  using raftApply_fsm [of E "zero_Command\<lparr>Cmd_Type := CommandDeleteSlot, Cmd_ID := Sprintf_d k\<rparr>" n] assms
  by (auto simp: if_leader_def DeleteSlot_def applyCommandInternal_def applyDeleteSlot_def)

section \<open>Lemmas\<close>

lemma start_wheel:
  assumes "queue_ok n" "0 \<le> now" "now < time_bound"
  shows "\<exists>w. (if \<not> initialized (Q_wheel n) then on_wheel (wheel_Init now) n else Some n) = Some (n\<lparr>Q_wheel := w\<rparr>) \<and>
     queue_ok (n\<lparr>Q_wheel := w\<rparr>) \<and> initialized w \<and> held w = held (Q_wheel n) \<and>
     (located {} (Q_wheel n) \<longrightarrow> located {} w) \<and> (initialized (Q_wheel n) \<longrightarrow> w = Q_wheel n)"
proof (cases "initialized (Q_wheel n)")
  case True
  then show ?thesis using assms(1) by (intro exI [of _ "Q_wheel n"]) simp
next
  case False
  then show ?thesis
    using wheel_Init_ok [of "Q_wheel n" now] assms by (auto simp: queue_ok_def on_wheel_def)
qed

lemma getSlotKey_ok:
  assumes "queue_ok n" "0 \<le> ts" "ts < time_bound"
  defines "g \<equiv> seconds64 (Q_slotGap n)"
  shows "getSlotKey n ts = Some (ts div g)" "key_ok g (ts div g)" "in64 (ts div g)"
    "ts div g * g \<le> ts" "ts \<le> (ts div g + 1) * g - 1"
proof -
  have g: "0 < g" using queue_ok_gap [OF assms(1)] by (simp add: g_def)
  have i: "in64 ts" using assms by simp
  show "getSlotKey n ts = Some (ts div g)"
    using div64_nonneg [OF assms(2) i g] by (simp add: getSlotKey_def g_def)
  show "in64 (ts div g)" using in64_div_nonneg [OF assms(2) i g] .
  show le: "ts div g * g \<le> ts" by (rule base_of_ok(3) [OF assms(2,3) g])
  then show "key_ok g (ts div g)" using assms(2,3) g by (simp add: key_ok_def pos_imp_zdiv_nonneg_iff)
  have "ts div g * g + ts mod g = ts" "ts mod g < g" using g by simp_all
  then show "ts \<le> (ts div g + 1) * g - 1" unfolding distrib_right by linarith
qed

lemma queue_gap_below: "queue_ok n \<Longrightarrow> seconds64 (Q_slotGap n) < time_bound"
proof -
  assume n: "queue_ok n"
  then have l: "levels_ok (seconds64 (Q_slotGap n)) (levels (Q_wheel n))"
    unfolding queue_ok_def wheel_good_def wheel_inv_def wheel_frame_ok_def by metis
  then have "0 < length (levels (Q_wheel n))" "granularity (levels (Q_wheel n) ! 0) = seconds64 (Q_slotGap n)"
    by (auto simp: levels_ok_def)
  with level_bounds(1) [OF l] show ?thesis by metis
qed

text \<open>A new slot covers the time it was made for.\<close>

lemma new_slot_covers:
  assumes "queue_ok n" "0 \<le> ts" "ts < time_bound"
  defines "g \<equiv> seconds64 (Q_slotGap n)"
  shows "Slot_MinTime (new_slot (ts div g) g i) = ts div g * g"
    "Slot_MaxTime (new_slot (ts div g) g i) = (ts div g + 1) * g - 1"
    "Slot_Key (new_slot (ts div g) g i) = ts div g" "Slot_JobIDs (new_slot (ts div g) g i) = [i]"
proof -
  have g: "0 < g" "g < time_bound" using queue_ok_gap queue_gap_below assms(1) by (auto simp: g_def)
  note K = getSlotKey_ok [OF assms(1-3), folded g_def]
  have k: "0 \<le> ts div g" "0 \<le> ts div g * g" using K(2) g by (simp_all add: key_ok_def)
  have m: "(ts div g + 1) * g = ts div g * g + g" by (simp add: distrib_right)
  have "ts div g \<le> ts" by (rule div_le_self [OF assms(2) g(1)])
  then have "in64 (ts div g + 1)" "in64 (ts div g * g)" "in64 ((ts div g + 1) * g)" "in64 ((ts div g + 1) * g - 1)"
    using k K(4) g assms(3) unfolding m in64_def by linarith+
  then show "Slot_MinTime (new_slot (ts div g) g i) = ts div g * g"
    "Slot_MaxTime (new_slot (ts div g) g i) = (ts div g + 1) * g - 1"
    by (simp_all add: new_slot_def add64_id mul64_id sub64_id)
qed (simp_all add: new_slot_def)

text \<open>The slot that \<open>AddJob\<close> writes: a new one, or the one that is there with the job appended.\<close>

definition slot_with ::
  "('c, 'r) Env \<Rightarrow> ('c, 'r, 'z) Node_scheme \<Rightarrow> int \<Rightarrow> string \<Rightarrow> SlotData" where
  "slot_with E n key jobID =
     (case Store_GetSlot E n key of
        None \<Rightarrow> new_slot key (seconds64 (Q_slotGap n)) jobID
      | Some d \<Rightarrow> d\<lparr>Slot_JobIDs := Slot_JobIDs d @ [jobID]\<rparr>)"

lemma Store_GetSlot_node [simp]:
  "Store_GetSlot E (n\<lparr>Q_wheel := w\<rparr>) k = Store_GetSlot E n k"
  "Store_GetSlot E (n\<lparr>Q_jobToSlot := m\<rparr>) k = Store_GetSlot E n k"
  by (simp_all add: Store_GetSlot_def)

lemma AddJob_ok:
  assumes "queue_ok n" "0 \<le> now" "now < time_bound" "job_time job = Some ts" "0 \<le> ts" "ts < time_bound"
  defines "key \<equiv> ts div seconds64 (Q_slotGap n)"
  shows "\<exists>w w0. AddJob E now job n = Some ((if_leader E (CreateSlot E (slot_with E n key (Job_ID job))) (n\<lparr>Q_wheel := w0\<rparr>))
        \<lparr>Q_jobToSlot := fmupd (Job_ID job) key (Q_jobToSlot n), Q_wheel := w\<rparr>) \<and>
     wheel_good w \<and> slotGapSeconds w = seconds64 (Q_slotGap n) \<and> initialized w \<and>
     held w = insert key (held (Q_wheel n)) \<and>
     (located {} (Q_wheel n) \<longrightarrow> key \<notin> held (Q_wheel n) \<longrightarrow> located {} w)"
proof -
  note K = getSlotKey_ok [OF assms(1,5,6), folded key_def]
  obtain w0 where w0: "(if \<not> initialized (Q_wheel n) then on_wheel (wheel_Init now) n else Some n) = Some (n\<lparr>Q_wheel := w0\<rparr>)"
    "wheel_good w0" "slotGapSeconds w0 = seconds64 (Q_slotGap n)" "held w0 = held (Q_wheel n)"
    "located {} (Q_wheel n) \<longrightarrow> located {} w0"
    using start_wheel [OF assms(1-3)] by (auto simp: queue_ok_def)
  obtain w where w: "wheel_Add key w0 = Some w" "wheel_good w" "slotGapSeconds w = seconds64 (Q_slotGap n)"
    "initialized w" "held w = insert key (held (Q_wheel n))"
    "located {} w0 \<longrightarrow> key \<notin> held w0 \<longrightarrow> located {} w"
    using wheel_Add_ok [OF w0(2), of key] K(2) w0(3,4) by auto
  have "AddJob E now job n = Some ((if_leader E (CreateSlot E (slot_with E n key (Job_ID job))) (n\<lparr>Q_wheel := w0\<rparr>))
        \<lparr>Q_jobToSlot := fmupd (Job_ID job) key (Q_jobToSlot n), Q_wheel := w\<rparr>)"
    unfolding AddJob_def assms(4) option.case K(1) w0(1) Option.bind_lunit
    using w(1) by (simp add: on_wheel_def Let_def slot_with_def cong: option.case_cong)
  with w w0 show ?thesis by blast
qed

section \<open>Properties\<close>

text \<open>A scheduled job is filed: on a steady leader \<open>AddJob\<close> of a job with a time in range
  never panics and keeps the wheel well formed; the wheel holds the slot key, the job is
  mapped to it, and the slot in the store lists the job. A slot made for the job spans
  one gap and covers the job's time; an existing one only grows by the job.\<close>
theorem add_job_files_it:
  assumes "queue_ok n" "0 \<le> now" "now < time_bound" "job_time job = Some ts" "0 \<le> ts" "ts < time_bound"
    and "steady_raft (raft_lib E) P" "P (St_raft n)"
    and "key = ts div seconds64 (Q_slotGap n)" "\<forall>d. Store_GetSlot E n key = Some d \<longrightarrow> Slot_Key d = key"
  shows "\<exists>n' d. AddJob E now job n = Some n' \<and> queue_ok n' \<and>
     held (Q_wheel n') = insert key (held (Q_wheel n)) \<and>
     Q_jobToSlot n' = fmupd (Job_ID job) key (Q_jobToSlot n) \<and>
     Store_GetSlot E n' key = Some d \<and>
     (case Store_GetSlot E n key of
        None \<Rightarrow> Slot_JobIDs d = [Job_ID job] \<and> Slot_MinTime d \<le> ts \<and> ts \<le> Slot_MaxTime d \<and>
          Slot_MaxTime d - Slot_MinTime d + 1 = seconds64 (Q_slotGap n)
      | Some old \<Rightarrow> d = old\<lparr>Slot_JobIDs := Slot_JobIDs old @ [Job_ID job]\<rparr>)"
proof -
  let ?d = "slot_with E n key (Job_ID job)"
  note A = AddJob_ok [OF assms(1-6), of E, folded assms(9)]
  from A obtain w w0 where w: "AddJob E now job n = Some ((if_leader E (CreateSlot E ?d) (n\<lparr>Q_wheel := w0\<rparr>))
        \<lparr>Q_jobToSlot := fmupd (Job_ID job) key (Q_jobToSlot n), Q_wheel := w\<rparr>)"
    "wheel_good w" "slotGapSeconds w = seconds64 (Q_slotGap n)" "held w = insert key (held (Q_wheel n))"
    by blast
  note K = getSlotKey_ok [OF assms(1,5,6), folded assms(9)]
  note N = new_slot_covers [OF assms(1,5,6), folded assms(9)]
  have key: "Slot_Key ?d = key"
    using assms(10) N(3) by (simp add: slot_with_def split: option.splits)
  have g: "Store_GetSlot E (if_leader E (CreateSlot E ?d) (n\<lparr>Q_wheel := w0\<rparr>)) key = Some ?d"
    using steady_CreateSlot(2) [OF assms(7), of "n\<lparr>Q_wheel := w0\<rparr>" ?d] assms(8) key
    by (simp add: Store_GetSlot_def GetSlot_def)
  have d: "case Store_GetSlot E n key of
        None \<Rightarrow> Slot_JobIDs ?d = [Job_ID job] \<and> Slot_MinTime ?d \<le> ts \<and> ts \<le> Slot_MaxTime ?d \<and>
          Slot_MaxTime ?d - Slot_MinTime ?d + 1 = seconds64 (Q_slotGap n)
      | Some old \<Rightarrow> ?d = old\<lparr>Slot_JobIDs := Slot_JobIDs old @ [Job_ID job]\<rparr>"
    using N K(4,5) by (simp add: slot_with_def distrib_right split: option.splits)
  show ?thesis
    by (rule exI, rule exI [of _ ?d], intro conjI, rule w(1))
      (use w(2-4) g d in \<open>simp_all add: queue_ok_def\<close>)
qed

text \<open>A queue as the constructor makes it, on the single node of theory \<open>Job_Store\<close>.\<close>

lemma new_queue_ok:
  assumes "gap_ok g"
  shows "\<exists>n. NewPersistentSlotQueue (g * Second) s = Some n \<and> queue_ok n \<and> held (Q_wheel n) = {} \<and>
     located {} (Q_wheel n) \<and> Q_jobToSlot n = fmempty \<and> Store.truncate n = s"
proof -
  have "g * Second \<noteq> 0" using assms by (simp add: Second_def)
  then show ?thesis
    using default_wheel_good [of g] assms
    by (auto simp: NewPersistentSlotQueue_def Store.defs Node.defs queue_ok_def)
qed

definition solo_node :: "bool \<Rightarrow> disk FSM \<Rightarrow> (disk, solo) Node" where
  "solo_node leader f = the (NewPersistentSlotQueue DefaultSlotGap (solo_store leader f))"

lemma solo_node_facts [simp]:
  "queue_ok (solo_node l f)" "held (Q_wheel (solo_node l f)) = {}" "Q_wheel (solo_node l f) = sample_wheel"
  "located {} (Q_wheel (solo_node l f))" "Q_jobToSlot (solo_node l f) = fmempty"
  "Q_slotGap (solo_node l f) = DefaultSlotGap" "St_fsm (solo_node l f) = f"
  "solo_leader (St_raft (solo_node l f)) = l"
proof -
  obtain n where n: "NewPersistentSlotQueue DefaultSlotGap (solo_store l f) = Some n" "queue_ok n"
    "held (Q_wheel n) = {}" "located {} (Q_wheel n)" "Q_jobToSlot n = fmempty" "Store.truncate n = solo_store l f"
    using new_queue_ok [of 10 "solo_store l f"] by (auto simp: DefaultSlotGap_def)
  have e: "solo_node l f = n" using n(1) by (simp add: solo_node_def)
  have "St_fsm n = St_fsm (Store.truncate n)" "St_raft n = St_raft (Store.truncate n)"
    by (simp_all add: Store.truncate_def)
  then show "queue_ok (solo_node l f)" "held (Q_wheel (solo_node l f)) = {}"
    "located {} (Q_wheel (solo_node l f))" "Q_jobToSlot (solo_node l f) = fmempty" "St_fsm (solo_node l f) = f"
    "solo_leader (St_raft (solo_node l f)) = l"
    using n by (simp_all add: e)
  have "DefaultSlotGap \<noteq> 0" by (simp add: DefaultSlotGap_def Second_def)
  then show "Q_slotGap (solo_node l f) = DefaultSlotGap" "Q_wheel (solo_node l f) = sample_wheel"
    using n(1) by (auto simp: e NewPersistentSlotQueue_def sample_wheel_def Store.defs Node.defs)
qed

lemma seconds_default [simp]: "seconds64 DefaultSlotGap = 10"
  by (simp add: DefaultSlotGap_def)

lemma solo_empty_slot [simp]: "Store_GetSlot E (solo_node l NewFSM) k = None"
  by (simp add: Store_GetSlot_def GetSlot_def NewFSM_def)

lemma add_job_files_it_witness:
  "\<exists>n' d. AddJob solo_env 100 sample_job (solo_node True NewFSM) = Some n' \<and>
     Store_GetSlot solo_env n' 10 = Some d \<and> Slot_JobIDs d = [''a'']"
  using add_job_files_it [of "solo_node True NewFSM" 100 sample_job 105 solo_env solo_leader 10]
  by (auto simp: solo_steady sample_job_def job_time_def)

lemma drop_from_slot_ok:
  fixes jobID :: string
  assumes "queue_ok n" "steady_raft (raft_lib E) P" "P (St_raft n)" "Slot_Key d = key" "in64 key"
  defines "rest \<equiv> remove1 jobID (Slot_JobIDs d)"
  shows "\<exists>n'. drop_from_slot E key d jobID n = Some n' \<and> queue_ok n' \<and> P (St_raft n') \<and>
     Q_jobToSlot n' = Q_jobToSlot n \<and> jobs (St_fsm n') = jobs (St_fsm n) \<and>
     slots (St_fsm n') = (if rest = [] then fmdrop key (slots (St_fsm n))
       else fmupd key (d\<lparr>Slot_JobIDs := rest\<rparr>) (slots (St_fsm n))) \<and>
     coldSlotMeta (St_fsm n') = (if rest = [] then fmdrop key (coldSlotMeta (St_fsm n)) else coldSlotMeta (St_fsm n)) \<and>
     (located {} (Q_wheel n) \<longrightarrow>
        held (Q_wheel n') = (if rest = [] then held (Q_wheel n) - {key} else held (Q_wheel n)))"
proof (cases "rest = []")
  case True
  let ?n = "if_leader E (DeleteSlot E key) n"
  obtain w where w: "wheel_Remove key (Q_wheel n) = Some w" "wheel_good w"
    "slotGapSeconds w = seconds64 (Q_slotGap n)" "located {} (Q_wheel n) \<longrightarrow> held w = held (Q_wheel n) - {key}"
    using wheel_Remove_ok [of "Q_wheel n" key] assms(1) by (auto simp: queue_ok_def)
  have "drop_from_slot E key d jobID n = Some (?n\<lparr>Q_wheel := w\<rparr>)"
    using True w(1) by (simp add: drop_from_slot_def on_wheel_def rest_def)
  then show ?thesis using True w(2-4) steady_DeleteSlot [OF assms(2,3,5)] by (simp add: queue_ok_def)
next
  case False
  let ?d = "d\<lparr>Slot_JobIDs := rest\<rparr>"
  have "drop_from_slot E key d jobID n = Some (if_leader E (CreateSlot E ?d) n)"
    using False by (simp add: drop_from_slot_def rest_def)
  then show ?thesis using False assms(1,4) steady_CreateSlot [OF assms(2,3), of ?d] by simp
qed

text \<open>The slot with a job that is new to it, and the way back.\<close>

lemma slot_with_facts:
  assumes "queue_ok n" "0 \<le> ts" "ts < time_bound"
    and "key = ts div seconds64 (Q_slotGap n)" "fmlookup (coldSlotMeta (St_fsm n)) key = None"
    and "\<forall>d. fmlookup (slots (St_fsm n)) key = Some d \<longrightarrow> Slot_Key d = key \<and> Slot_JobIDs d \<noteq> [] \<and> i \<notin> set (Slot_JobIDs d)"
  shows "Slot_Key (slot_with E n key i) = key"
    "remove1 i (Slot_JobIDs (slot_with E n key i)) =
       (case fmlookup (slots (St_fsm n)) key of None \<Rightarrow> [] | Some d \<Rightarrow> Slot_JobIDs d)"
    "\<And>d. fmlookup (slots (St_fsm n)) key = Some d \<Longrightarrow> (slot_with E n key i)\<lparr>Slot_JobIDs := Slot_JobIDs d\<rparr> = d"
proof -
  note N = new_slot_covers [OF assms(1-3), folded assms(4)]
  have "Store_GetSlot E n key = fmlookup (slots (St_fsm n)) key"
    using assms(5) by (simp add: Store_GetSlot_def GetSlot_def IsSlotCold_def split: option.splits)
  then have D: "slot_with E n key i = (case fmlookup (slots (St_fsm n)) key of
        None \<Rightarrow> new_slot key (seconds64 (Q_slotGap n)) i
      | Some d \<Rightarrow> d\<lparr>Slot_JobIDs := Slot_JobIDs d @ [i]\<rparr>)"
    by (simp add: slot_with_def)
  show "Slot_Key (slot_with E n key i) = key"
    using assms(6) N(3) by (cases "fmlookup (slots (St_fsm n)) key") (simp_all add: D)
  show "remove1 i (Slot_JobIDs (slot_with E n key i)) =
       (case fmlookup (slots (St_fsm n)) key of None \<Rightarrow> [] | Some d \<Rightarrow> Slot_JobIDs d)"
    using assms(6) N(4) by (cases "fmlookup (slots (St_fsm n)) key") (simp_all add: D remove1_append)
  show "\<And>d. fmlookup (slots (St_fsm n)) key = Some d \<Longrightarrow> (slot_with E n key i)\<lparr>Slot_JobIDs := Slot_JobIDs d\<rparr> = d"
    by (simp add: D)
qed

text \<open>C21: Adding a job and removing it again is neutral: on a steady leader, when the slot of the
  job is not archived and is absent, or has other jobs but not this one, \<open>RemoveJob\<close> after
  \<open>AddJob\<close> gives back the same slots in the store and the same filing of all other jobs;
  a slot made for the job also leaves the wheel again.\<close>
theorem add_remove_round_trip:
  assumes "queue_ok n" "0 \<le> now" "now < time_bound" "job_time job = Some ts" "0 \<le> ts" "ts < time_bound"
    and "steady_raft (raft_lib E) P" "P (St_raft n)"
    and "key = ts div seconds64 (Q_slotGap n)" "fmlookup (coldSlotMeta (St_fsm n)) key = None"
    and "\<forall>d. fmlookup (slots (St_fsm n)) key = Some d \<longrightarrow>
       Slot_Key d = key \<and> Slot_JobIDs d \<noteq> [] \<and> Job_ID job \<notin> set (Slot_JobIDs d)"
  shows "\<exists>n1 n2. AddJob E now job n = Some n1 \<and> RemoveJob E order (Job_ID job) n1 = Some n2 \<and>
     queue_ok n2 \<and> slots (St_fsm n2) = slots (St_fsm n) \<and> jobs (St_fsm n2) = jobs (St_fsm n) \<and>
     Q_jobToSlot n2 = fmdrop (Job_ID job) (Q_jobToSlot n) \<and>
     (located {} (Q_wheel n) \<longrightarrow> key \<notin> held (Q_wheel n) \<longrightarrow> fmlookup (slots (St_fsm n)) key = None \<longrightarrow>
        held (Q_wheel n2) = held (Q_wheel n))"
proof -
  let ?d = "slot_with E n key (Job_ID job)"
  obtain w w0 where w: "AddJob E now job n = Some ((if_leader E (CreateSlot E ?d) (n\<lparr>Q_wheel := w0\<rparr>))
        \<lparr>Q_jobToSlot := fmupd (Job_ID job) key (Q_jobToSlot n), Q_wheel := w\<rparr>)" (is "_ = Some ?n1")
    "wheel_good w" "slotGapSeconds w = seconds64 (Q_slotGap n)" "held w = insert key (held (Q_wheel n))"
    "located {} (Q_wheel n) \<longrightarrow> key \<notin> held (Q_wheel n) \<longrightarrow> located {} w"
    using AddJob_ok [OF assms(1-6), of E, folded assms(9)] by (elim exE conjE) (rule that)
  note K = getSlotKey_ok [OF assms(1,5,6), folded assms(9)]
  note key = slot_with_facts(1) [where E = E, OF assms(1,5,6,9-11)] and rest = slot_with_facts(2) [where E = E, OF assms(1,5,6,9-11)]
    and same = slot_with_facts(3) [where E = E, OF assms(1,5,6,9-11)]
  note C = steady_CreateSlot [OF assms(7), of "n\<lparr>Q_wheel := w0\<rparr>" ?d]
  let ?m = "?n1\<lparr>Q_jobToSlot := fmdrop (Job_ID job) (Q_jobToSlot ?n1)\<rparr>"
  have m: "queue_ok ?m" "P (St_raft ?m)" using w(2,3) C(1) assms(8) by (simp_all add: queue_ok_def)
  have R: "RemoveJob E order (Job_ID job) ?n1 = drop_from_slot E key ?d (Job_ID job) ?m"
    using C(2) assms(8) key by (simp add: RemoveJob_def Let_def Store_GetSlot_def GetSlot_def)
  have cleared: "fmdrop (Job_ID job) (fmupd (Job_ID job) key (Q_jobToSlot n)) = fmdrop (Job_ID job) (Q_jobToSlot n)"
    by (rule fmap_ext) simp
  have undo: "fmdrop key (fmupd key ?d (slots (St_fsm n))) = slots (St_fsm n)"
    if "fmlookup (slots (St_fsm n)) key = None"
    by (rule fmap_ext) (use that in simp)
  obtain n2 where n2: "drop_from_slot E key ?d (Job_ID job) ?m = Some n2" "queue_ok n2"
    "Q_jobToSlot n2 = Q_jobToSlot ?m" "jobs (St_fsm n2) = jobs (St_fsm ?m)"
    "slots (St_fsm n2) = (if remove1 (Job_ID job) (Slot_JobIDs ?d) = [] then fmdrop key (slots (St_fsm ?m))
       else fmupd key (?d\<lparr>Slot_JobIDs := remove1 (Job_ID job) (Slot_JobIDs ?d)\<rparr>) (slots (St_fsm ?m)))"
    "located {} (Q_wheel ?m) \<longrightarrow> held (Q_wheel n2) =
       (if remove1 (Job_ID job) (Slot_JobIDs ?d) = [] then held (Q_wheel ?m) - {key} else held (Q_wheel ?m))"
    using drop_from_slot_ok [OF m(1) assms(7) m(2) key K(3), of "Job_ID job"] by blast
  have fsm: "slots (St_fsm ?m) = fmupd key ?d (slots (St_fsm n))" "jobs (St_fsm ?m) = jobs (St_fsm n)"
    using C(2) assms(8) key by simp_all
  have "slots (St_fsm n2) = slots (St_fsm n)"
    using n2(5) [unfolded fsm rest] assms(11) undo same by (cases "fmlookup (slots (St_fsm n)) key") simp_all
  moreover have "located {} (Q_wheel n) \<longrightarrow> key \<notin> held (Q_wheel n) \<longrightarrow>
      fmlookup (slots (St_fsm n)) key = None \<longrightarrow> held (Q_wheel n2) = held (Q_wheel n)"
    using n2(6) w(4,5) by (simp add: rest)
  ultimately show ?thesis using w(1) R n2(1-3) n2(4) [unfolded fsm] cleared by simp
qed

lemma add_remove_round_trip_witness:
  "\<exists>n1 n2. AddJob solo_env 100 sample_job (solo_node True NewFSM) = Some n1 \<and>
     RemoveJob solo_env sorted_list_of_set ''a'' n1 = Some n2 \<and> slots (St_fsm n2) = fmempty"
  using add_remove_round_trip [of "solo_node True NewFSM" 100 sample_job 105 solo_env solo_leader 10 sorted_list_of_set]
  by (auto simp: solo_steady sample_job_def job_time_def NewFSM_def)

section \<open>The next slot\<close>

text \<open>The keys of a well-formed wheel are in the range of \<open>int64\<close>.\<close>

lemma held_in64: "queue_ok n \<Longrightarrow> k \<in> held (Q_wheel n) \<Longrightarrow> in64 k"
proof -
  assume n: "queue_ok n" "k \<in> held (Q_wheel n)"
  then have "wheel_frame_ok (Q_wheel n)" by (simp add: queue_ok_def wheel_good_def wheel_inv_def)
  with n have k: "key_ok (seconds64 (Q_slotGap n)) k"
    unfolding wheel_frame_ok_def queue_ok_def by metis
  have "k * 1 \<le> k * seconds64 (Q_slotGap n)"
    using k queue_ok_gap [OF n(1)] by (intro mult_left_mono) (auto simp: key_ok_def)
  with k show ?thesis by (simp add: key_ok_def)
qed

lemma Store_GetSlot_hot: "fmlookup (slots (St_fsm n)) k = Some d \<Longrightarrow> Store_GetSlot E n k = Some d"
  by (simp add: Store_GetSlot_def GetSlot_def)

lemma remove_ready:
  assumes "queue_ok n"
  obtains w where "on_wheel (wheel_Remove key) n = Some (n\<lparr>Q_wheel := w\<rparr>)" "queue_ok (n\<lparr>Q_wheel := w\<rparr>)"
    "held w \<subseteq> held (Q_wheel n)" "held (Q_wheel n) - {key} \<subseteq> held w" "initialized w = initialized (Q_wheel n)"
    "currentBase w = currentBase (Q_wheel n)"
  using wheel_Remove_ok [of "Q_wheel n" key] assms by (auto simp: queue_ok_def on_wheel_def)

text \<open>
  The loop of \<open>GetNextSlot\<close> forgets only keys it was given, and no slot with jobs leaves the
  store.
\<close>

definition discards :: "int set \<Rightarrow> ('c, 'r, 'z) Node_scheme \<Rightarrow> ('c, 'r, 'z) Node_scheme \<Rightarrow> bool" where
  "discards K n n' \<longleftrightarrow> queue_ok n' \<and> held (Q_wheel n') \<subseteq> held (Q_wheel n) \<and>
     held (Q_wheel n) - K \<subseteq> held (Q_wheel n') \<and> initialized (Q_wheel n') = initialized (Q_wheel n) \<and>
     currentBase (Q_wheel n') = currentBase (Q_wheel n) \<and>
     Q_slotGap n' = Q_slotGap n \<and> Q_jobToSlot n' = Q_jobToSlot n \<and> jobs (St_fsm n') = jobs (St_fsm n) \<and>
     (\<forall>k d. fmlookup (slots (St_fsm n)) k = Some d \<longrightarrow> Slot_JobIDs d \<noteq> [] \<longrightarrow>
        fmlookup (slots (St_fsm n')) k = Some d)"

lemma discards_refl: "queue_ok n \<Longrightarrow> discards K n n"
  by (simp add: discards_def)

lemma discards_trans: "discards K a b \<Longrightarrow> discards L b c \<Longrightarrow> discards (K \<union> L) a c"
  unfolding discards_def by (intro conjI; (elim conjE)?) (simp | blast)+

lemma discard_ready_ok:
  assumes "queue_ok n" "\<forall>k \<in> set keys. in64 k"
  shows "\<exists>n'. discard_ready E keys n = Some n' \<and> discards (set keys) n n'"
  using assms
proof (induction keys arbitrary: n)
  case Nil
  then show ?case by (simp add: discards_refl)
next
  case (Cons key keys)
  obtain w where w: "on_wheel (wheel_Remove key) n = Some (n\<lparr>Q_wheel := w\<rparr>)" "queue_ok (n\<lparr>Q_wheel := w\<rparr>)"
    "held w \<subseteq> held (Q_wheel n)" "held (Q_wheel n) - {key} \<subseteq> held w" "initialized w = initialized (Q_wheel n)"
    "currentBase w = currentBase (Q_wheel n)"
    using remove_ready [OF Cons.prems(1)] .
  let ?n = "if_leader E (DeleteSlot E key) (n\<lparr>Q_wheel := w\<rparr>)"
  have key: "in64 key" using Cons.prems(2) by simp
  have removed: "discards {key} n (n\<lparr>Q_wheel := w\<rparr>)" using w by (simp add: discards_def)
  have deleted: "discards {key} n ?n" if d: "Store_GetSlot E n key = Some d" "Slot_JobIDs d = []" for d
  proof -
    have "fmlookup (slots (St_fsm ?n)) k = Some d'"
      if "fmlookup (slots (St_fsm n)) k = Some d'" "Slot_JobIDs d' \<noteq> []" for k d'
      using DeleteSlot_other(1) [OF key, of k E "n\<lparr>Q_wheel := w\<rparr>"] that d Store_GetSlot_hot [of n key d' E]
      by (cases "k = key") auto
    then show ?thesis
      using w DeleteSlot_other(2) [OF key, of "key + 1" E "n\<lparr>Q_wheel := w\<rparr>"] by (simp add: discards_def)
  qed
  have "\<exists>n1. discard_ready E (key # keys) n = discard_ready E keys n1 \<and> discards {key} n n1"
  proof (cases "Store_GetSlot E n key")
    case None
    then show ?thesis using w(1) removed by (intro exI [of _ "n\<lparr>Q_wheel := w\<rparr>"]) simp
  next
    case (Some d)
    show ?thesis
    proof (cases "Slot_JobIDs d = []")
      case True
      then show ?thesis using Some w(1) deleted [OF Some] by (intro exI [of _ ?n]) simp
    next
      case False
      then show ?thesis using Some discards_refl [OF Cons.prems(1)] by (intro exI [of _ n]) simp
    qed
  qed
  then obtain n1 where n1: "discard_ready E (key # keys) n = discard_ready E keys n1" "discards {key} n n1"
    by blast
  then have "queue_ok n1" by (simp add: discards_def)
  with Cons.IH Cons.prems(2) obtain n' where n': "discard_ready E keys n1 = Some n'" "discards (set keys) n1 n'"
    by auto
  from discards_trans [OF n1(2) n'(2)] n1(1) n'(1) show ?case by simp
qed

text \<open>The slot object that \<open>GetNextSlot\<close> hands out for a key, or nil.\<close>

definition slot_of ::
  "('c, 'r) Env \<Rightarrow> ('c, 'r, 'z) Node_scheme \<Rightarrow> int \<Rightarrow> Slot option" where
  "slot_of E n key =
     (case Store_GetSlot E n key of
        None \<Rightarrow> None
      | Some d \<Rightarrow>
          let jobs = List.map_filter (\<lambda>jobID. Store_GetJob n jobID) (Slot_JobIDs d)
          in if jobs = [] then None
             else Some \<lparr>QS_Key = key, QS_MinTime = Slot_MinTime d, QS_MaxTime = Slot_MaxTime d, QS_Jobs = jobs\<rparr>)"

text \<open>
  \<open>GetNextSlot\<close> in three steps: the wheel advances to \<open>now\<close>, the keys it gives up are
  dropped, and the slot of what \<open>PeekMin\<close> reports of the rest is read from the store.
\<close>

lemma GetNextSlot_ok:
  assumes "range_order order" "queue_ok n" "0 \<le> t0" "t0 < time_bound" "0 \<le> now" "now < time_bound"
  shows "\<exists>w ready w' n'. queue_ok (n\<lparr>Q_wheel := w\<rparr>) \<and> initialized w \<and> held w = held (Q_wheel n) \<and>
     (initialized (Q_wheel n) \<longrightarrow> w = Q_wheel n) \<and>
     wheel_Advance order now w = Some (ready, w') \<and>
     held w = held w' \<union> set ready \<and> discards (set ready) (n\<lparr>Q_wheel := w'\<rparr>) n' \<and>
     GetNextSlot E order t0 now n =
       Some (if held (Q_wheel n') = {} then None
             else slot_of E n' (PeekMin order (Q_wheel n') div seconds64 (Q_slotGap n)), n')"
proof -
  let ?g = "seconds64 (Q_slotGap n)"
  obtain w where w: "(if \<not> initialized (Q_wheel n) then on_wheel (wheel_Init t0) n else Some n) = Some (n\<lparr>Q_wheel := w\<rparr>)"
    "queue_ok (n\<lparr>Q_wheel := w\<rparr>)" "initialized w" "held w = held (Q_wheel n)"
    "initialized (Q_wheel n) \<longrightarrow> w = Q_wheel n"
    using start_wheel [OF assms(2-4)] by blast
  then have good: "wheel_good w" "slotGapSeconds w = ?g" by (simp_all add: queue_ok_def)
  obtain ready w' where a: "wheel_Advance order now w = Some (ready, w')" "wheel_good w'"
    "slotGapSeconds w' = ?g" "initialized w'" "held w = held w' \<union> set ready"
    using wheel_Advance_ok [OF assms(1) good(1) assms(5,6)] good(2) w(3) by auto
  have "\<forall>k \<in> set ready. in64 k" using held_in64 [OF w(2)] a(5) by simp
  moreover have n1: "queue_ok (n\<lparr>Q_wheel := w'\<rparr>)" using a(2,3) by (simp add: queue_ok_def)
  ultimately obtain n' where n': "discard_ready E ready (n\<lparr>Q_wheel := w'\<rparr>) = Some n'"
    "discards (set ready) (n\<lparr>Q_wheel := w'\<rparr>) n'"
    using discard_ready_ok by blast
  then have q: "queue_ok n'" "initialized (Q_wheel n')" "Q_slotGap n' = Q_slotGap n"
    using a(4) by (simp_all add: discards_def)
  note P = PeekMin_facts(1,2) [OF assms(1) _ q(2)]
  have good': "wheel_good (Q_wheel n')" "slotGapSeconds (Q_wheel n') = ?g" using q by (simp_all add: queue_ok_def)
  have "GetNextSlot E order t0 now n = Some (if held (Q_wheel n') = {} then None
             else slot_of E n' (PeekMin order (Q_wheel n') div ?g), n')"
  proof (cases "held (Q_wheel n') = {}")
    case True
    then show ?thesis using P(1) [OF good'(1)] w(1) a(1) n'(1)
      unfolding GetNextSlot_def w(1) by simp
  next
    case False
    then obtain k where k: "k \<in> held (Q_wheel n')" "PeekMin order (Q_wheel n') = k * ?g"
      using P [OF good'(1)] good'(2) by auto
    have g: "0 < ?g" by (rule queue_ok_gap [OF assms(2)])
    have "key_ok ?g k" using k(1) good' unfolding wheel_good_def wheel_inv_def wheel_frame_ok_def by metis
    then have "0 \<le> k * ?g" "in64 (k * ?g)" using g by (simp_all add: key_ok_def)
    then have "div64 (PeekMin order (Q_wheel n')) ?g = Some k" "PeekMin order (Q_wheel n') \<noteq> - 1"
      using g k(2) by (simp_all add: div64_nonneg)
    then show ?thesis using False w(1) a(1) n'(1) k(2) g q(3)
      unfolding GetNextSlot_def w(1) by (simp add: slot_of_def Let_def split: option.splits)
  qed
  with w(2-5) a(1,5) n'(2) show ?thesis by blast
qed

text \<open>C23: The next slot is a real one: \<open>GetNextSlot\<close> never panics on a well-formed queue and keeps
  it well formed; it adds no key to the wheel, and a slot it returns has a key the wheel
  still holds, the bounds of the slot in the store, and exactly those of the slot's jobs
  that exist, at least one.\<close>
theorem next_slot_is_held:
  assumes "range_order order" "queue_ok n" "0 \<le> t0" "t0 < time_bound" "0 \<le> now" "now < time_bound"
  shows "\<exists>r n'. GetNextSlot E order t0 now n = Some (r, n') \<and> queue_ok n' \<and>
     held (Q_wheel n') \<subseteq> held (Q_wheel n) \<and>
     (\<forall>sl. r = Some sl \<longrightarrow> QS_Key sl \<in> held (Q_wheel n') \<and> QS_Jobs sl \<noteq> [] \<and>
        (\<exists>d. Store_GetSlot E n' (QS_Key sl) = Some d \<and> QS_MinTime sl = Slot_MinTime d \<and>
           QS_MaxTime sl = Slot_MaxTime d \<and> QS_Jobs sl = List.map_filter (Store_GetJob n') (Slot_JobIDs d)))"
proof -
  obtain w ready w' n' where f: "held w = held (Q_wheel n)" "held w = held w' \<union> set ready"
    "discards (set ready) (n\<lparr>Q_wheel := w'\<rparr>) n'" "wheel_Advance order now w = Some (ready, w')" "initialized w"
    "queue_ok (n\<lparr>Q_wheel := w\<rparr>)"
    and r: "GetNextSlot E order t0 now n = Some (if held (Q_wheel n') = {} then None
             else slot_of E n' (PeekMin order (Q_wheel n') div seconds64 (Q_slotGap n)), n')"
    using GetNextSlot_ok [OF assms, of E] by blast
  have q: "queue_ok n'" "held (Q_wheel n') \<subseteq> held (Q_wheel n)" "Q_slotGap n' = Q_slotGap n"
    using f(1-3) by (auto simp: discards_def)
  have "initialized w'" using wheel_Advance_ok [OF assms(1) _ assms(5,6), of w] f(4-6) by (auto simp: queue_ok_def)
  then have "initialized (Q_wheel n')" using f(3) by (simp add: discards_def)
  note P = PeekMin_facts(1,2) [OF assms(1) _ this]
  have held: "PeekMin order (Q_wheel n') div seconds64 (Q_slotGap n) \<in> held (Q_wheel n')" if "held (Q_wheel n') \<noteq> {}"
    using P that q(1,3) queue_ok_gap [OF assms(2)] by (auto simp: queue_ok_def)
  show ?thesis
    unfolding r using q held by (auto simp: slot_of_def Let_def split: option.splits if_splits)
qed

text \<open>A slot whose jobs were not run in time is never offered again: when the clock reaches
  the next slot, a due key is dropped from the wheel although its slot, with all its jobs,
  stays in the store.\<close>
theorem late_slot_is_dropped:
  assumes "range_order order" "queue_ok n" "0 \<le> now" "now < time_bound" "0 \<le> t0" "t0 < time_bound"
    and "initialized (Q_wheel n)" "located {} (Q_wheel n)" "key \<in> held (Q_wheel n)"
    and "key * seconds64 (Q_slotGap n) \<le> currentBase (Q_wheel n)"
    and "currentBase (Q_wheel n) < now div seconds64 (Q_slotGap n) * seconds64 (Q_slotGap n)"
    and "fmlookup (slots (St_fsm n)) key = Some d" "Slot_JobIDs d \<noteq> []"
  shows "\<exists>r n'. GetNextSlot E order t0 now n = Some (r, n') \<and> key \<notin> held (Q_wheel n') \<and>
     map_option QS_Key r \<noteq> Some key \<and> Store_GetSlot E n' key = Some d"
proof -
  let ?g = "seconds64 (Q_slotGap n)"
  have good: "wheel_good (Q_wheel n)" "slotGapSeconds (Q_wheel n) = ?g" using assms(2) by (simp_all add: queue_ok_def)
  obtain w ready w' n' where w: "initialized (Q_wheel n) \<longrightarrow> w = Q_wheel n"
    and a: "wheel_Advance order now w = Some (ready, w')"
    and n': "discards (set ready) (n\<lparr>Q_wheel := w'\<rparr>) n'"
    and r: "GetNextSlot E order t0 now n = Some (if held (Q_wheel n') = {} then None
             else slot_of E n' (PeekMin order (Q_wheel n') div ?g), n')"
    using GetNextSlot_ok [OF assms(1,2,5,6,3,4), of E] by (elim exE conjE) (rule that)
  have w: "w = Q_wheel n" using w assms(7) by simp
  have "key \<in> set ready"
    using wheel_Advance_ok [OF assms(1) good(1) assms(3,4)] a assms(7,11) good(2)
      due_key_current [OF good(1) assms(9)] assms(10) by (auto simp: w)
  moreover have adv: "set ready \<inter> held w' = {}" "initialized w'"
    using wheel_Advance_ok [OF assms(1) good(1) assms(3,4)] a assms(7,8) by (auto simp: w)
  ultimately have gone: "key \<notin> held (Q_wheel n')" using n' by (auto simp: discards_def)
  have q: "queue_ok n'" "initialized (Q_wheel n')" "Q_slotGap n' = Q_slotGap n"
    using n' adv(2) by (simp_all add: discards_def)
  have "PeekMin order (Q_wheel n') div ?g \<in> held (Q_wheel n')" if "held (Q_wheel n') \<noteq> {}"
    using PeekMin_facts(1,2) [OF assms(1) _ q(2)] that q(1,3) queue_ok_gap [OF assms(2)] by (auto simp: queue_ok_def)
  with gone have "map_option QS_Key (if held (Q_wheel n') = {} then None
             else slot_of E n' (PeekMin order (Q_wheel n') div ?g)) \<noteq> Some key"
    by (auto simp: slot_of_def Let_def split: option.splits if_splits)
  moreover have "fmlookup (slots (St_fsm n')) key = Some d"
    using n' assms(12,13) by (simp add: discards_def)
  ultimately show ?thesis using r gone Store_GetSlot_hot by blast
qed

definition late_node :: "(disk, solo) Node" where
  "late_node = (solo_node True (NewFSM\<lparr>slots := fmupd 100 (new_slot 100 10 ''a'') fmempty\<rparr>))\<lparr>Q_wheel := sample_held\<rparr>"

lemma late_node_simps [simp]:
  "queue_ok late_node" "Q_wheel late_node = sample_held" "seconds64 (Q_slotGap late_node) = 10"
  "fmlookup (slots (St_fsm late_node)) 100 = Some (new_slot 100 10 ''a'')"
  by (simp_all add: late_node_def queue_ok_def sample_held_good)

lemma next_slot_is_held_witness:
  "\<exists>r n'. GetNextSlot solo_env sorted_list_of_set 1005 1005 late_node = Some (r, n') \<and>
     held (Q_wheel n') \<subseteq> {100, 500}"
  using next_slot_is_held [OF range_order_sorted, of late_node 1005 1005 solo_env] sample_held_good(3) by auto

lemma late_slot_is_dropped_witness:
  "\<exists>r n'. GetNextSlot solo_env sorted_list_of_set 1015 1015 late_node = Some (r, n') \<and>
     100 \<notin> held (Q_wheel n') \<and> Store_GetSlot solo_env n' 100 = Some (new_slot 100 10 ''a'')"
  using late_slot_is_dropped [OF range_order_sorted, of late_node 1015 1015 100 "new_slot 100 10 ''a''" solo_env]
    sample_held_good
  by (auto simp: new_slot_def)

section \<open>Loading\<close>

definition filed ::
  "(int \<times> SlotData) list \<Rightarrow> (string, int) fmap \<Rightarrow> (string, int) fmap" where
  "filed kds m = fold (\<lambda>(key, d). fold (\<lambda>jobID. fmupd jobID key) (Slot_JobIDs d)) kds m"

lemma each_load_slot:
  "each load_slot kds n =
     map_option (\<lambda>w. n\<lparr>Q_jobToSlot := filed kds (Q_jobToSlot n), Q_wheel := w\<rparr>)
       (each wheel_Add (map fst kds) (Q_wheel n))"
proof (induction kds arbitrary: n)
  case Nil
  then show ?case by (simp add: filed_def)
next
  case (Cons kd kds)
  obtain key d where kd: "kd = (key, d)" by (cases kd)
  have "load_slot kd n = map_option (\<lambda>w. n\<lparr>Q_jobToSlot := filed [kd] (Q_jobToSlot n), Q_wheel := w\<rparr>)
      (wheel_Add key (Q_wheel n))"
    by (simp add: kd load_slot_def on_wheel_def filed_def)
  moreover have "filed kds (filed [kd] m) = filed (kd # kds) m" for m by (simp add: filed_def)
  ultimately show ?case
    by (cases "wheel_Add key (Q_wheel n)") (simp_all add: kd Cons.IH)
qed

lemma lookup_fold_fmupd:
  "fmlookup (fold (\<lambda>i. fmupd i v) is m) x = (if x \<in> set is then Some v else fmlookup m x)"
  by (induction "is" arbitrary: m) auto

lemma lookup_filed:
  "fmlookup (filed kds m) i = Some k \<Longrightarrow> (\<exists>d. (k, d) \<in> set kds \<and> i \<in> set (Slot_JobIDs d)) \<or> fmlookup m i = Some k"
  "(key, d) \<in> set kds \<Longrightarrow> i \<in> set (Slot_JobIDs d) \<Longrightarrow> fmlookup (filed kds m) i \<noteq> None"
  "fmlookup m i \<noteq> None \<Longrightarrow> fmlookup (filed kds m) i \<noteq> None"
proof (induction kds arbitrary: m)
  case Nil
  { case 1 then show ?case by (simp add: filed_def) }
  { case 2 then show ?case by simp }
  { case 3 then show ?case by (simp add: filed_def) }
next
  case (Cons kd kds)
  obtain q e where kd: "kd = (q, e)" by (cases kd)
  have step: "filed (kd # kds) m = filed kds (fold (\<lambda>jobID. fmupd jobID q) (Slot_JobIDs e) m)" for m
    by (simp add: filed_def kd)
  { case 1
    from Cons.IH(1) [OF 1 [unfolded step]] show ?case by (auto simp: kd lookup_fold_fmupd split: if_splits) }
  { case 2
    then show ?case using Cons.IH(2,3) by (auto simp: step [unfolded kd] kd lookup_fold_fmupd) }
  { case 3
    then show ?case using Cons.IH(3) by (simp add: step lookup_fold_fmupd) }
qed

lemma each_append: "each f (xs @ ys) w = each f xs w \<bind> each f ys"
  by (induction xs arbitrary: w) (auto split: bind_splits)

text \<open>The slots that \<open>LoadJobs\<close> finds: the hot ones, and the archived ones it can read.\<close>

definition found_slot :: "('c, 'r) Env \<Rightarrow> ('c, 'r, 'z) Node_scheme \<Rightarrow> int \<Rightarrow> SlotData \<Rightarrow> bool" where
  "found_slot E n key d \<longleftrightarrow> fmlookup (slots (St_fsm n)) key = Some d \<or>
     fmlookup (coldSlotMeta (St_fsm n)) key \<noteq> None \<and> cold_slot E n key = Some d"

lemma range_order_keys:
  "range_order order \<Longrightarrow> key \<in> set (order (fmdom' m)) \<longleftrightarrow> fmlookup m key \<noteq> None"
  by (simp add: fmlookup_dom'_iff)

lemma found_in_lists:
  assumes "range_order order"
  shows "set (map (\<lambda>key. (key, the (fmlookup (slots (St_fsm n)) key))) (order (fmdom' (slots (St_fsm n)))))
       = {(key, d). fmlookup (slots (St_fsm n)) key = Some d}"
    "set (List.map_filter (\<lambda>key. map_option (Pair key) (cold_slot E n key)) (Store_GetColdSlotKeys order n))
       = {(key, d). fmlookup (coldSlotMeta (St_fsm n)) key \<noteq> None \<and> cold_slot E n key = Some d}"
proof -
  note mem = range_order_keys [OF assms]
  show "set (map (\<lambda>key. (key, the (fmlookup (slots (St_fsm n)) key))) (order (fmdom' (slots (St_fsm n)))))
       = {(key, d). fmlookup (slots (St_fsm n)) key = Some d}"
    by (auto simp: mem image_iff)
  show "set (List.map_filter (\<lambda>key. map_option (Pair key) (cold_slot E n key)) (Store_GetColdSlotKeys order n))
       = {(key, d). fmlookup (coldSlotMeta (St_fsm n)) key \<noteq> None \<and> cold_slot E n key = Some d}"
    by (auto simp: List.map_filter_def Store_GetColdSlotKeys_def GetColdSlotKeys_def mem image_iff)
      (metis option.map_sel option.sel option.distinct(1))
qed

lemma cold_slot_enabled: "cold_slot E n key = Some d \<Longrightarrow> IsColdSpillingEnabled n"
  by (cases "coldStore (St_fsm n)") (simp_all add: IsColdSpillingEnabled_def cold_slot_def GetColdSlotData_def)

lemma LoadJobs_ok:
  assumes "range_order order" "queue_ok n" "0 \<le> t0" "t0 < time_bound"
    and "\<forall>key d. found_slot E n key d \<longrightarrow> key_ok (seconds64 (Q_slotGap n)) key"
  shows "\<exists>w kds. LoadJobs E order t0 now n =
       Some (n\<lparr>Q_jobToSlot := filed kds fmempty, Q_wheel := w, Q_lastAdvance := now\<rparr>) \<and>
     set kds = {(key, d). found_slot E n key d} \<and> wheel_good w \<and>
     slotGapSeconds w = seconds64 (Q_slotGap n) \<and> held w = fst ` set kds"
proof -
  let ?w0 = "wheel_Reset (Q_wheel n)"
  define hot where "hot = map (\<lambda>key. (key, the (fmlookup (slots (St_fsm n)) key))) (order (fmdom' (slots (St_fsm n))))"
  define cold where "cold = (if IsColdSpillingEnabled n
     then List.map_filter (\<lambda>key. map_option (Pair key) (cold_slot E n key)) (Store_GetColdSlotKeys order n) else [])"
  have all: "set (hot @ cold) = {(key, d). found_slot E n key d}"
    using found_in_lists [OF assms(1), where n = n] cold_slot_enabled [of E n]
    by (auto simp: hot_def cold_def found_slot_def)
  have good: "wheel_good (Q_wheel n)" "slotGapSeconds (Q_wheel n) = seconds64 (Q_slotGap n)"
    using assms(2) by (simp_all add: queue_ok_def)
  note R = wheel_Reset_ok [OF good(1)]
  obtain w1 where w1: "wheel_Init t0 ?w0 = Some w1" "wheel_good w1" "slotGapSeconds w1 = seconds64 (Q_slotGap n)"
    "held w1 = {}"
    using wheel_Init_ok [OF R(1) assms(3,4)] R(2,4) good(2) by auto
  have "\<forall>k \<in> set (map fst (hot @ cold)). key_ok (slotGapSeconds w1) k"
    using assms(5) unfolding set_map all w1(3) by auto
  then obtain w where w: "each wheel_Add (map fst (hot @ cold)) w1 = Some w" "wheel_good w"
    "held w = fst ` set (hot @ cold)" "slotGapSeconds w = seconds64 (Q_slotGap n)"
    using wheel.add_all [OF w1(2), of "map fst (hot @ cold)"] w1(3,4)
    by (metis (no_types, lifting) list.set_map sup_bot_left)
  obtain w2 where w2: "each wheel_Add (map fst hot) w1 = Some w2" "each wheel_Add (map fst cold) w2 = Some w"
    using w(1) by (auto simp: each_append split: bind_splits)
  let ?n1 = "n\<lparr>Q_jobToSlot := fmempty, Q_wheel := w1\<rparr>"
  let ?n2 = "n\<lparr>Q_jobToSlot := filed hot fmempty, Q_wheel := w2\<rparr>"
  let ?n3 = "n\<lparr>Q_jobToSlot := filed (hot @ cold) fmempty, Q_wheel := w\<rparr>"
  have 1: "on_wheel (wheel_Init t0) (n\<lparr>Q_jobToSlot := fmempty, Q_wheel := ?w0\<rparr>) = Some ?n1"
    using w1(1) by (simp add: on_wheel_def)
  have 2: "each load_slot hot ?n1 = Some ?n2" using w2(1) by (simp add: each_load_slot)
  have "each load_slot cold ?n2 = Some ?n3" using w2(2) by (simp add: each_load_slot filed_def)
  then have 3: "(if IsColdSpillingEnabled ?n2
       then each load_slot (List.map_filter (\<lambda>key. map_option (Pair key) (cold_slot E ?n2 key))
              (Store_GetColdSlotKeys order ?n2)) ?n2 else Some ?n2) = Some ?n3"
    by (simp add: cold_def IsColdSpillingEnabled_def Store_GetColdSlotKeys_def cold_slot_def GetColdSlotData_def
        split: if_splits)
  have 4: "map (\<lambda>key. (key, the (fmlookup (Store_GetAllSlots ?n1) key))) (order (fmdom' (Store_GetAllSlots ?n1))) = hot"
    by (simp add: hot_def)
  have "LoadJobs E order t0 now n = Some (?n3\<lparr>Q_lastAdvance := now\<rparr>)"
    unfolding LoadJobs_def Let_def 1 Option.bind_lunit 4 2 3 ..
  then show ?thesis using all w(2-4) by blast
qed

text \<open>C22: Loading rebuilds the queue from the store: after \<open>LoadJobs\<close> the wheel holds exactly the
  keys of the hot slots and of the archived slots that can be read, every job they list is
  filed, each under a slot that lists it, and nothing else is filed; the store is not
  touched.\<close>
theorem load_jobs_rebuilds:
  assumes "range_order order" "queue_ok n" "0 \<le> t0" "t0 < time_bound"
    and "\<forall>key d. found_slot E n key d \<longrightarrow> key_ok (seconds64 (Q_slotGap n)) key"
  shows "\<exists>n'. LoadJobs E order t0 now n = Some n' \<and> queue_ok n' \<and> St_fsm n' = St_fsm n \<and>
     held (Q_wheel n') = {key. \<exists>d. found_slot E n key d} \<and>
     (\<forall>i k. fmlookup (Q_jobToSlot n') i = Some k \<longrightarrow> (\<exists>d. found_slot E n k d \<and> i \<in> set (Slot_JobIDs d))) \<and>
     (\<forall>k d i. found_slot E n k d \<longrightarrow> i \<in> set (Slot_JobIDs d) \<longrightarrow> fmlookup (Q_jobToSlot n') i \<noteq> None)"
proof -
  obtain w kds where l: "LoadJobs E order t0 now n =
       Some (n\<lparr>Q_jobToSlot := filed kds fmempty, Q_wheel := w, Q_lastAdvance := now\<rparr>)"
    and kds: "set kds = {(key, d). found_slot E n key d}" and w: "wheel_good w"
     "slotGapSeconds w = seconds64 (Q_slotGap n)" "held w = fst ` set kds"
    using LoadJobs_ok [OF assms] by blast
  have "held w = {key. \<exists>d. found_slot E n key d}" using w(3) by (auto simp: kds image_iff)
  with l w(1,2) lookup_filed(1) [of kds fmempty] lookup_filed(2) [of _ _ kds] kds show ?thesis
    by (auto simp: queue_ok_def)
qed

lemma load_jobs_rebuilds_witness:
  "\<exists>n'. LoadJobs solo_env sorted_list_of_set 1003 1003 late_node = Some n' \<and> held (Q_wheel n') = {100}"
proof -
  have "found_slot solo_env late_node key d \<longleftrightarrow> key = 100 \<and> d = new_slot 100 10 [CHR 0x61]" for key d
    by (auto simp: found_slot_def late_node_def NewFSM_def)
  then show ?thesis
    using load_jobs_rebuilds [OF range_order_sorted, of late_node 1003 solo_env 1003] by (auto simp: key_ok_def)
qed

end
