(* ===== verification/Execution_Manager.thy ===== *)
theory Execution_Manager
  imports Slot_Queue Capacity
begin

text \<open>
  The execution manager of \<open>internal/slots/execution_manager.go\<close>: it checks that a job may
  run, marks it in progress, calls its webhook and records the outcome. Its fields extend
  the record of the node. A context is a number; the contexts that have been cancelled are
  kept in the state. The HTTP client is a parameter that works on the whole node, because
  the API may change the node while the call is under way; the readings of the clock are
  a record of arguments. The callback here leaves the node alone; \<open>Run_Measurements\<close> has the
  operations with their measurements.
\<close>

section \<open>State\<close>

record ('c, 'r) Manager = "('c, 'r) Node" +
  EM_nodeID :: string
  EM_executionTimeout :: Duration
  EM_maxAttempts :: int
  EM_cancelFuncs :: "(string, nat) fmap"
  EM_contexts :: nat
  EM_cancelled :: "nat set"

definition NewExecutionManager ::
  "('c, 'r) Node \<Rightarrow> string \<Rightarrow> Duration \<Rightarrow> int \<Rightarrow> ('c, 'r) Manager" where
  "NewExecutionManager n nodeID executionTimeout maxAttempts =
     Node.extend n (Manager.fields nodeID executionTimeout maxAttempts fmempty 0 {})"

text \<open>The callback that \<open>NewExecutionManager\<close> installs: it updates two gauges, which are not part of this
  node (\<open>Run_Measurements\<close>).\<close>

definition metrics_callback :: "'s StatusChangeCallback option" where
  "metrics_callback = Some (\<lambda>oldStatus newStatus s. s)"

section \<open>The HTTP client\<close>

text \<open>An error with its text and what \<open>errors.Is\<close> finds in its chain.\<close>

record go_error =
  Err_Error :: string
  Err_DeadlineExceeded :: bool
  Err_Canceled :: bool

definition Errorf :: "string \<Rightarrow> go_error" where
  "Errorf text = \<lparr>Err_Error = text, Err_DeadlineExceeded = False, Err_Canceled = False\<rparr>"

definition wrap_error :: "string \<Rightarrow> go_error \<Rightarrow> go_error" where
  "wrap_error context err = err\<lparr>Err_Error := context @ '': '' @ Err_Error err\<rparr>"

record http_request =
  HR_Context :: nat
  HR_Timeout :: Duration
  HR_URL :: string
  HR_Body :: string
  HR_ContentType :: string

text \<open>
  \<open>http.NewRequestWithContext\<close> may refuse the URL; \<open>Do\<close> returns an error or the status
  code of the response, and the node as it is when the call ends.
\<close>

record 's http_lib =
  http_NewRequest :: "string \<Rightarrow> go_error option"
  http_Do :: "http_request \<Rightarrow> 's \<Rightarrow> (go_error + int) \<times> 's"

text \<open>The readings of the clock during one execution, in the order of the code.\<close>

record readings =
  R_mark :: int
  R_start :: int
  R_payload :: int
  R_elapsed :: int
  R_end :: int
  R_record :: int
  R_status :: int

section \<open>Operations\<close>

text \<open>The members of the payload in the order in which \<open>json.Marshal\<close> writes the map.\<close>

definition webhook_body :: "int \<Rightarrow> Job \<Rightarrow> string" where
  "webhook_body now job =
     Marshal (JObject [(''data'', case Job_Payload job of None \<Rightarrow> JNull | Some p \<Rightarrow> JObject p),
                       (''job_id'', JString (Job_ID job)),
                       (''timestamp'', JNumber (Sprintf_d now)),
                       (''type'', JString (job_type_string (Job_Type job)))])"

text \<open>The status, the response time and the error, and the node afterwards.\<close>

definition executeWebhook ::
  "('c, 'r, 'z) Manager_scheme http_lib \<Rightarrow> readings \<Rightarrow> nat \<Rightarrow> Job \<Rightarrow> ('c, 'r, 'z) Manager_scheme
     \<Rightarrow> (int \<times> int \<times> go_error option) \<times> ('c, 'r, 'z) Manager_scheme" where
  "executeWebhook H t ctx job n =
     (if Job_WebhookURL job = '''' then ((0, 0, None), n)
      else case http_NewRequest H (Job_WebhookURL job) of
        Some err \<Rightarrow> ((0, R_elapsed t, Some (wrap_error ''failed to create request'' err)), n)
      | None \<Rightarrow>
          let req = \<lparr>HR_Context = ctx, HR_Timeout = EM_executionTimeout n, HR_URL = Job_WebhookURL job,
                     HR_Body = webhook_body (R_payload t) job, HR_ContentType = ''application/json''\<rparr>
          in case http_Do H req n of
               (Inl err, n) \<Rightarrow> ((0, R_elapsed t, Some err), n)
             | (Inr code, n) \<Rightarrow>
                 if code \<ge> 400
                 then ((code, R_elapsed t, Some (Errorf (''webhook returned status '' @ Sprintf_d code))), n)
                 else ((code, R_elapsed t, None), n))"

definition CancelJob :: "string \<Rightarrow> ('c, 'r, 'z) Manager_scheme \<Rightarrow> bool \<times> ('c, 'r, 'z) Manager_scheme" where
  "CancelJob jobID n =
     (case fmlookup (EM_cancelFuncs n) jobID of
        Some ctx \<Rightarrow> (True, n\<lparr>EM_cancelled := insert ctx (EM_cancelled n)\<rparr>)
      | None \<Rightarrow> (False, n))"

definition classifyError :: "go_error option \<Rightarrow> string" where
  "classifyError err =
     (case err of
        None \<Rightarrow> ''''
      | Some err \<Rightarrow>
          let errStr = Err_Error err
          in if Err_DeadlineExceeded err then ''timeout''
             else if Err_Canceled err then ''cancelled''
             else if Contains errStr ''connection refused'' then ''connection_error''
             else if Contains errStr ''no such host'' \<or> Contains errStr ''dns'' then ''dns_error''
             else if Contains errStr ''timeout'' then ''timeout''
             else if Contains errStr ''status'' \<and> (Contains errStr ''4'' \<or> Contains errStr ''5'') then ''http_error''
             else ''unknown'')"

datatype exec_error =
    ErrCheckStatus store_error
  | ErrExceededMaxAttempts
  | ErrMarkInProgress store_error
  | ErrWebhook go_error
  | ErrMarkCompleted store_error

text \<open>The deferred calls of \<open>Execute\<close>: the cancel function is forgotten, the context cancelled.\<close>

definition release :: "string \<Rightarrow> nat \<Rightarrow> ('c, 'r, 'z) Manager_scheme \<Rightarrow> ('c, 'r, 'z) Manager_scheme" where
  "release jobID ctx n =
     n\<lparr>EM_cancelFuncs := fmdrop jobID (EM_cancelFuncs n), EM_cancelled := insert ctx (EM_cancelled n)\<rparr>"

definition is_cancelled :: "('c, 'r) Env \<Rightarrow> string \<Rightarrow> ('c, 'r, 'z) Store_scheme \<Rightarrow> bool" where
  "is_cancelled E jobID n =
     (case GetStatus (Store_StatusStore E) jobID n of
        Inl e \<Rightarrow> False
      | Inr state \<Rightarrow> Exec_Status state = StatusCancelled)"

text \<open>
  The part of \<open>Execute\<close> after the webhook has returned: what to record of the outcome.
\<close>

definition record_outcome ::
  "('c, 'r) Env \<Rightarrow> readings \<Rightarrow> string \<Rightarrow> ExecutionAttempt \<Rightarrow> int \<Rightarrow> go_error option
     \<Rightarrow> ('c, 'r, 'z) Store_scheme \<Rightarrow> exec_error option \<times> ('c, 'r, 'z) Store_scheme" where
  "record_outcome E t jobID attempt httpStatus err n =
     (case err of
        Some err \<Rightarrow>
          if is_cancelled E jobID n then (None, n)
          else let attempt = attempt\<lparr>Att_Status := StatusFailed, Att_ErrorMessage := Err_Error err,
                               Att_ErrorType := classifyError (Some err), Att_HTTPStatus := httpStatus\<rparr>
          in (Some (ErrWebhook err),
              snd (MarkFailed (Store_StatusStore E) metrics_callback (R_record t) (R_status t) jobID (Some attempt) n))
      | None \<Rightarrow>
          if is_cancelled E jobID n
          then (None, snd (RecordAttempt (Store_StatusStore E) (R_record t) jobID (Some attempt) n))
          else let attempt = attempt\<lparr>Att_Status := StatusCompleted, Att_HTTPStatus := httpStatus\<rparr>
          in case MarkCompleted (Store_StatusStore E) metrics_callback (R_record t) (R_status t) jobID (Some attempt) n of
               (Some e, n) \<Rightarrow> (Some (ErrMarkCompleted e), n)
             | (None, n) \<Rightarrow> (None, n))"

definition Execute ::
  "('c, 'r) Env \<Rightarrow> ('c, 'r, 'z) Manager_scheme http_lib \<Rightarrow> readings \<Rightarrow> Job \<Rightarrow> ('c, 'r, 'z) Manager_scheme
     \<Rightarrow> exec_error option \<times> ('c, 'r, 'z) Manager_scheme" where
  "Execute E H t job n =
     (case CanExecute (Store_StatusStore E) (Job_ID job) n of
        Inl err \<Rightarrow> (Some (ErrCheckStatus err), n)
      | Inr False \<Rightarrow> (None, n)
      | Inr True \<Rightarrow>
          let attemptNum = (case GetStatus (Store_StatusStore E) (Job_ID job) n of
                              Inl err \<Rightarrow> 1 | Inr state \<Rightarrow> add64 (Exec_AttemptCount state) 1)
          in if attemptNum > EM_maxAttempts n then (Some ErrExceededMaxAttempts, n)
          else case MarkInProgress (Store_StatusStore E) metrics_callback (R_mark t) (Job_ID job) (EM_nodeID n) n of
            (Some err, n) \<Rightarrow> (Some (ErrMarkInProgress err), n)
          | (None, n) \<Rightarrow>
              let ctx = EM_contexts n;
                  n = n\<lparr>EM_contexts := Suc ctx, EM_cancelFuncs := fmupd (Job_ID job) ctx (EM_cancelFuncs n)\<rparr>;
                  attempt = zero_Attempt\<lparr>Att_AttemptNum := attemptNum, Att_StartTime := R_start t,
                              Att_NodeID := EM_nodeID n\<rparr>;
                  ((httpStatus, responseTime, err), n) = executeWebhook H t ctx job n;
                  attempt = attempt\<lparr>Att_EndTime := R_end t, Att_ResponseTime := responseTime\<rparr>;
                  (result, n) = record_outcome E t (Job_ID job) attempt httpStatus err n
              in (result, release (Job_ID job) ctx n))"

section \<open>What the writes leave alone\<close>

text \<open>A write through the store changes Raft and the state machine of the node only.\<close>

definition wrote :: "('c, 'r, 'z) Store_scheme \<Rightarrow> ('c, 'r, 'z) Store_scheme \<Rightarrow> bool" where
  "wrote n n' \<longleftrightarrow> n' = n\<lparr>St_raft := St_raft n', St_fsm := St_fsm n'\<rparr>"

lemma wrote_refl [simp]: "wrote n n"
  by (simp add: wrote_def)

lemma wrote_trans: "wrote a b \<Longrightarrow> wrote b c \<Longrightarrow> wrote a c"
  by (cases a; cases b; cases c) (simp add: wrote_def)

lemma wrote_update [simp]: "wrote n (n\<lparr>St_raft := r\<rparr>)" "wrote n (n\<lparr>St_raft := r, St_fsm := f\<rparr>)"
  by (simp_all add: wrote_def)

lemma wrote_raftApply: "wrote s (snd (raftApply E cmd s))"
  by (auto simp: raftApply_def Let_def split: prod.splits apply_outcome.splits)

lemma wrote_status_command:
  "applyStatusCommand (Store_StatusStore E) ty sc s = (e, s') \<Longrightarrow> wrote s s'"
  using wrote_raftApply [of s E "status_update ty sc"]
  by (auto simp: applyStatusCommand_def Store_Apply_def split: prod.splits option.splits if_splits)

lemma wrote_recordAttempt: "recordAttempt (Store_StatusStore E) t i a s = (e, s') \<Longrightarrow> wrote s s'"
  by (simp add: recordAttempt_def wrote_status_command)

lemma metrics_callback_only [simp]: "metrics_only metrics_callback"
  by (simp add: metrics_callback_def)

lemma wrote_MarkInProgress:
  "MarkInProgress (Store_StatusStore E) metrics_callback t i nd s = (e, s') \<Longrightarrow> wrote s s'"
  using wrote_status_command
  by (fastforce simp: MarkInProgress_def Let_def split: prod.splits option.splits if_splits)

lemma wrote_MarkCompleted:
  "MarkCompleted (Store_StatusStore E) metrics_callback t t' i a s = (e, s') \<Longrightarrow> wrote s s'"
  by (auto simp: MarkCompleted_def Let_def split: prod.splits option.splits if_splits
      dest!: wrote_recordAttempt wrote_status_command intro: wrote_trans)

lemma wrote_MarkFailed:
  "MarkFailed (Store_StatusStore E) metrics_callback t t' i a s = (e, s') \<Longrightarrow> wrote s s'"
  by (auto simp: MarkFailed_def Let_def split: prod.splits option.splits if_splits
      dest!: wrote_recordAttempt wrote_status_command intro: wrote_trans)

lemmas wrote_marks = wrote_MarkInProgress wrote_MarkCompleted wrote_MarkFailed

lemma wroteD:
  assumes "wrote n n'"
  shows "EM_maxAttempts n' = EM_maxAttempts n" "EM_nodeID n' = EM_nodeID n"
    "EM_cancelFuncs n' = EM_cancelFuncs n" "EM_contexts n' = EM_contexts n" "EM_cancelled n' = EM_cancelled n"
    "Q_wheel n' = Q_wheel n" "Q_jobToSlot n' = Q_jobToSlot n" "Q_slotGap n' = Q_slotGap n"
proof -
  obtain r f where "n' = n\<lparr>St_raft := r, St_fsm := f\<rparr>" using assms unfolding wrote_def by metis
  then show "EM_maxAttempts n' = EM_maxAttempts n" "EM_nodeID n' = EM_nodeID n"
    "EM_cancelFuncs n' = EM_cancelFuncs n" "EM_contexts n' = EM_contexts n" "EM_cancelled n' = EM_cancelled n"
    "Q_wheel n' = Q_wheel n" "Q_jobToSlot n' = Q_jobToSlot n" "Q_slotGap n' = Q_slotGap n" by simp_all
qed

section \<open>The marks on a steady leader\<close>

definition started :: "int \<Rightarrow> string \<Rightarrow> JobExecutionState \<Rightarrow> JobExecutionState" where
  "started now nodeID st =
     st\<lparr>Exec_Status := StatusInProgress,
        Exec_FirstAttemptAt := (if Exec_FirstAttemptAt st = 0 then now else Exec_FirstAttemptAt st),
        Exec_LastAttemptAt := now, Exec_ExecutingNodeID := nodeID,
        Exec_AttemptCount := add64 (Exec_AttemptCount st) 1\<rparr>"

definition finished :: "JobStatus \<Rightarrow> int \<Rightarrow> ExecutionAttempt \<Rightarrow> JobExecutionState \<Rightarrow> JobExecutionState" where
  "finished status now a st =
     st\<lparr>Exec_Status := status, Exec_Attempts := Exec_Attempts st @ [a], Exec_CompletedAt := now,
        Exec_ExecutingNodeID := ''''\<rparr>"

text \<open>The state of a job, or the pending one that its first status command creates.\<close>

definition state_or_new :: "string \<Rightarrow> int \<Rightarrow> ('c, 'r, 'z) Store_scheme \<Rightarrow> JobExecutionState" where
  "state_or_new i now s =
     (case fmlookup (executionStates (St_fsm s)) i of None \<Rightarrow> new_execution_state i now | Some st \<Rightarrow> st)"

abbreviation startable :: "JobExecutionState \<Rightarrow> bool" where
  "startable st \<equiv> Exec_Status st \<in> {StatusPending, StatusFailed, StatusTimeout}"

lemma steady_status_command:
  assumes "steady_raft (raft_lib E) P" "P (St_raft s)"
  obtains s' where "applyStatusCommand (Store_StatusStore E) ty sc s = (None, s')" "P (St_raft s')"
  using steady_status_store.steady_apply [OF steady_store [OF assms(1)], of s "status_update ty sc"] assms(2)
  by (auto simp: applyStatusCommand_def)

lemma MarkInProgress_steady:
  assumes "steady_raft (raft_lib E) P" "P (St_raft s)" "startable (state_or_new i now s)"
  obtains s' where "MarkInProgress (Store_StatusStore E) metrics_callback now i nd s = (None, s')"
    "P (St_raft s')" "executionStates (St_fsm s') =
       fmupd i (started now nd (state_or_new i now s)) (executionStates (St_fsm s))"
proof -
  let ?sc = "zero_StatusCommand\<lparr>SC_JobID := i, SC_Status := StatusInProgress, SC_NodeID := nd, SC_Timestamp := now\<rparr>"
  obtain s' where s': "applyStatusCommand (Store_StatusStore E) CommandUpdateJobStatus ?sc s = (None, s')" "P (St_raft s')"
    using steady_status_command [OF assms(1,2)] .
  have "executionStates (St_fsm s') = states_after (status_update CommandUpdateJobStatus ?sc) (executionStates (St_fsm s))"
    using tracked.status_update_ok [OF s'(1)] by simp
  also have "\<dots> = fmupd i (started now nd (state_or_new i now s)) (executionStates (St_fsm s))"
    using assms(3)
    by (auto simp: states_after_def state_or_new_def moved_state_def started_def validateStateTransition_def
        validTransitions_def status_fields_def split: option.splits)
  finally show ?thesis
    using that s' steady_raftApply(1) [OF assms(1,2)] by (simp add: MarkInProgress_def Let_def)
qed

lemma finish_steady:
  assumes "steady_raft (raft_lib E) P" "P (St_raft s)"
    and "fmlookup (executionStates (St_fsm s)) i = Some st" "Exec_Status st = StatusInProgress"
  shows "\<exists>s'. MarkCompleted (Store_StatusStore E) metrics_callback t t' i (Some a) s = (None, s') \<and>
       executionStates (St_fsm s') = fmupd i (finished StatusCompleted t' a st) (executionStates (St_fsm s))"
    "\<exists>s'. MarkFailed (Store_StatusStore E) metrics_callback t t' i (Some a) s = (None, s') \<and>
       executionStates (St_fsm s') = fmupd i (finished StatusFailed t' a st) (executionStates (St_fsm s))"
proof -
  let ?S = "Store_StatusStore E"
  have lead: "IsLeader E s" by (rule steady_raftApply(1) [OF assms(1,2)])
  obtain s1 where s1: "recordAttempt ?S t i (Some a) s = (None, s1)" "P (St_raft s1)"
    unfolding recordAttempt_def using steady_status_command [OF assms(1,2)] .
  have st: "fmlookup (SS_GetAllExecutionStates ?S s) i = Some st" using assms(3) by simp
  have fin: "\<exists>s2. applyStatusCommand ?S CommandUpdateJobStatus
        (zero_StatusCommand\<lparr>SC_JobID := i, SC_Status := fin, SC_Timestamp := t'\<rparr>) s1 = (None, s2) \<and>
      executionStates (St_fsm s2) = fmupd i (finished fin t' a st) (executionStates (St_fsm s))"
    if "fin = StatusCompleted \<or> fin = StatusFailed" for fin
  proof -
    let ?sc = "zero_StatusCommand\<lparr>SC_JobID := i, SC_Status := fin, SC_Timestamp := t'\<rparr>"
    obtain s2 where s2: "applyStatusCommand ?S CommandUpdateJobStatus ?sc s1 = (None, s2)"
      using steady_status_command [OF assms(1) s1(2)] by metis
    from tracked.finished_states [OF st assms(4) s1(1) s2 that] s2 show ?thesis by (simp add: finished_def)
  qed
  show "\<exists>s'. MarkCompleted ?S metrics_callback t t' i (Some a) s = (None, s') \<and>
       executionStates (St_fsm s') = fmupd i (finished StatusCompleted t' a st) (executionStates (St_fsm s))"
    using fin [of StatusCompleted] lead s1(1) by (auto simp: MarkCompleted_def Let_def)
  show "\<exists>s'. MarkFailed ?S metrics_callback t t' i (Some a) s = (None, s') \<and>
       executionStates (St_fsm s') = fmupd i (finished StatusFailed t' a st) (executionStates (St_fsm s))"
    using fin [of StatusFailed] lead s1(1) by (auto simp: MarkFailed_def Let_def)
qed

section \<open>Properties\<close>

text \<open>C3: A job is not run again: for a job that is completed, cancelled or in progress, \<open>Execute\<close>
  returns without error, and for one that may start but has used all its attempts with
  the attempts error; in both cases it never reaches the webhook and leaves the whole node
  unchanged.\<close>
theorem execute_never_reruns:
  assumes "Store_GetExecutionState n (Job_ID job) = Some st"
  shows "(Exec_Status st \<in> {StatusCompleted, StatusCancelled, StatusInProgress} \<longrightarrow>
        Execute E H t job n = (None, n)) \<and>
     (startable st \<and> EM_maxAttempts n < add64 (Exec_AttemptCount st) 1 \<longrightarrow>
        Execute E H t job n = (Some ErrExceededMaxAttempts, n))"
  using assms by (auto simp: Execute_def CanExecute_def GetStatus_def Let_def)

text \<open>A client whose calls leave the execution states and the leadership alone.\<close>

definition quiet_client :: "('r \<Rightarrow> bool) \<Rightarrow> ('c, 'r, 'z) Manager_scheme http_lib \<Rightarrow> bool" where
  "quiet_client P H \<longleftrightarrow>
     (\<forall>req n r n'. http_Do H req n = (r, n') \<longrightarrow> P (St_raft n) \<longrightarrow>
        P (St_raft n') \<and> executionStates (St_fsm n') = executionStates (St_fsm n))"

lemma quiet_webhook:
  assumes "quiet_client P H" "executeWebhook H t ctx job n = (out, n')" "P (St_raft n)"
  shows "P (St_raft n') \<and> executionStates (St_fsm n') = executionStates (St_fsm n)"
  using assms unfolding quiet_client_def executeWebhook_def
  by (auto simp: Let_def split: if_splits option.splits prod.splits sum.splits; metis)

lemma webhook_success: "executeWebhook H t ctx job n = ((code, ms, None), n') \<Longrightarrow> code < 400"
  by (auto simp: executeWebhook_def Let_def split: if_splits option.splits prod.splits sum.splits)

lemma record_outcome_steady:
  assumes "steady_raft (raft_lib E) P" "P (St_raft n)"
    and "fmlookup (executionStates (St_fsm n)) i = Some st" "Exec_Status st = StatusInProgress"
  shows "\<exists>r n' b. record_outcome E t i a code err n = (r, n') \<and>
     executionStates (St_fsm n') = fmupd i (finished (Att_Status b) (R_status t) b st) (executionStates (St_fsm n)) \<and>
     Att_AttemptNum b = Att_AttemptNum a \<and> Att_NodeID b = Att_NodeID a \<and> Att_HTTPStatus b = code \<and>
     (case err of
        None \<Rightarrow> r = None \<and> Att_Status b = StatusCompleted
      | Some e \<Rightarrow> r = Some (ErrWebhook e) \<and> Att_Status b = StatusFailed \<and> Att_ErrorMessage b = Err_Error e \<and>
          Att_ErrorType b = classifyError (Some e))"
proof -
  have run: "\<not> is_cancelled E i n" using assms(3,4) by (simp add: is_cancelled_def GetStatus_def)
  show ?thesis
  proof (cases err)
    case None
    let ?b = "a\<lparr>Att_Status := StatusCompleted, Att_HTTPStatus := code\<rparr>"
    obtain n' where "MarkCompleted (Store_StatusStore E) metrics_callback (R_record t) (R_status t) i (Some ?b) n = (None, n')"
      "executionStates (St_fsm n') = fmupd i (finished StatusCompleted (R_status t) ?b st) (executionStates (St_fsm n))"
      using finish_steady(1) [OF assms] by blast
    then show ?thesis using run None
      by (intro exI [of _ "None"] exI [of _ n'] exI [of _ ?b]) (simp add: record_outcome_def)
  next
    case (Some e)
    let ?b = "a\<lparr>Att_Status := StatusFailed, Att_ErrorMessage := Err_Error e,
                Att_ErrorType := classifyError (Some e), Att_HTTPStatus := code\<rparr>"
    obtain n' where "MarkFailed (Store_StatusStore E) metrics_callback (R_record t) (R_status t) i (Some ?b) n = (None, n')"
      "executionStates (St_fsm n') = fmupd i (finished StatusFailed (R_status t) ?b st) (executionStates (St_fsm n))"
      using finish_steady(2) [OF assms] by blast
    then show ?thesis using run Some
      by (intro exI [of _ "Some (ErrWebhook e)"] exI [of _ n'] exI [of _ ?b]) (simp add: record_outcome_def)
  qed
qed

text \<open>\<open>Execute\<close> of a job that may start and has attempts left, up to its webhook.\<close>

lemma Execute_running:
  assumes "steady_raft (raft_lib E) P" "P (St_raft n)" "startable (state_or_new (Job_ID job) (R_mark t) n)"
    and "add64 (Exec_AttemptCount (state_or_new (Job_ID job) (R_mark t) n)) 1 \<le> EM_maxAttempts n"
  obtains n1 where "P (St_raft n1)" "wrote n n1"
    "executionStates (St_fsm n1) = fmupd (Job_ID job)
       (started (R_mark t) (EM_nodeID n) (state_or_new (Job_ID job) (R_mark t) n)) (executionStates (St_fsm n))"
    "Execute E H t job n =
       (let ctx = EM_contexts n1;
            ((code, ms, err), n2) = executeWebhook H t ctx job
               (n1\<lparr>EM_contexts := Suc ctx, EM_cancelFuncs := fmupd (Job_ID job) ctx (EM_cancelFuncs n1)\<rparr>);
            (r, n3) = record_outcome E t (Job_ID job)
              (zero_Attempt\<lparr>Att_AttemptNum := add64 (Exec_AttemptCount (state_or_new (Job_ID job) (R_mark t) n)) 1,
                 Att_StartTime := R_start t, Att_NodeID := EM_nodeID n, Att_EndTime := R_end t, Att_ResponseTime := ms\<rparr>)
              code err n2
        in (r, release (Job_ID job) ctx n3))"
proof -
  let ?st = "state_or_new (Job_ID job) (R_mark t) n"
  obtain n1 where n1: "MarkInProgress (Store_StatusStore E) metrics_callback (R_mark t) (Job_ID job) (EM_nodeID n) n = (None, n1)"
    "P (St_raft n1)" "executionStates (St_fsm n1) =
       fmupd (Job_ID job) (started (R_mark t) (EM_nodeID n) ?st) (executionStates (St_fsm n))"
    using MarkInProgress_steady [OF assms(1-3)] .
  have w: "wrote n n1" by (rule wrote_MarkInProgress [OF n1(1)])
  have can: "CanExecute (Store_StatusStore E) (Job_ID job) n = Inr True"
    using assms(3) by (auto simp: CanExecute_def state_or_new_def split: option.splits)
  have num: "(case GetStatus (Store_StatusStore E) (Job_ID job) n of
      Inl err \<Rightarrow> 1 | Inr state \<Rightarrow> add64 (Exec_AttemptCount state) 1) = add64 (Exec_AttemptCount ?st) 1"
    by (simp add: GetStatus_def state_or_new_def new_execution_state_def add64_def split: option.splits)
  show ?thesis
  proof (rule that [OF n1(2) w n1(3)])
    show "Execute E H t job n =
       (let ctx = EM_contexts n1;
            ((code, ms, err), n2) = executeWebhook H t ctx job
               (n1\<lparr>EM_contexts := Suc ctx, EM_cancelFuncs := fmupd (Job_ID job) ctx (EM_cancelFuncs n1)\<rparr>);
            (r, n3) = record_outcome E t (Job_ID job)
              (zero_Attempt\<lparr>Att_AttemptNum := add64 (Exec_AttemptCount ?st) 1,
                 Att_StartTime := R_start t, Att_NodeID := EM_nodeID n, Att_EndTime := R_end t, Att_ResponseTime := ms\<rparr>)
              code err n2
        in (r, release (Job_ID job) ctx n3))"
      unfolding Execute_def can sum.case bool.case num n1(1) prod.case option.case
      using assms(4) wroteD(2) [OF w] by (simp add: Let_def split: prod.splits)
  qed
qed

text \<open>The whole of a run, from the marking to the recorded outcome.\<close>

lemma Execute_outcome:
  assumes "steady_raft (raft_lib E) P" "P (St_raft n)" "quiet_client P H"
    and "st = state_or_new (Job_ID job) (R_mark t) n" "startable st"
    and "add64 (Exec_AttemptCount st) 1 \<le> EM_maxAttempts n"
  shows "\<exists>r n' a. Execute E H t job n = (r, n') \<and>
     executionStates (St_fsm n') = fmupd (Job_ID job)
       (finished (Att_Status a) (R_status t) a (started (R_mark t) (EM_nodeID n) st)) (executionStates (St_fsm n)) \<and>
     Att_AttemptNum a = add64 (Exec_AttemptCount st) 1 \<and> Att_NodeID a = EM_nodeID n \<and>
     (r = None \<and> Att_Status a = StatusCompleted \<and> Att_HTTPStatus a < 400 \<or>
      (\<exists>e. r = Some (ErrWebhook e) \<and> Att_Status a = StatusFailed \<and> Att_ErrorMessage a = Err_Error e \<and>
         Att_ErrorType a = classifyError (Some e))) \<and>
     fmlookup (EM_cancelFuncs n') (Job_ID job) = None"
proof -
  let ?i = "Job_ID job" and ?st = "started (R_mark t) (EM_nodeID n) st"
  let ?a = "\<lambda>ms. zero_Attempt\<lparr>Att_AttemptNum := add64 (Exec_AttemptCount st) 1, Att_StartTime := R_start t,
      Att_NodeID := EM_nodeID n, Att_EndTime := R_end t, Att_ResponseTime := ms\<rparr>"
  obtain n1 where n1: "P (St_raft n1)" "executionStates (St_fsm n1) = fmupd ?i ?st (executionStates (St_fsm n))"
    and ex: "Execute E H t job n =
       (let ctx = EM_contexts n1;
            ((code, ms, err), n2) = executeWebhook H t ctx job
               (n1\<lparr>EM_contexts := Suc ctx, EM_cancelFuncs := fmupd ?i ctx (EM_cancelFuncs n1)\<rparr>);
            (r, n3) = record_outcome E t ?i (?a ms) code err n2
        in (r, release ?i ctx n3))"
    using Execute_running [OF assms(1,2), of job t H] assms(5,6) unfolding assms(4) by blast
  obtain code ms err n2 where web: "executeWebhook H t (EM_contexts n1) job
      (n1\<lparr>EM_contexts := Suc (EM_contexts n1), EM_cancelFuncs := fmupd ?i (EM_contexts n1) (EM_cancelFuncs n1)\<rparr>)
      = ((code, ms, err), n2)"
    by (metis prod.exhaust)
  have n2: "P (St_raft n2)" "executionStates (St_fsm n2) = executionStates (St_fsm n1)"
    using quiet_webhook [OF assms(3) web] n1(1) by simp_all
  have "fmlookup (executionStates (St_fsm n2)) ?i = Some ?st" "Exec_Status ?st = StatusInProgress"
    using n1(2) n2(2) by (simp_all add: started_def)
  from record_outcome_steady [OF assms(1) n2(1) this, of t "?a ms" code err]
  obtain r n3 b where out: "record_outcome E t ?i (?a ms) code err n2 = (r, n3)"
     "executionStates (St_fsm n3) = fmupd ?i (finished (Att_Status b) (R_status t) b ?st) (executionStates (St_fsm n2))"
     "Att_AttemptNum b = add64 (Exec_AttemptCount st) 1" "Att_NodeID b = EM_nodeID n" "Att_HTTPStatus b = code"
     "case err of
        None \<Rightarrow> r = None \<and> Att_Status b = StatusCompleted
      | Some e \<Rightarrow> r = Some (ErrWebhook e) \<and> Att_Status b = StatusFailed \<and> Att_ErrorMessage b = Err_Error e \<and>
          Att_ErrorType b = classifyError (Some e)"
    by auto
  have "Execute E H t job n = (r, release ?i (EM_contexts n1) n3)"
    unfolding ex Let_def web prod.case out(1) ..
  moreover have "r = None \<and> Att_Status b = StatusCompleted \<and> Att_HTTPStatus b < 400 \<or>
      (\<exists>e. r = Some (ErrWebhook e) \<and> Att_Status b = StatusFailed \<and> Att_ErrorMessage b = Err_Error e \<and>
         Att_ErrorType b = classifyError (Some e))"
    using out(5,6) webhook_success [of H t _ job _ code ms n2] web by (cases err) auto
  ultimately show ?thesis
    using out(2-4) n1(2) n2(2) by (intro exI [of _ r] exI [of _ "release ?i (EM_contexts n1) n3"] exI [of _ b])
      (simp add: release_def)
qed


text \<open>C19: A cancellation during the call wins: when the job is cancelled by the time the webhook
  returns, whatever the webhook answered and whatever else changed meanwhile, \<open>Execute\<close>
  returns no error and the job stays cancelled.\<close>
theorem cancellation_wins:
  assumes "steady_raft (raft_lib E) P" "P (St_raft n)" "startable (state_or_new (Job_ID job) (R_mark t) n)"
    and "add64 (Exec_AttemptCount (state_or_new (Job_ID job) (R_mark t) n)) 1 \<le> EM_maxAttempts n"
    and "Job_WebhookURL job \<noteq> ''''" "http_NewRequest H (Job_WebhookURL job) = None"
    and "\<forall>req m. is_cancelled E (Job_ID job) (snd (http_Do H req m))"
  shows "\<exists>n'. Execute E H t job n = (None, n') \<and> is_cancelled E (Job_ID job) n'"
proof -
  let ?i = "Job_ID job"
  let ?a = "\<lambda>ms. zero_Attempt\<lparr>Att_AttemptNum := add64 (Exec_AttemptCount (state_or_new ?i (R_mark t) n)) 1,
      Att_StartTime := R_start t, Att_NodeID := EM_nodeID n, Att_EndTime := R_end t, Att_ResponseTime := ms\<rparr>"
  obtain n1 where ex: "Execute E H t job n =
       (let ctx = EM_contexts n1;
            ((code, ms, err), n2) = executeWebhook H t ctx job
               (n1\<lparr>EM_contexts := Suc ctx, EM_cancelFuncs := fmupd ?i ctx (EM_cancelFuncs n1)\<rparr>);
            (r, n3) = record_outcome E t ?i (?a ms) code err n2
        in (r, release ?i ctx n3))"
    using Execute_running [OF assms(1-4), of H] by blast
  obtain code ms err n2 where web: "executeWebhook H t (EM_contexts n1) job
      (n1\<lparr>EM_contexts := Suc (EM_contexts n1), EM_cancelFuncs := fmupd ?i (EM_contexts n1) (EM_cancelFuncs n1)\<rparr>)
      = ((code, ms, err), n2)"
    by (metis prod.exhaust)
  from web assms(5,6) obtain req m where "n2 = snd (http_Do H req m)"
    by (auto simp: executeWebhook_def Let_def split: prod.splits sum.splits if_splits) (metis snd_conv)+
  then have c: "is_cancelled E ?i n2" using assms(7) by simp
  then obtain st where st: "fmlookup (executionStates (St_fsm n2)) ?i = Some st" "Exec_Status st = StatusCancelled"
    by (auto simp: is_cancelled_def GetStatus_def split: option.splits)
  have "is_cancelled E ?i (snd (recordAttempt (Store_StatusStore E) u ?i (Some b) n2))" for u b
  proof -
    let ?sc = "zero_StatusCommand\<lparr>SC_JobID := ?i, SC_Attempt := Some b, SC_Timestamp := u\<rparr>"
    obtain e n3 where a: "applyStatusCommand (Store_StatusStore E) CommandRecordAttempt ?sc n2 = (e, n3)" by fastforce
    have "executionStates (St_fsm n3) = executionStates (St_fsm n2) \<or>
        executionStates (St_fsm n3) = states_after (status_update CommandRecordAttempt ?sc) (executionStates (St_fsm n2))"
      using tracked.status_update_ok [of E CommandRecordAttempt ?sc n2 n3]
        tracked.status_update_error [of E CommandRecordAttempt ?sc n2 _ n3] a by (cases e) auto
    then show ?thesis using a st by (auto simp: recordAttempt_def is_cancelled_def GetStatus_def states_after_def)
  qed
  then have "\<exists>n3. record_outcome E t ?i b code err n2 = (None, n3) \<and> is_cancelled E ?i n3" for b
    using c by (cases err) (simp_all add: record_outcome_def RecordAttempt_def)
  then obtain n3 where out: "record_outcome E t ?i (?a ms) code err n2 = (None, n3)" "is_cancelled E ?i n3" by blast
  have "Execute E H t job n = (None, release ?i (EM_contexts n1) n3)"
    unfolding ex Let_def web prod.case out(1) ..
  moreover have "is_cancelled E ?i (release ?i c n3)" for c
    using out(2) by (simp add: release_def is_cancelled_def GetStatus_def)
  ultimately show ?thesis by blast
qed

section \<open>Evaluation instance\<close>

definition solo_manager :: "bool \<Rightarrow> disk FSM \<Rightarrow> (disk, solo) Manager" where
  "solo_manager leader f = NewExecutionManager (solo_node leader f) ''n1'' (30 * Second) 3"

lemma solo_manager_simps [simp]:
  "EM_maxAttempts (solo_manager l f) = 3" "EM_nodeID (solo_manager l f) = ''n1''"
  "EM_cancelFuncs (solo_manager l f) = fmempty" "EM_contexts (solo_manager l f) = 0"
  "EM_cancelled (solo_manager l f) = {}" "EM_executionTimeout (solo_manager l f) = 30 * Second"
  "St_fsm (solo_manager l f) = f" "solo_leader (St_raft (solo_manager l f)) = l"
  "Q_wheel (solo_manager l f) = sample_wheel" "Q_slotGap (solo_manager l f) = DefaultSlotGap"
  "Q_jobToSlot (solo_manager l f) = fmempty"
  using solo_node_facts [of l f]
  by (simp_all add: solo_manager_def NewExecutionManager_def Node.defs Manager.defs)

definition ok_client :: "(disk, solo) Manager http_lib" where
  "ok_client = \<lparr>http_NewRequest = (\<lambda>url. None), http_Do = (\<lambda>req n. (Inr 200, n))\<rparr>"

definition cancelling_client :: "(disk, solo) Manager http_lib" where
  "cancelling_client = \<lparr>http_NewRequest = (\<lambda>url. None),
     http_Do = (\<lambda>req n. (Inr 200, n\<lparr>St_fsm := cancelled_fsm\<rparr>))\<rparr>"

definition sample_readings :: readings where
  "sample_readings = \<lparr>R_mark = 100, R_start = 101, R_payload = 101, R_elapsed = 5, R_end = 102,
     R_record = 102, R_status = 103\<rparr>"

definition hook_job :: Job where
  "hook_job = sample_job\<lparr>Job_WebhookURL := ''http://a''\<rparr>"

lemma hook_job_simps [simp]: "Job_ID hook_job = ''a''" "Job_WebhookURL hook_job = ''http://a''"
  by (simp_all add: hook_job_def sample_job_def)

lemma sample_startable [simp]:
  "state_or_new ''a'' now (solo_manager True sample_fsm) = new_execution_state ''a'' 90"
  by (simp add: state_or_new_def)

lemma execute_never_reruns_witness:
  "Execute solo_env ok_client sample_readings hook_job (solo_manager True cancelled_fsm)
     = (None, solo_manager True cancelled_fsm)"
  using execute_never_reruns [of "solo_manager True cancelled_fsm" hook_job
      "new_execution_state ''a'' 90\<lparr>Exec_Status := StatusCancelled\<rparr>" solo_env ok_client sample_readings]
  by (simp add: cancelled_fsm_def)


lemma cancellation_wins_witness:
  "\<exists>n'. Execute solo_env cancelling_client sample_readings hook_job (solo_manager True sample_fsm) = (None, n') \<and>
     is_cancelled solo_env ''a'' n'"
  using cancellation_wins [of solo_env solo_leader "solo_manager True sample_fsm" hook_job sample_readings cancelling_client]
  by (simp add: solo_steady new_execution_state_def add64_def cancelling_client_def is_cancelled_def GetStatus_def
      cancelled_fsm_def)

end
