(* ===== verification/Slot_Worker.thy ===== *)
theory Slot_Worker
  imports Execution_Manager
begin

text \<open>
  The worker of \<open>internal/slots/worker.go\<close>, which takes due slots from the queue, runs their
  jobs, deletes what is done and schedules the next instance of recurring jobs, together
  with the event handler of \<open>internal/app.go\<close> that keeps the queue in step with the store.
  The start and stop of the worker's loop are a state machine of their own: channels are
  numbered, closing a closed channel is a panic (\<open>None\<close>), and every loop is either at work
  or waiting in its \<open>select\<close> on the channel it has read from the worker.
\<close>

section \<open>One tick\<close>

text \<open>
  What a tick reads of the outside: the libraries, the cron parser, the iteration order of
  maps, and the clock. The readings are indexed by the turn of the loop, and those of an
  execution or of an event also by the job.
\<close>

record ('c, 'r, 's) outside =
  O_env :: "('c, 'r) Env"
  O_http :: "'s http_lib"
  O_cron :: cron_parser
  O_order :: "int key_order"
  O_next :: "nat \<Rightarrow> int \<times> int"
  O_exec :: "nat \<Rightarrow> string \<Rightarrow> readings"
  O_event :: "nat \<Rightarrow> string \<Rightarrow> int"

text \<open>The handler that \<open>NewApp\<close> installs with \<open>SetEventHandler\<close>; \<open>now\<close> is read by \<open>AddJob\<close>.\<close>

definition eventHandler ::
  "('c, 'r) Env \<Rightarrow> int key_order \<Rightarrow> int \<Rightarrow> ('c, 'r, 'z) Node_scheme JobEventHandler" where
  "eventHandler E order now event job n =
     (if IsLeader E n
      then if event = ''created'' then (case job of None \<Rightarrow> Some n | Some job \<Rightarrow> AddJob E now job n)
           else if event = ''deleted'' then (case job of None \<Rightarrow> Some n | Some job \<Rightarrow> RemoveJob E order (Job_ID job) n)
           else Some n
      else Some n)"

definition isTimeForRecurringJob :: "Job \<Rightarrow> int \<Rightarrow> bool" where
  "isTimeForRecurringJob job now \<longleftrightarrow> Job_CreatedAt job \<le> now"

definition shouldExecuteJob :: "Job \<Rightarrow> int \<Rightarrow> bool" where
  "shouldExecuteJob job now \<longleftrightarrow>
     (if Job_Type job = JobUnico \<and> Job_Timestamp job \<noteq> None then the (Job_Timestamp job) \<le> now
      else if Job_Type job = JobRecurrente then isTimeForRecurringJob job now
      else False)"

definition calculateNextExecution :: "cron_parser \<Rightarrow> Job \<Rightarrow> int \<Rightarrow> int" where
  "calculateNextExecution cron job now =
     (case cron (Job_CronExpr job) of
        None \<Rightarrow> 0
      | Some schedule \<Rightarrow>
          let nextTimestamp = schedule now
          in case Job_LastDate job of
               Some lastDate \<Rightarrow> if nextTimestamp > lastDate then 0 else nextTimestamp
             | None \<Rightarrow> nextTimestamp)"

text \<open>The result of the execution goes to the log and the metrics only.\<close>

definition executeJob ::
  "('c, 'r) Env \<Rightarrow> ('c, 'r, 'z) Manager_scheme http_lib \<Rightarrow> readings \<Rightarrow> Job \<Rightarrow> ('c, 'r, 'z) Manager_scheme
     \<Rightarrow> ('c, 'r, 'z) Manager_scheme" where
  "executeJob E H t job n = snd (Execute E H t job n)"

text \<open>What the loop over the jobs of a slot collects.\<close>

record batch =
  jobsToRemove :: "string list"
  jobsToReschedule :: "Job list"
  anyJobExecuted :: bool
  hasJobsNotReady :: bool

definition empty_batch :: batch where
  "empty_batch = \<lparr>jobsToRemove = [], jobsToReschedule = [], anyJobExecuted = False, hasJobsNotReady = False\<rparr>"

definition sort_job :: "cron_parser \<Rightarrow> int \<Rightarrow> Job \<Rightarrow> batch \<Rightarrow> batch" where
  "sort_job cron now job b =
     (if shouldExecuteJob job now
      then let b = b\<lparr>anyJobExecuted := True\<rparr>
           in if Job_Type job = JobUnico then b\<lparr>jobsToRemove := jobsToRemove b @ [Job_ID job]\<rparr>
              else if Job_Type job = JobRecurrente
              then let nextTimestamp = calculateNextExecution cron job now
                   in if nextTimestamp > 0
                      then b\<lparr>jobsToRemove := jobsToRemove b @ [Job_ID job],
                             jobsToReschedule := jobsToReschedule b @ [job\<lparr>Job_CreatedAt := nextTimestamp\<rparr>]\<rparr>
                      else b\<lparr>jobsToRemove := jobsToRemove b @ [Job_ID job]\<rparr>
              else b
      else b\<lparr>hasJobsNotReady := True\<rparr>)"

fun run_jobs ::
  "('c, 'r, ('c, 'r, 'z) Manager_scheme) outside \<Rightarrow> nat \<Rightarrow> int \<Rightarrow> Job list \<Rightarrow> batch
     \<Rightarrow> ('c, 'r, 'z) Manager_scheme \<Rightarrow> batch \<times> ('c, 'r, 'z) Manager_scheme" where
  "run_jobs W i now [] b n = (b, n)"
| "run_jobs W i now (job # js) b n =
     run_jobs W i now js (sort_job (O_cron W) now job b)
       (if shouldExecuteJob job now then executeJob (O_env W) (O_http W) (O_exec W i (Job_ID job)) job n else n)"

definition remove_done ::
  "('c, 'r, ('c, 'r, 'z) Manager_scheme) outside \<Rightarrow> nat \<Rightarrow> string \<Rightarrow> ('c, 'r, 'z) Manager_scheme
     \<Rightarrow> ('c, 'r, 'z) Manager_scheme option" where
  "remove_done W i jobID n = do {
     n \<leftarrow> (if IsLeader (O_env W) n
          then map_option snd (DeleteJob (O_env W)
                 (Some (eventHandler (O_env W) (O_order W) (O_event W i jobID))) jobID n)
          else Some n);
     RemoveJob (O_env W) (O_order W) jobID n
   }"

definition reschedule ::
  "('c, 'r, ('c, 'r, 'z) Manager_scheme) outside \<Rightarrow> nat \<Rightarrow> Job \<Rightarrow> ('c, 'r, 'z) Manager_scheme
     \<Rightarrow> ('c, 'r, 'z) Manager_scheme option" where
  "reschedule W i job n =
     (if IsLeader (O_env W) n
      then map_option snd (CreateJob (O_env W)
             (Some (eventHandler (O_env W) (O_order W) (O_event W i (Job_ID job)))) job n)
      else Some n)"

text \<open>One turn of the loop of \<open>processSlots\<close> on a ready slot, and whether the loop ends there.\<close>

definition process_slot ::
  "('c, 'r, ('c, 'r, 'z) Manager_scheme) outside \<Rightarrow> nat \<Rightarrow> int \<Rightarrow> Slot \<Rightarrow> ('c, 'r, 'z) Manager_scheme
     \<Rightarrow> (bool \<times> ('c, 'r, 'z) Manager_scheme) option" where
  "process_slot W i now slot n = do {
     let (b, n) = run_jobs W i now (QS_Jobs slot) empty_batch n;
     n \<leftarrow> each (remove_done W i) (jobsToRemove b) n;
     n \<leftarrow> each (reschedule W i) (jobsToReschedule b) n;
     Some (\<not> anyJobExecuted b \<and> hasJobsNotReady b, n)
   }"

fun process_loop ::
  "('c, 'r, ('c, 'r, 'z) Manager_scheme) outside \<Rightarrow> int \<Rightarrow> nat \<Rightarrow> nat \<Rightarrow> ('c, 'r, 'z) Manager_scheme
     \<Rightarrow> ('c, 'r, 'z) Manager_scheme option" where
  "process_loop W now 0 i n = Some n"
| "process_loop W now (Suc k) i n = do {
     (slot, n) \<leftarrow> GetNextSlot (O_env W) (O_order W) (fst (O_next W i)) (snd (O_next W i)) n;
     case slot of
       None \<Rightarrow> Some n
     | Some slot \<Rightarrow>
         if now < QS_MinTime slot then Some n
         else do {
           (stop, n) \<leftarrow> process_slot W i now slot n;
           if stop then Some n else process_loop W now k (Suc i) n
         }
   }"

definition maxSlotsToCheck :: nat where "maxSlotsToCheck = 10"

definition processSlots ::
  "('c, 'r, ('c, 'r, 'z) Manager_scheme) outside \<Rightarrow> int \<Rightarrow> ('c, 'r, 'z) Manager_scheme
     \<Rightarrow> ('c, 'r, 'z) Manager_scheme option" where
  "processSlots W now n = process_loop W now maxSlotsToCheck 0 n"

definition checkTimeouts ::
  "('c, 'r) Env \<Rightarrow> string key_order \<Rightarrow> Duration \<Rightarrow> int \<Rightarrow> ('c, 'r, 'z) Store_scheme \<Rightarrow> ('c, 'r, 'z) Store_scheme" where
  "checkTimeouts E order inProgressTimeout now n =
     (if \<not> IsLeader E n then n
      else snd (CheckTimeouts (Store_StatusStore E) metrics_callback order inProgressTimeout now n))"

section \<open>The loop and its channel\<close>

datatype loop = Working | Waiting nat

record Worker =
  W_running :: bool
  W_stopCh :: "nat option"
  W_made :: nat
  W_closed :: "nat set"
  W_loops :: "loop list"

definition NewWorker :: Worker where
  "NewWorker = \<lparr>W_running = False, W_stopCh = None, W_made = 0, W_closed = {}, W_loops = []\<rparr>"

definition Worker_Start :: "Worker \<Rightarrow> Worker" where
  "Worker_Start w =
     (if W_running w then w
      else w\<lparr>W_stopCh := Some (W_made w), W_made := Suc (W_made w), W_running := True, W_loops := W_loops w @ [Working]\<rparr>)"

text \<open>Closing nil or a closed channel panics.\<close>

definition Worker_Stop :: "Worker \<Rightarrow> Worker option" where
  "Worker_Stop w =
     (if \<not> W_running w then Some w
      else case W_stopCh w of
        None \<Rightarrow> None
      | Some ch \<Rightarrow> if ch \<in> W_closed w then None else Some (w\<lparr>W_closed := insert ch (W_closed w), W_running := False\<rparr>))"

text \<open>
  The moves of the program: start, stop, and those of a loop, which enters \<open>select\<close> with
  the channel the worker has at that moment, leaves it to work when a ticker fires, and
  ends when its channel is closed.
\<close>

inductive worker_step :: "Worker \<Rightarrow> Worker \<Rightarrow> bool" where
  start: "worker_step w (Worker_Start w)"
| stop: "Worker_Stop w = Some w' \<Longrightarrow> worker_step w w'"
| enter: "i < length (W_loops w) \<Longrightarrow> W_loops w ! i = Working \<Longrightarrow> W_stopCh w = Some ch \<Longrightarrow>
     worker_step w (w\<lparr>W_loops := (W_loops w)[i := Waiting ch]\<rparr>)"
| tick: "i < length (W_loops w) \<Longrightarrow> W_loops w ! i = Waiting ch \<Longrightarrow>
     worker_step w (w\<lparr>W_loops := (W_loops w)[i := Working]\<rparr>)"
| exit: "i < length (W_loops w) \<Longrightarrow> W_loops w ! i = Waiting ch \<Longrightarrow> ch \<in> W_closed w \<Longrightarrow>
     worker_step w (w\<lparr>W_loops := take i (W_loops w) @ drop (Suc i) (W_loops w)\<rparr>)"

inductive worker_reachable :: "Worker \<Rightarrow> bool" where
  new: "worker_reachable NewWorker"
| step: "worker_reachable w \<Longrightarrow> worker_step w w' \<Longrightarrow> worker_reachable w'"

inductive_cases worker_stepE: "worker_step w w'"

section \<open>What the steps of a tick leave alone\<close>

text \<open>The slot commands and the status commands do not touch the jobs.\<close>

lemma slot_commands_jobs:
  "jobs (snd (applyCommandInternal C (zero_Command\<lparr>Cmd_Type := CommandCreateSlot, Cmd_Slot := Some d\<rparr>) f)) = jobs f"
  "jobs (snd (applyCommandInternal C (zero_Command\<lparr>Cmd_Type := CommandDeleteSlot, Cmd_ID := i\<rparr>) f)) = jobs f"
  by (simp_all add: applyCommandInternal_def applyCreateSlot_def applyDeleteSlot_def Let_def split: option.splits)

lemma status_commands_jobs:
  assumes "ty \<in> {CommandUpdateJobStatus, CommandRecordAttempt}"
  shows "jobs (snd (applyCommandInternal C (status_update ty sc) f)) = jobs f"
  using assms
  by (auto simp: applyCommandInternal_def applyStatusUpdate_def applyRecordAttempt_def Let_def split: option.splits)

text \<open>A step that keeps the queue well formed, the leadership and the jobs.\<close>

definition keeps :: "('r \<Rightarrow> bool) \<Rightarrow> ('c, 'r, 'z) Node_scheme \<Rightarrow> ('c, 'r, 'z) Node_scheme \<Rightarrow> bool" where
  "keeps P n n' \<longleftrightarrow> queue_ok n' \<and> P (St_raft n') \<and> jobs (St_fsm n') = jobs (St_fsm n)"

lemma keeps_trans: "keeps P a b \<Longrightarrow> keeps P b c \<Longrightarrow> keeps P a c"
  by (simp add: keeps_def)

lemma keeps_refl: "queue_ok n \<Longrightarrow> P (St_raft n) \<Longrightarrow> keeps P n n"
  by (simp add: keeps_def)

lemma keeps_local [simp]: "keeps P n (n'\<lparr>Q_jobToSlot := m\<rparr>) = keeps P n n'" "keeps P (n\<lparr>Q_jobToSlot := m\<rparr>) n' = keeps P n n'"
  by (simp_all add: keeps_def)

lemma wire_slot_commands [simp]:
  "wire_Command (zero_Command\<lparr>Cmd_Type := ty, Cmd_Slot := d\<rparr>) = zero_Command\<lparr>Cmd_Type := ty, Cmd_Slot := d\<rparr>"
  "wire_Command (zero_Command\<lparr>Cmd_Type := ty, Cmd_ID := i\<rparr>) = zero_Command\<lparr>Cmd_Type := ty, Cmd_ID := i\<rparr>"
  "wire_Command (status_update ty sc) = status_update ty sc"
  by (simp_all add: wire_Command_def zero_Command_def)

lemma slot_write_keeps:
  assumes "steady_raft (raft_lib E) P" "P (St_raft n)" "queue_ok n"
  shows "keeps P n (if_leader E (CreateSlot E d) n)" "keeps P n (if_leader E (DeleteSlot E k) n)"
  using assms steady_raftApply [OF assms(1,2)] slot_commands_jobs
    raftApply_fsm [of E "zero_Command\<lparr>Cmd_Type := CommandCreateSlot, Cmd_Slot := Some d\<rparr>" n]
    raftApply_fsm [of E "zero_Command\<lparr>Cmd_Type := CommandDeleteSlot, Cmd_ID := Sprintf_d k\<rparr>" n]
  by (auto simp: keeps_def if_leader_def CreateSlot_def DeleteSlot_def)

lemma wheel_remove_keeps:
  assumes "keeps P n n'"
  shows "\<exists>m. on_wheel (wheel_Remove key) n' = Some m \<and> keeps P n m"
proof -
  have q: "queue_ok n'" using assms by (simp add: keeps_def)
  obtain w where "on_wheel (wheel_Remove key) n' = Some (n'\<lparr>Q_wheel := w\<rparr>)" "queue_ok (n'\<lparr>Q_wheel := w\<rparr>)"
    using remove_ready [OF q] by metis
  with assms show ?thesis by (auto simp: keeps_def)
qed

lemma drop_from_slot_keeps:
  assumes "steady_raft (raft_lib E) P" "P (St_raft n)" "queue_ok n"
  shows "\<exists>n'. drop_from_slot E key d i n = Some n' \<and> keeps P n n'"
  using slot_write_keeps [OF assms] wheel_remove_keeps [OF slot_write_keeps(2) [OF assms]]
  by (auto simp: drop_from_slot_def Let_def)

lemma fallback_search_keeps:
  assumes "steady_raft (raft_lib E) P" "P (St_raft n)" "queue_ok n"
  shows "\<exists>found n'. fallback_search E i load keys n = Some (found, n') \<and> keeps P n n'"
proof (induction keys)
  case Nil
  then show ?case using assms by (auto simp: keeps_refl)
next
  case (Cons key keys)
  show ?case
  proof (cases "load key")
    case None
    then show ?thesis using Cons by simp
  next
    case (Some d)
    obtain n' where "drop_from_slot E key d i n = Some n'" "keeps P n n'"
      using drop_from_slot_keeps [OF assms] by blast
    then have "fallback_search E i load (key # keys) n =
        (if i \<in> set (Slot_JobIDs d)
         then Some (True, n'\<lparr>Q_jobToSlot := fmdrop i (fmupd i key (Q_jobToSlot n'))\<rparr>)
         else fallback_search E i load keys n)"
      "keeps P n (n'\<lparr>Q_jobToSlot := fmdrop i (fmupd i key (Q_jobToSlot n'))\<rparr>)"
      using Some by simp_all
    then show ?thesis using Cons by (cases "i \<in> set (Slot_JobIDs d)") (simp_all, blast)
  qed
qed

lemma RemoveJob_keeps:
  assumes "steady_raft (raft_lib E) P" "P (St_raft n)" "queue_ok n"
  shows "\<exists>n'. RemoveJob E order i n = Some n' \<and> keeps P n n'"
proof (cases "fmlookup (Q_jobToSlot n) i")
  case None
  have "\<exists>n'. removeJobFallback E order i n = Some n' \<and> keeps P n n'"
  proof (cases "IsColdSpillingEnabled n")
    case True
    obtain found n1 where 1: "fallback_search E i (cold_slot E n) (Store_GetColdSlotKeys order n) n = Some (found, n1)"
      "keeps P n n1"
      using fallback_search_keeps [OF assms] by blast
    obtain f n2 where 2: "fallback_search E i (fmlookup (Store_GetAllSlots n)) (order (fmdom' (Store_GetAllSlots n))) n1 = Some (f, n2)"
      "keeps P n1 n2"
      using fallback_search_keeps [OF assms(1), of n1] 1(2) unfolding keeps_def by blast
    then show ?thesis using True 1 keeps_trans [OF 1(2) 2(2)] by (simp add: removeJobFallback_def Let_def)
  next
    case False
    then show ?thesis
      using fallback_search_keeps [OF assms, of i "fmlookup (Store_GetAllSlots n)" "order (fmdom' (Store_GetAllSlots n))"]
      by (auto simp: removeJobFallback_def Let_def)
  qed
  with None show ?thesis by (simp add: RemoveJob_def)
next
  case (Some key)
  let ?n = "n\<lparr>Q_jobToSlot := fmdrop i (Q_jobToSlot n)\<rparr>"
  have "\<exists>n'. drop_from_slot E key d i ?n = Some n' \<and> keeps P n n'" for d
    using drop_from_slot_keeps [of E P ?n key d i] assms by simp
  with Some assms show ?thesis
    by (cases "Store_GetSlot E ?n key") (simp_all add: RemoveJob_def Let_def keeps_refl)
qed

lemma AddJob_keeps:
  assumes "steady_raft (raft_lib E) P" "P (St_raft n)" "queue_ok n" "0 \<le> now" "now < time_bound"
    and "\<forall>ts. job_time job = Some ts \<longrightarrow> 0 \<le> ts \<and> ts < time_bound"
  shows "\<exists>n'. AddJob E now job n = Some n' \<and> keeps P n n'"
proof (cases "job_time job")
  case None
  then show ?thesis using assms by (simp add: AddJob_def keeps_refl)
next
  case (Some ts)
  let ?key = "ts div seconds64 (Q_slotGap n)"
  let ?d = "slot_with E n ?key (Job_ID job)"
  obtain w w0 where w: "AddJob E now job n = Some ((if_leader E (CreateSlot E ?d) (n\<lparr>Q_wheel := w0\<rparr>))
        \<lparr>Q_jobToSlot := fmupd (Job_ID job) ?key (Q_jobToSlot n), Q_wheel := w\<rparr>)"
    "wheel_good w" "slotGapSeconds w = seconds64 (Q_slotGap n)"
    using AddJob_ok [OF assms(3-5) Some] assms(6) Some by blast
  have "P (St_raft (if_leader E (CreateSlot E ?d) (n\<lparr>Q_wheel := w0\<rparr>)))"
    "jobs (St_fsm (if_leader E (CreateSlot E ?d) (n\<lparr>Q_wheel := w0\<rparr>))) = jobs (St_fsm n)"
    using steady_CreateSlot [OF assms(1), of "n\<lparr>Q_wheel := w0\<rparr>" ?d] assms(2) by simp_all
  with w show ?thesis by (simp add: keeps_def queue_ok_def)
qed

text \<open>Deleting and creating a job, with the queue following through the event handler.\<close>

lemma DeleteJob_steady:
  assumes "steady_raft (raft_lib E) P" "P (St_raft n)" "queue_ok n" "i \<noteq> ''''"
  shows "\<exists>n'. DeleteJob E (Some (eventHandler E order now)) i n = Some (None, n') \<and> queue_ok n' \<and>
     P (St_raft n') \<and> jobs (St_fsm n') = fmdrop i (jobs (St_fsm n))"
proof -
  let ?cmd = "zero_Command\<lparr>Cmd_Type := CommandDeleteJob, Cmd_ID := i\<rparr>"
  note S = steady_raftApply(1) [OF assms(1,2)] steady_raftApply(2,3) [OF assms(1,2), of ?cmd]
  obtain n1 where n1: "raftApply E ?cmd n = (None, n1)" using S(2) by (metis prod.collapse)
  have "jobs (St_fsm n1) = fmdrop i (jobs (St_fsm n))"
    using raftApply_ok [OF n1] assms(4) by (simp add: applyCommandInternal_def applyDeleteJob_def)
  moreover have q: "P (St_raft n1)" "queue_ok n1" using S(3) assms(3) slot_write_ok(1) [of E ?cmd n] n1 by simp_all
  moreover have lead: "IsLeader E n1" by (rule steady_raftApply(1) [OF assms(1) q(1)])
  moreover have "\<exists>n2. eventHandler E order now ''deleted'' job n1 = Some n2 \<and> keeps P n1 n2" for job
    using RemoveJob_keeps [OF assms(1) q, of order] keeps_refl [of n1 P] q lead
    by (cases job) (simp_all add: eventHandler_def)
  ultimately show ?thesis using S(1) n1 by (fastforce simp: DeleteJob_def Let_def keeps_def)
qed

lemma CreateJob_steady:
  assumes "steady_raft (raft_lib E) P" "P (St_raft n)" "queue_ok n" "0 \<le> now" "now < time_bound"
    and "\<forall>ts. job_time job = Some ts \<longrightarrow> 0 \<le> ts \<and> ts < time_bound"
  shows "\<exists>n'. CreateJob E (Some (eventHandler E order now)) job n = Some (None, n') \<and> queue_ok n' \<and>
     P (St_raft n') \<and> jobs (St_fsm n') = fmupd (Job_ID job) (wire_Job job) (jobs (St_fsm n))"
proof -
  let ?cmd = "zero_Command\<lparr>Cmd_Type := CommandCreateJob, Cmd_Job := Some job\<rparr>"
  note S = steady_raftApply(1) [OF assms(1,2)] steady_raftApply(2,3) [OF assms(1,2), of ?cmd]
  obtain n1 where n1: "raftApply E ?cmd n = (None, n1)" using S(2) by (metis prod.collapse)
  have j: "jobs (St_fsm n1) = fmupd (Job_ID job) (wire_Job job) (jobs (St_fsm n))"
    using raftApply_ok [OF n1] by (simp add: applyCommandInternal_def applyCreateJob_def)
  have q: "P (St_raft n1)" "queue_ok n1" using S(3) assms(3) slot_write_ok(1) [of E ?cmd n] n1 by simp_all
  have lead: "IsLeader E n1" by (rule steady_raftApply(1) [OF assms(1) q(1)])
  obtain n2 where "AddJob E now job n1 = Some n2" "keeps P n1 n2"
    using AddJob_keeps [OF assms(1) q assms(4-6)] by blast
  with j lead S(1) n1 show ?thesis by (simp add: CreateJob_def eventHandler_def keeps_def)
qed

text \<open>A client during whose calls nothing happens on the node.\<close>

definition still_client :: "('c, 'r, 'z) Manager_scheme http_lib \<Rightarrow> bool" where
  "still_client H \<longleftrightarrow> (\<forall>req n. snd (http_Do H req n) = n)"

text \<open>A status command keeps what a tick relies on.\<close>

definition calm :: "('r \<Rightarrow> bool) \<Rightarrow> ('c, 'r, 'z) Store_scheme \<Rightarrow> ('c, 'r, 'z) Store_scheme \<Rightarrow> bool" where
  "calm P n n' \<longleftrightarrow> wrote n n' \<and> P (St_raft n') \<and> jobs (St_fsm n') = jobs (St_fsm n)"

lemma calm_refl: "P (St_raft n) \<Longrightarrow> calm P n n"
  by (simp add: calm_def)

lemma calm_trans: "calm P a b \<Longrightarrow> calm P b c \<Longrightarrow> calm P a c"
  by (auto simp: calm_def intro: wrote_trans)

lemma calm_status_command:
  assumes "steady_raft (raft_lib E) P" "P (St_raft s)" "ty \<in> {CommandUpdateJobStatus, CommandRecordAttempt}"
    and "applyStatusCommand (Store_StatusStore E) ty sc s = (e, s')"
  shows "e = None" "calm P s s'"
proof -
  obtain s1 where "applyStatusCommand (Store_StatusStore E) ty sc s = (None, s1)" "P (St_raft s1)"
    using steady_status_command [OF assms(1,2)] .
  with assms(4) have e: "e = None" "P (St_raft s')" by simp_all
  then have "raftApply E (status_update ty sc) s = (None, s')"
    using assms(4) by (auto simp: applyStatusCommand_def Store_Apply_def split: prod.splits option.splits if_splits)
  from raftApply_ok [OF this] status_commands_jobs [OF assms(3)] e wrote_status_command [OF assms(4)]
  show "e = None" "calm P s s'" by (simp_all add: calm_def)
qed

lemma calm_finish:
  assumes "steady_raft (raft_lib E) P" "P (St_raft s)"
  shows "calm P s (snd (MarkInProgress (Store_StatusStore E) metrics_callback t i nd s))"
    "calm P s (snd (recordAttempt (Store_StatusStore E) t i a s))"
    "calm P s (snd (MarkCompleted (Store_StatusStore E) metrics_callback t t' i a s))"
    "calm P s (snd (MarkFailed (Store_StatusStore E) metrics_callback t t' i a s))"
proof -
  have lead: "IsLeader E s" by (rule steady_raftApply(1) [OF assms])
  note C = calm_status_command [OF assms(1)]
  show "calm P s (snd (MarkInProgress (Store_StatusStore E) metrics_callback t i nd s))"
    using C(2) [OF assms(2), of CommandUpdateJobStatus] lead
    by (simp add: MarkInProgress_def Let_def split: prod.splits option.splits)
  show 1: "calm P s (snd (recordAttempt (Store_StatusStore E) t i a s))"
    using C(2) [OF assms(2), of CommandRecordAttempt]
    by (cases "recordAttempt (Store_StatusStore E) t i a s") (simp add: recordAttempt_def)
  obtain e1 s1 where s1: "recordAttempt (Store_StatusStore E) t i a s = (e1, s1)" by fastforce
  have e1: "e1 = None" "calm P s s1" using C(1) [OF assms(2) _ s1 [unfolded recordAttempt_def]] 1 s1 by simp_all
  have 2: "calm P s s2" if "applyStatusCommand (Store_StatusStore E) CommandUpdateJobStatus sc s1 = (e2, s2)" for sc e2 s2
    using C(2) [OF _ _ that] e1(2) by (auto simp: calm_def intro: wrote_trans)
  show "calm P s (snd (MarkCompleted (Store_StatusStore E) metrics_callback t t' i a s))"
    "calm P s (snd (MarkFailed (Store_StatusStore E) metrics_callback t t' i a s))"
    using lead s1 e1(1) 2
    by (auto simp: MarkCompleted_def MarkFailed_def Let_def split: prod.splits option.splits)
qed

lemma record_outcome_calm:
  assumes "steady_raft (raft_lib E) P" "P (St_raft s)"
  shows "calm P s (snd (record_outcome E t i a code err s))"
  using calm_finish [OF assms] calm_refl [of P, OF assms(2)]
  by (auto simp: record_outcome_def Let_def RecordAttempt_def split: option.splits prod.splits) (metis snd_conv)+

lemma webhook_still: "still_client H \<Longrightarrow> snd (executeWebhook H t ctx job n) = n"
  unfolding still_client_def executeWebhook_def
  by (auto simp: Let_def split: option.splits prod.splits sum.splits; metis snd_conv)

lemma calm_keeps:
  fixes n :: "('c, 'r, 'z) Manager_scheme"
  shows "calm P n n' \<Longrightarrow> queue_ok n \<Longrightarrow> keeps P n n'"
  using wroteD(6-8) [of n n'] by (auto simp: calm_def keeps_def queue_ok_def)

lemma keeps_manager [simp]:
  "keeps P n (n'\<lparr>EM_contexts := c, EM_cancelFuncs := m\<rparr>) = keeps P n n'"
  "keeps P n (release i ctx n') = keeps P n n'"
  by (simp_all add: keeps_def queue_ok_def release_def)

lemma Execute_keeps:
  assumes "steady_raft (raft_lib E) P" "P (St_raft n)" "queue_ok n" "still_client H"
  shows "keeps P n (snd (Execute E H t job n))"
proof -
  let ?i = "Job_ID job"
  have refl: "keeps P n n" by (simp add: keeps_def assms(2,3))
  have marked: "keeps P n n1"
    if "MarkInProgress (Store_StatusStore E) metrics_callback (R_mark t) ?i (EM_nodeID n) n = (e, n1)" for e n1
    using calm_keeps [OF calm_finish(1) [OF assms(1,2)] assms(3), of "R_mark t" ?i "EM_nodeID n"] that by simp
  have ran: "keeps P n (snd (let ((code, ms, err), n2) = executeWebhook H t c job (n1\<lparr>EM_contexts := c', EM_cancelFuncs := m\<rparr>);
        (r, n3) = record_outcome E t ?i (a ms) code err n2 in (r, release ?i c n3)))"
    if "keeps P n n1" for n1 c c' m a
  proof -
    let ?n1 = "n1\<lparr>EM_contexts := c', EM_cancelFuncs := m\<rparr>"
    obtain code ms err where web: "executeWebhook H t c job ?n1 = ((code, ms, err), ?n1)"
      using webhook_still [OF assms(4), of t c job ?n1] by (metis prod.collapse)
    have k1: "keeps P n ?n1" using that by simp
    then have "calm P ?n1 (snd (record_outcome E t ?i (a ms) code err ?n1))" "queue_ok ?n1"
      using record_outcome_calm [OF assms(1), of ?n1] by (simp_all add: keeps_def)
    then have "keeps P ?n1 (snd (record_outcome E t ?i (a ms) code err ?n1))" by (rule calm_keeps)
    from keeps_trans [OF k1 this] show ?thesis
      by (cases "record_outcome E t ?i (a ms) code err ?n1") (simp add: web)
  qed
  show ?thesis
    unfolding Execute_def
    using refl marked ran by (simp add: Let_def split: sum.splits bool.splits prod.splits option.splits)
qed

text \<open>The batch of a slot: the due jobs, and the next instances of the recurring ones.\<close>

definition next_instance :: "cron_parser \<Rightarrow> int \<Rightarrow> Job \<Rightarrow> Job option" where
  "next_instance cron now job =
     (if Job_Type job = JobRecurrente \<and> calculateNextExecution cron job now > 0
      then Some (job\<lparr>Job_CreatedAt := calculateNextExecution cron job now\<rparr>) else None)"

lemma shouldExecute_type: "shouldExecuteJob job now \<Longrightarrow> Job_Type job = JobUnico \<or> Job_Type job = JobRecurrente"
  by (auto simp: shouldExecuteJob_def split: if_splits)

lemma run_jobs_batch:
  "jobsToRemove (fst (run_jobs W i now js b n)) =
     jobsToRemove b @ map Job_ID (filter (\<lambda>j. shouldExecuteJob j now) js)"
  "jobsToReschedule (fst (run_jobs W i now js b n)) =
     jobsToReschedule b @ List.map_filter (next_instance (O_cron W) now) (filter (\<lambda>j. shouldExecuteJob j now) js)"
proof (induction js arbitrary: b n)
  case (Cons j js)
  { case 1 show ?case using Cons.IH(1) shouldExecute_type [of j now] by (auto simp: sort_job_def Let_def) }
  { case 2 show ?case
      using Cons.IH(2) shouldExecute_type [of j now]
      by (auto simp: sort_job_def Let_def next_instance_def map_filter_simps) }
qed (simp_all add: map_filter_simps)

lemma run_jobs_keeps:
  assumes "steady_raft (raft_lib (O_env W)) P" "P (St_raft n)" "queue_ok n" "still_client (O_http W)"
  shows "keeps P n (snd (run_jobs W i now js b n))"
  using assms(2,3)
proof (induction js arbitrary: b n)
  case Nil
  then show ?case by (simp add: keeps_def)
next
  case (Cons j js)
  let ?n = "if shouldExecuteJob j now then executeJob (O_env W) (O_http W) (O_exec W i (Job_ID j)) j n else n"
  have "keeps P n ?n"
    using Execute_keeps [OF assms(1) Cons.prems assms(4)] Cons.prems by (simp add: executeJob_def keeps_def)
  moreover from this have "keeps P ?n (snd (run_jobs W i now js (sort_job (O_cron W) now j b) ?n))"
    by (intro Cons.IH) (simp_all only: keeps_def)
  ultimately show ?case by (metis keeps_trans run_jobs.simps(2))
qed

lemma remove_done_steady:
  assumes "steady_raft (raft_lib (O_env W)) P" "P (St_raft n)" "queue_ok n" "i \<noteq> ''''"
  shows "\<exists>n'. remove_done W k i n = Some n' \<and> queue_ok n' \<and> P (St_raft n') \<and>
     jobs (St_fsm n') = fmdrop i (jobs (St_fsm n))"
proof -
  obtain n1 where n1: "DeleteJob (O_env W) (Some (eventHandler (O_env W) (O_order W) (O_event W k i))) i n = Some (None, n1)"
    "queue_ok n1" "P (St_raft n1)" "jobs (St_fsm n1) = fmdrop i (jobs (St_fsm n))"
    using DeleteJob_steady [OF assms] by blast
  obtain n2 where "RemoveJob (O_env W) (O_order W) i n1 = Some n2" "keeps P n1 n2"
    using RemoveJob_keeps [OF assms(1) n1(3,2)] by blast
  with n1 steady_raftApply(1) [OF assms(1,2)] show ?thesis by (simp add: remove_done_def keeps_def)
qed

lemma remove_all_steady:
  assumes "steady_raft (raft_lib (O_env W)) P" "P (St_raft n)" "queue_ok n" "'''' \<notin> set is"
  shows "\<exists>n'. each (remove_done W k) is n = Some n' \<and> queue_ok n' \<and> P (St_raft n') \<and>
     jobs (St_fsm n') = fold fmdrop is (jobs (St_fsm n))"
  using assms(2-4)
proof (induction "is" arbitrary: n)
  case (Cons i js)
  obtain n1 where "remove_done W k i n = Some n1" "queue_ok n1" "P (St_raft n1)"
    "jobs (St_fsm n1) = fmdrop i (jobs (St_fsm n))"
    using remove_done_steady [OF assms(1) Cons.prems(1,2), of i] Cons.prems(3) by auto
  with Cons.IH [of n1] Cons.prems(3) show ?case by simp
qed simp

lemma reschedule_all_steady:
  assumes "steady_raft (raft_lib (O_env W)) P" "P (St_raft n)" "queue_ok n"
    and "\<forall>i. 0 \<le> O_event W k i \<and> O_event W k i < time_bound"
    and "\<forall>j \<in> set js. \<forall>ts. job_time j = Some ts \<longrightarrow> 0 \<le> ts \<and> ts < time_bound"
  shows "\<exists>n'. each (reschedule W k) js n = Some n' \<and> queue_ok n' \<and> P (St_raft n') \<and>
     jobs (St_fsm n') = fold (\<lambda>j. fmupd (Job_ID j) (wire_Job j)) js (jobs (St_fsm n))"
  using assms(2,3,5)
proof (induction js arbitrary: n)
  case (Cons j js)
  obtain n1 where "CreateJob (O_env W) (Some (eventHandler (O_env W) (O_order W) (O_event W k (Job_ID j)))) j n = Some (None, n1)"
    "queue_ok n1" "P (St_raft n1)" "jobs (St_fsm n1) = fmupd (Job_ID j) (wire_Job j) (jobs (St_fsm n))"
    using CreateJob_steady [OF assms(1) Cons.prems(1,2), of "O_event W k (Job_ID j)" j "O_order W"] assms(4) Cons.prems(3)
    by auto
  with Cons.IH [of n1] Cons.prems(3) steady_raftApply(1) [OF assms(1) Cons.prems(1)] show ?case
    by (simp add: reschedule_def)
qed simp

section \<open>Properties\<close>

lemma lookup_fold_fmdrop: "fmlookup (fold fmdrop is m) q = (if q \<in> set is then None else fmlookup m q)"
  by (induction "is" arbitrary: m) auto

lemma lookup_fold_other:
  "q \<notin> Job_ID ` set js \<Longrightarrow> fmlookup (fold (\<lambda>j. fmupd (Job_ID j) (f j)) js m) q = fmlookup m q"
  by (induction js arbitrary: m) auto

lemma lookup_fold_member:
  "distinct (map Job_ID js) \<Longrightarrow> j \<in> set js \<Longrightarrow>
     fmlookup (fold (\<lambda>j. fmupd (Job_ID j) (f j)) js m) (Job_ID j) = Some (f j)"
  by (induction js arbitrary: m) (auto simp: lookup_fold_other)

lemmas lookup_fold_jobs = lookup_fold_other lookup_fold_member

text \<open>The identities of the next instances, and what they are.\<close>

lemma next_instances:
  "j \<in> set (List.map_filter (next_instance cron now) js) \<longleftrightarrow> (\<exists>i \<in> set js. next_instance cron now i = Some j)"
  by (auto simp: List.map_filter_def image_iff)

lemma next_instance_ID: "next_instance cron now i = Some j \<Longrightarrow> Job_ID j = Job_ID i"
  by (auto simp: next_instance_def split: if_splits)

lemma distinct_next_instances:
  "distinct (map Job_ID js) \<Longrightarrow> distinct (map Job_ID (List.map_filter (next_instance cron now) js))"
proof (induction js)
  case (Cons i js)
  have "Job_ID i \<notin> Job_ID ` set (List.map_filter (next_instance cron now) js)"
    using Cons.prems next_instance_ID by (fastforce simp: next_instances)
  moreover have "distinct (map Job_ID (List.map_filter (next_instance cron now) js))" using Cons by simp
  ultimately show ?case
    by (cases "next_instance cron now i") (simp_all add: map_filter_simps next_instance_ID)
qed (simp add: map_filter_simps)

text \<open>The jobs after the due ones were deleted and the next instances created.\<close>

definition settled :: "cron_parser \<Rightarrow> int \<Rightarrow> Job list \<Rightarrow> (string, Job) fmap \<Rightarrow> (string, Job) fmap" where
  "settled cron now ds m =
     fold (\<lambda>j. fmupd (Job_ID j) (wire_Job j)) (List.map_filter (next_instance cron now) ds)
       (fold fmdrop (map Job_ID ds) m)"

lemma lookup_settled_other:
  assumes "q \<notin> Job_ID ` set ds"
  shows "fmlookup (settled cron now ds m) q = fmlookup m q"
proof -
  have "q \<notin> Job_ID ` set (List.map_filter (next_instance cron now) ds)"
    using assms next_instance_ID by (fastforce simp: next_instances)
  then show ?thesis using assms by (simp add: settled_def lookup_fold_jobs(1) lookup_fold_fmdrop)
qed

lemma lookup_settled_due:
  assumes "distinct (map Job_ID ds)" "job \<in> set ds"
  shows "fmlookup (settled cron now ds m) (Job_ID job) = map_option wire_Job (next_instance cron now job)"
proof (cases "next_instance cron now job")
  case None
  have "Job_ID job \<notin> Job_ID ` set (List.map_filter (next_instance cron now) ds)"
  proof
    assume "Job_ID job \<in> Job_ID ` set (List.map_filter (next_instance cron now) ds)"
    then obtain i j where "i \<in> set ds" "next_instance cron now i = Some j" "Job_ID job = Job_ID j"
      by (auto simp: next_instances)
    with next_instance_ID inj_onD [of Job_ID "set ds" job i] assms None show False by (auto simp: distinct_map)
  qed
  with assms(2) None show ?thesis by (simp add: settled_def lookup_fold_jobs(1) lookup_fold_fmdrop)
next
  case (Some j)
  then have "j \<in> set (List.map_filter (next_instance cron now) ds)" "Job_ID j = Job_ID job"
    using assms(2) next_instance_ID by (auto simp: next_instances)
  with Some lookup_fold_jobs(2) [OF distinct_next_instances [OF assms(1), of cron now], of j wire_Job]
  show ?thesis by (simp add: settled_def)
qed

text \<open>Jobs that the worker can process: named, and with a next time in range.\<close>

definition job_fine :: "cron_parser \<Rightarrow> int \<Rightarrow> Job \<Rightarrow> bool" where
  "job_fine cron now job \<longleftrightarrow> Job_ID job \<noteq> '''' \<and> calculateNextExecution cron job now < time_bound"

lemma process_slot_ok:
  assumes "steady_raft (raft_lib (O_env W)) P" "P (St_raft n)" "queue_ok n" "still_client (O_http W)"
    and "\<forall>i. 0 \<le> O_event W k i \<and> O_event W k i < time_bound"
    and "\<forall>job \<in> set (QS_Jobs slot). job_fine (O_cron W) now job"
  shows "\<exists>stop n'. process_slot W k now slot n = Some (stop, n') \<and> queue_ok n' \<and> P (St_raft n') \<and>
     jobs (St_fsm n') = settled (O_cron W) now (filter (\<lambda>j. shouldExecuteJob j now) (QS_Jobs slot)) (jobs (St_fsm n))"
proof -
  let ?due = "filter (\<lambda>j. shouldExecuteJob j now) (QS_Jobs slot)"
  let ?next = "List.map_filter (next_instance (O_cron W) now) ?due"
  obtain b n1 where run: "run_jobs W k now (QS_Jobs slot) empty_batch n = (b, n1)" by fastforce
  have k1: "P (St_raft n1)" "queue_ok n1" "jobs (St_fsm n1) = jobs (St_fsm n)"
    using run_jobs_keeps [OF assms(1-4), of k now "QS_Jobs slot" empty_batch] run by (simp_all add: keeps_def)
  have b: "jobsToRemove b = map Job_ID ?due" "jobsToReschedule b = ?next"
    using run_jobs_batch [of W k now "QS_Jobs slot" empty_batch n] run by (simp_all add: empty_batch_def)
  have "'''' \<notin> set (map Job_ID ?due)" using assms(6) by (auto simp: job_fine_def)
  then obtain n2 where n2: "each (remove_done W k) (map Job_ID ?due) n1 = Some n2" "queue_ok n2" "P (St_raft n2)"
    "jobs (St_fsm n2) = fold fmdrop (map Job_ID ?due) (jobs (St_fsm n))"
    using remove_all_steady [OF assms(1) k1(1,2), of "map Job_ID ?due" k] k1(3) by auto
  have "\<forall>j \<in> set ?next. \<forall>ts. job_time j = Some ts \<longrightarrow> 0 \<le> ts \<and> ts < time_bound"
    using assms(6) by (auto simp: job_fine_def next_instances next_instance_def job_time_def split: if_splits)
  then obtain n3 where n3: "each (reschedule W k) ?next n2 = Some n3" "queue_ok n3" "P (St_raft n3)"
    "jobs (St_fsm n3) = fold (\<lambda>j. fmupd (Job_ID j) (wire_Job j)) ?next (jobs (St_fsm n2))"
    using reschedule_all_steady [OF assms(1) n2(3,2) assms(5)] by blast
  then have "process_slot W k now slot n = Some (\<not> anyJobExecuted b \<and> hasJobsNotReady b, n3)"
    using run n2(1) b by (simp add: process_slot_def)
  then show ?thesis using n3 n2(4) by (simp add: settled_def)
qed


text \<open>The jobs of a node stay fine: deleting keeps the others, a next instance differs in its time.\<close>

lemma calculateNext_instance [simp]:
  "calculateNextExecution cron (wire_Job (job\<lparr>Job_CreatedAt := t\<rparr>)) now = calculateNextExecution cron job now"
  by (simp add: calculateNextExecution_def cong: option.case_cong)

lemma next_instance_fine:
  "next_instance cron now i = Some j \<Longrightarrow> job_fine cron now i \<Longrightarrow> job_fine cron now (wire_Job j)"
  by (auto simp: next_instance_def job_fine_def split: if_splits)

lemma fold_fmupd_jobs:
  "fmlookup (fold (\<lambda>j. fmupd (Job_ID j) (f j)) js m) q = Some x \<Longrightarrow> fmlookup m q = Some x \<or> (\<exists>j \<in> set js. x = f j)"
  by (induction js arbitrary: m) (fastforce split: if_splits)+

lemma settled_fine:
  assumes "\<forall>q x. fmlookup m q = Some x \<longrightarrow> job_fine cron now x" "\<forall>job \<in> set ds. job_fine cron now job"
    and "fmlookup (settled cron now ds m) q = Some x"
  shows "job_fine cron now x"
  using fold_fmupd_jobs [OF assms(3) [unfolded settled_def]] assms(1,2) next_instance_fine
  by (auto simp: lookup_fold_fmdrop next_instances split: if_splits)

text \<open>Every job is stored under its own name.\<close>

definition keyed :: "(string, Job) fmap \<Rightarrow> bool" where
  "keyed m \<longleftrightarrow> (\<forall>q x. fmlookup m q = Some x \<longrightarrow> Job_ID x = q)"

lemma keyed_upd [simp]: "keyed m \<Longrightarrow> keyed (fmupd (Job_ID job) (wire_Job job) m)"
  by (simp add: keyed_def)

lemma settled_keyed:
  assumes "keyed m"
  shows "keyed (settled cron now ds m)"
proof -
  have "keyed (fold fmdrop ks m)" for ks using assms by (simp add: keyed_def lookup_fold_fmdrop)
  moreover have "keyed m' \<Longrightarrow> keyed (fold (\<lambda>j. fmupd (Job_ID j) (wire_Job j)) js m')" for js m'
    by (induction js arbitrary: m') simp_all
  ultimately show ?thesis by (simp add: settled_def)
qed

lemma settled_dom:
  assumes "keyed m" "\<And>d. d \<in> set ds \<Longrightarrow> \<exists>q. fmlookup m q = Some d"
  shows "fmdom' (settled cron now ds m) \<subseteq> fmdom' m"
proof
  fix i assume i: "i \<in> fmdom' (settled cron now ds m)"
  show "i \<in> fmdom' m"
  proof (rule ccontr)
    assume "i \<notin> fmdom' m"
    then have none: "fmlookup m i = None" by (simp add: fmlookup_dom'_iff)
    then have "i \<notin> Job_ID ` set ds" using assms by (fastforce simp: keyed_def)
    with lookup_settled_other none i show False by (simp add: fmlookup_dom'_iff)
  qed
qed

lemma slot_jobs_exist:
  assumes "slot_of E n key = Some slot" "job \<in> set (QS_Jobs slot)"
  shows "\<exists>q. fmlookup (jobs (St_fsm n)) q = Some job"
  using assms by (fastforce simp: slot_of_def Let_def List.map_filter_def split: option.splits if_splits)

lemma discard_ready_steady:
  assumes "steady_raft (raft_lib E) P"
  shows "P (St_raft n) \<Longrightarrow> discard_ready E keys n = Some n' \<Longrightarrow> P (St_raft n')"
proof (induction keys arbitrary: n)
  case (Cons key keys)
  have P: "P (St_raft (n\<lparr>Q_wheel := w\<rparr>))" "P (St_raft (if_leader E (DeleteSlot E key) (n\<lparr>Q_wheel := w\<rparr>)))" for w
    using Cons.prems(1) steady_raftApply [OF assms, of "n\<lparr>Q_wheel := w\<rparr>"] by (simp_all add: if_leader_def DeleteSlot_def)
  from Cons.prems(2) consider "discard_ready E keys n = Some n'"
    | w where "discard_ready E keys (n\<lparr>Q_wheel := w\<rparr>) = Some n'"
    | w where "discard_ready E keys (if_leader E (DeleteSlot E key) (n\<lparr>Q_wheel := w\<rparr>)) = Some n'"
    by (auto simp: on_wheel_Some split: option.splits if_splits bind_splits)
  then show ?case using Cons.IH [OF Cons.prems(1)] Cons.IH [OF P(1)] Cons.IH [OF P(2)] by cases
qed simp

lemma GetNextSlot_steady:
  assumes "steady_raft (raft_lib E) P" "P (St_raft n)" "GetNextSlot E order t0 now n = Some (r, n')"
  shows "P (St_raft n')"
proof -
  from assms(3) obtain keys w where "discard_ready E keys (n\<lparr>Q_wheel := w\<rparr>) = Some n'"
    by (auto simp: GetNextSlot_def on_wheel_Some Let_def split: if_splits bind_splits option.splits)
  with discard_ready_steady [OF assms(1), of "n\<lparr>Q_wheel := w\<rparr>"] assms(2) show ?thesis by simp
qed

lemma process_loop_ok:
  assumes "steady_raft (raft_lib (O_env W)) P" "still_client (O_http W)" "range_order (O_order W)"
    and "\<forall>k i. 0 \<le> O_event W k i \<and> O_event W k i < time_bound"
    and "\<forall>k. 0 \<le> fst (O_next W k) \<and> fst (O_next W k) < time_bound \<and>
           0 \<le> snd (O_next W k) \<and> snd (O_next W k) < time_bound"
    and "P (St_raft n)" "queue_ok n" "\<forall>q x. fmlookup (jobs (St_fsm n)) q = Some x \<longrightarrow> job_fine (O_cron W) now x"
  shows "\<exists>n'. process_loop W now fuel k n = Some n' \<and> queue_ok n' \<and> P (St_raft n') \<and>
     (keyed (jobs (St_fsm n)) \<longrightarrow> fmdom' (jobs (St_fsm n')) \<subseteq> fmdom' (jobs (St_fsm n)))"
  using assms(6-8)
proof (induction fuel arbitrary: k n)
  case 0
  then show ?case by simp
next
  case (Suc fuel)
  obtain w' ready n1 r where g: "GetNextSlot (O_env W) (O_order W) (fst (O_next W k)) (snd (O_next W k)) n = Some (r, n1)"
    and d: "discards (set ready) (n\<lparr>Q_wheel := w'\<rparr>) n1" and r: "r = None \<or> (\<exists>key. r = slot_of (O_env W) n1 key)"
  proof -
    have t: "0 \<le> fst (O_next W k)" "fst (O_next W k) < time_bound" "0 \<le> snd (O_next W k)" "snd (O_next W k) < time_bound"
      using assms(5) by simp_all
    show ?thesis
      using GetNextSlot_ok [OF assms(3) Suc.prems(2) t, of "O_env W"]
      by (elim exE conjE) (rule that, assumption, assumption, auto)
  qed
  have n1: "queue_ok n1" "P (St_raft n1)" "jobs (St_fsm n1) = jobs (St_fsm n)"
    using d GetNextSlot_steady [OF assms(1) Suc.prems(1) g] by (simp_all add: discards_def)
  show ?case
  proof (cases r)
    case None
    then show ?thesis using g n1 by simp
  next
    case (Some slot)
    then obtain key where "slot_of (O_env W) n1 key = Some slot" using r by auto
    note ex = slot_jobs_exist [OF this, unfolded n1(3)]
    have fine: "\<forall>job \<in> set (QS_Jobs slot). job_fine (O_cron W) now job"
      using ex Suc.prems(3) by metis
    obtain stop n2 where n2: "process_slot W k now slot n1 = Some (stop, n2)" "queue_ok n2" "P (St_raft n2)"
      "jobs (St_fsm n2) = settled (O_cron W) now (filter (\<lambda>j. shouldExecuteJob j now) (QS_Jobs slot)) (jobs (St_fsm n))"
      using process_slot_ok [OF assms(1) n1(2,1) assms(2) _ fine, of k] assms(4) n1(3) by auto
    have "\<forall>job \<in> set (filter (\<lambda>j. shouldExecuteJob j now) (QS_Jobs slot)). job_fine (O_cron W) now job"
      using fine by simp
    note fine' = settled_fine [OF Suc.prems(3) this]
    have "\<forall>q x. fmlookup (jobs (St_fsm n2)) q = Some x \<longrightarrow> job_fine (O_cron W) now x"
      unfolding n2(4) by (intro allI impI) (rule fine')
    from Suc.IH [OF n2(3,2) this, of "Suc k"] obtain n3 where n3: "process_loop W now fuel (Suc k) n2 = Some n3"
        "queue_ok n3" "P (St_raft n3)" "keyed (jobs (St_fsm n2)) \<longrightarrow> fmdom' (jobs (St_fsm n3)) \<subseteq> fmdom' (jobs (St_fsm n2))"
      by blast
    have "keyed (jobs (St_fsm n2)) \<and> fmdom' (jobs (St_fsm n2)) \<subseteq> fmdom' (jobs (St_fsm n))" if "keyed (jobs (St_fsm n))"
      unfolding n2(4) by (intro conjI settled_keyed settled_dom that ex) simp
    with n3 show ?thesis using g n1 n2(1-3) Some by auto
  qed
qed

text \<open>C18: a tick never panics: on a steady leader, while the clock is in range and every stored job
  has a name and a next time in range, \<open>processSlots\<close> returns within its ten turns, and the
  queue is well formed afterwards.\<close>
theorem process_slots_never_panics:
  assumes "steady_raft (raft_lib (O_env W)) P" "still_client (O_http W)" "range_order (O_order W)"
    and "\<forall>k i. 0 \<le> O_event W k i \<and> O_event W k i < time_bound"
    and "\<forall>k. 0 \<le> fst (O_next W k) \<and> fst (O_next W k) < time_bound \<and>
           0 \<le> snd (O_next W k) \<and> snd (O_next W k) < time_bound"
    and "P (St_raft n)" "queue_ok n" "\<forall>q x. Store_GetJob n q = Some x \<longrightarrow> job_fine (O_cron W) now x"
  shows "\<exists>n'. processSlots W now n = Some n' \<and> queue_ok n'"
proof -
  have "\<forall>q x. fmlookup (jobs (St_fsm n)) q = Some x \<longrightarrow> job_fine (O_cron W) now x" using assms(8) by simp
  from process_loop_ok [OF assms(1-7) this] show ?thesis unfolding processSlots_def by blast
qed

definition sample_outside :: "(disk, solo, (disk, solo) Manager) outside" where
  "sample_outside = \<lparr>O_env = solo_env, O_http = ok_client, O_cron = (\<lambda>e. None), O_order = sorted_list_of_set,
     O_next = (\<lambda>k. (110, 110)), O_exec = (\<lambda>k i. sample_readings), O_event = (\<lambda>k i. 110)\<rparr>"

lemma sample_outside_simps [simp]:
  "O_env sample_outside = solo_env" "O_http sample_outside = ok_client" "O_cron sample_outside = (\<lambda>e. None)"
  "O_order sample_outside = sorted_list_of_set" "O_next sample_outside = (\<lambda>k. (110, 110))"
  "O_event sample_outside = (\<lambda>k i. 110)" "still_client ok_client" "queue_ok (solo_manager l f)"
  using solo_node_facts(1) [of l f]
  by (simp_all add: sample_outside_def still_client_def ok_client_def queue_ok_def)

lemma sample_fine: "job_fine (\<lambda>e. None) now sample_job"
  by (simp add: job_fine_def calculateNextExecution_def sample_job_def)

lemma process_slots_never_panics_witness:
  "\<exists>n'. processSlots sample_outside 110 (solo_manager True sample_fsm) = Some n'"
proof -
  have fine: "\<forall>q x. Store_GetJob (solo_manager True sample_fsm) q = Some x \<longrightarrow> job_fine (\<lambda>e. None) 110 x"
    using sample_fine by (simp add: sample_fsm_def)
  show ?thesis
    using process_slots_never_panics [of sample_outside solo_leader "solo_manager True sample_fsm" 110] fine
    by (auto simp: solo_steady range_order_sorted)
qed


section \<open>The worker's loop\<close>

text \<open>
  All channels made so far are closed, except the one of a running worker; so a loop of a
  stopped worker waits on a closed channel.
\<close>

definition worker_ok :: "Worker \<Rightarrow> bool" where
  "worker_ok w \<longleftrightarrow>
     (if W_running w then W_stopCh w = Some (W_made w - 1) \<and> 0 < W_made w \<and> W_closed w = {..<W_made w - 1}
      else W_closed w = {..<W_made w}) \<and>
     (\<forall>ch. W_stopCh w = Some ch \<longrightarrow> ch < W_made w) \<and>
     (\<forall>ch. Waiting ch \<in> set (W_loops w) \<longrightarrow> ch < W_made w)"

lemma worker_reachable_ok: "worker_reachable w \<Longrightarrow> worker_ok w"
proof (induction rule: worker_reachable.induct)
  case new
  then show ?case by (simp add: worker_ok_def NewWorker_def)
next
  case (step w w')
  from step.hyps(2) show ?case
  proof (cases rule: worker_step.cases)
    case start
    then show ?thesis using step.IH by (auto simp: worker_ok_def Worker_Start_def less_Suc_eq)
  next
    case stop
    have "insert (W_made w - Suc 0) {..<W_made w - Suc 0} = {..<W_made w}" if "0 < W_made w"
      using that by (cases "W_made w") (auto simp: less_Suc_eq)
    then show ?thesis using stop step.IH by (auto simp: worker_ok_def Worker_Stop_def split: if_splits)
  next
    case (enter i ch)
    then show ?thesis using step.IH by (auto simp: worker_ok_def dest: set_update_subset_insert [THEN subsetD])
  next
    case (tick i ch)
    then show ?thesis using step.IH by (auto simp: worker_ok_def dest: set_update_subset_insert [THEN subsetD])
  next
    case (exit i ch)
    then show ?thesis using step.IH by (auto simp: worker_ok_def dest: in_set_takeD in_set_dropD)
  qed
qed

text \<open>C20: the worker can be stopped and started at will: in every reachable state \<open>Stop\<close> does not
  close a channel twice, and afterwards every loop that waits, or that comes back to its
  \<open>select\<close>, finds its channel closed and may end.\<close>
theorem worker_stops_cleanly:
  assumes "worker_reachable w"
  shows "\<exists>w'. Worker_Stop w = Some w' \<and> \<not> W_running w' \<and>
     (\<forall>ch. Waiting ch \<in> set (W_loops w') \<longrightarrow> ch \<in> W_closed w') \<and>
     (\<forall>ch. W_stopCh w' = Some ch \<longrightarrow> ch \<in> W_closed w')"
proof -
  note ok = worker_reachable_ok [OF assms]
  then obtain w' where w': "Worker_Stop w = Some w'"
    by (auto simp: worker_ok_def Worker_Stop_def split: if_splits)
  then have "\<not> W_running w'" by (auto simp: Worker_Stop_def split: if_splits option.splits)
  moreover have "worker_ok w'"
    using worker_reachable_ok worker_reachable.step [OF assms worker_step.stop [OF w']] by blast
  ultimately show ?thesis using w' by (auto simp: worker_ok_def)
qed

lemma worker_stops_cleanly_witness: "\<exists>w'. Worker_Stop (Worker_Start NewWorker) = Some w' \<and> \<not> W_running w'"
  using worker_stops_cleanly [OF worker_reachable.step [OF worker_reachable.new worker_step.start]] by blast

text \<open>A restart during a tick leaves two loops: when the worker is stopped and started again
  while its loop is at work, the old loop comes back to its \<open>select\<close> with the new channel,
  and two loops wait on the same open channel.\<close>
theorem restart_leaks_loop:
  "\<exists>w. worker_reachable w \<and> W_running w \<and> W_closed w = {0} \<and> W_loops w = [Waiting 1, Waiting 1]"
proof -
  let ?w1 = "Worker_Start NewWorker"
  have 1: "worker_reachable ?w1" by (rule worker_reachable.step [OF worker_reachable.new worker_step.start])
  have "Worker_Stop ?w1 = Some (?w1\<lparr>W_closed := {0}, W_running := False\<rparr>)"
    by (simp add: Worker_Stop_def Worker_Start_def NewWorker_def)
  note 2 = worker_reachable.step [OF 1 worker_step.stop [OF this]]
  note 3 = worker_reachable.step [OF 2 worker_step.start]
  let ?w3 = "Worker_Start (?w1\<lparr>W_closed := {0}, W_running := False\<rparr>)"
  have w3: "W_loops ?w3 = [Working, Working]" "W_stopCh ?w3 = Some 1" "W_running ?w3" "W_closed ?w3 = {0}"
    by (simp_all add: Worker_Start_def NewWorker_def)
  note 4 = worker_reachable.step [OF 3 worker_step.enter [of 0 ?w3 1]]
  note 5 = worker_reachable.step [OF 4 worker_step.enter [of 1 _ 1]]
  show ?thesis by (rule exI, rule conjI, rule 5) (simp_all add: w3)
qed

end
