(* ===== verification/Job_Delivery.thy ===== *)
theory Job_Delivery
  imports Slot_Worker
begin

text \<open>
  From a slot to its run: lemmas that connect the wheel, the queue and the worker. The wheel
  gives up no key of the slot that the clock is in, so the queue offers the earliest slot
  while it is due; the worker then runs its jobs, and a tick adds no job to the store.
\<close>

section \<open>The shape of a wheel\<close>

definition shape :: "HierarchicalTimingWheel \<Rightarrow> (int \<times> int) list" where
  "shape w = map (\<lambda>l. (granularity l, bucketCount l)) (levels w)"

definition coverage :: "HierarchicalTimingWheel \<Rightarrow> int" where
  "coverage w = totalCoverage (levels w)"

lemma coverage_shape: "shape w' = shape w \<Longrightarrow> coverage w' = coverage w"
proof -
  have "totalCoverage ls = fold (\<lambda>(g, c) total. add64 total (mul64 g c)) (map (\<lambda>l. (granularity l, bucketCount l)) ls) 0" for ls
    by (simp add: totalCoverage_def fold_map comp_def)
  then show "shape w' = shape w \<Longrightarrow> coverage w' = coverage w" by (simp add: coverage_def shape_def)
qed

lemma shape_fields [simp]:
  "shape (w\<lparr>slotLocation := m\<rparr>) = shape w" "shape (w\<lparr>overflow := S\<rparr>) = shape w"
  "shape (w\<lparr>currentBase := b\<rparr>) = shape w" "shape (w\<lparr>initialized := i\<rparr>) = shape w"
  by (simp_all add: shape_def)

lemma shape_level:
  "granularity l = granularity (levels w ! j) \<Longrightarrow> bucketCount l = bucketCount (levels w ! j) \<Longrightarrow>
     shape (w\<lparr>levels := (levels w)[j := l]\<rparr>) = shape w"
  by (simp add: shape_def map_update) (metis (mono_tags, lifting) list_update_beyond list_update_id nth_map not_le length_map)

lemma shape_at_bucket: "at_bucket f loc (levels w) = Some ls \<Longrightarrow> shape (w\<lparr>levels := ls\<rparr>) = shape w"
  by (auto simp: at_bucket_def Let_def shape_level split: if_splits)

lemma shape_place: "place k loc w = Some w' \<Longrightarrow> shape w' = shape w"
  using shape_at_bucket by (fastforce simp: place_def shape_def)

lemma shape_cascade_keys: "cascade_keys j ks w = Some w' \<Longrightarrow> shape w' = shape w"
proof (induction ks arbitrary: w)
  case (Cons k ks)
  then obtain w1 where "cascade_keys j ks w1 = Some w'" "shape w1 = shape w"
    using shape_place by (fastforce split: bind_splits option.splits if_splits)
  with Cons.IH show ?case by simp
qed simp

lemma shape_take_bucket: "take_bucket j w = Some (b, w') \<Longrightarrow> shape w' = shape w"
  by (auto simp: take_bucket_def Let_def shape_level split: if_splits)

lemma shape_step_level: "step_level j w = Some w' \<Longrightarrow> shape w' = shape w"
  by (auto simp: step_level_def Let_def shape_level)

lemma shape_cascade: "cascade order fuel j w = Some w' \<Longrightarrow> shape w' = shape w"
proof (induction fuel arbitrary: j w)
  case 0
  then show ?case by (simp add: cascade.simps split: if_splits)
next
  case (Suc fuel)
  then show ?case
    by (auto simp: cascade.simps [of order "Suc fuel"] split: if_splits bind_splits
        dest!: shape_take_bucket shape_cascade_keys shape_step_level Suc.IH)
qed

lemma shape_advance_step: "advance_step order (r, w) = Some (r', w') \<Longrightarrow> shape w' = shape w"
  by (auto simp: advance_step_def Let_def split: if_splits bind_splits
      dest!: shape_take_bucket shape_step_level shape_cascade)

lemma shape_advance_loop: "advance_loop order fuel b (r, w) = Some (r', w') \<Longrightarrow> shape w' = shape w"
proof (induction fuel arbitrary: r w)
  case 0
  then show ?case by (simp add: advance_loop.simps split: if_splits)
next
  case (Suc fuel)
  then show ?case
    by (auto simp: advance_loop.simps [of order "Suc fuel"] split: if_splits bind_splits
        dest!: shape_advance_step Suc.IH)
qed

lemma shape_place_overflow: "place_overflow d ks acc w = Some (out, w') \<Longrightarrow> shape w' = shape w"
  by (induction d ks acc w rule: place_overflow.induct)
    (auto simp: Let_def split: if_splits bind_splits option.splits dest: shape_place)

lemma shape_Advance: "wheel_Advance order now w = Some (ready, w') \<Longrightarrow> shape w' = shape w"
  by (auto simp: wheel_Advance_def Let_def split: if_splits bind_splits
      dest!: shape_advance_loop shape_place_overflow)

lemma shape_Init: "wheel_Init now w = Some w' \<Longrightarrow> shape w' = shape w"
  by (auto simp: wheel_Init_def split: if_splits bind_splits)

lemma shape_Add: "wheel_Add k w = Some w' \<Longrightarrow> shape w' = shape w"
  by (auto simp: wheel_Add_def split: if_splits bind_splits option.splits dest!: shape_place)

section \<open>The slot the clock is in\<close>

text \<open>A key whose offset is covered leaves the overflow.\<close>

lemma place_overflow_takes:
  assumes "wheel_ok w" "\<forall>k \<in> set ks. key_ok (slotGapSeconds w) k" "place_overflow d ks acc w = Some (out, w')"
  shows "set acc \<subseteq> set out \<and> (\<forall>k \<in> set ks. slot_delta w k < d \<longrightarrow> k \<in> set out)"
  using assms
proof (induction ks arbitrary: acc w)
  case (Cons q ks)
  have q: "key_ok (slotGapSeconds w) q" using Cons.prems(2) by simp
  have W: "wheel_frame_ok w" "timing (slotGapSeconds w) (currentBase w) (length (levels w)) (levels w)"
    using Cons.prems(1) by (simp_all add: wheel_inv_def)
  obtain j b where jb: "findBucket (levels w) (slot_delta w q) = Some (Some \<lparr>loc_level = j, loc_bucket = int b\<rparr>)"
      "j < length (levels w)" "b < length (buckets (levels w ! j))"
      "slot_ok (slotGapSeconds w) (currentBase w) (length (levels w)) (levels w) j b q"
    using locate_key [OF W(1) q order_refl] by metis
  define w1 where "w1 = w\<lparr>levels := put (insert q) j b (levels w),
      slotLocation := fmupd q \<lparr>loc_level = j, loc_bucket = int b\<rparr> (slotLocation w)\<rparr>"
  note P = place_ok [OF W(1) q jb(2,3), folded w1_def]
  have w1: "wheel_ok w1" "slotGapSeconds w1 = slotGapSeconds w" "\<And>k. slot_delta w1 k = slot_delta w k"
    using P(2) timing_put_insert [OF W(2) jb(2-4)]
    by (simp_all add: w1_def wheel_inv_def slot_delta_def computeSlotTime_def Let_def)
  show ?case
  proof (cases "slot_delta w q < d")
    case True
    then have "place_overflow d ks (acc @ [q]) w1 = Some (out, w')"
      using Cons.prems(3) jb(1) P(1) by (simp add: Let_def)
    from Cons.IH [OF w1(1) _ this] Cons.prems(2) w1(2,3) show ?thesis by auto
  next
    case False
    then have "place_overflow d ks acc w = Some (out, w')" using Cons.prems(3) by (simp add: Let_def)
    from Cons.IH [OF Cons.prems(1) _ this] Cons.prems(2) False show ?thesis by auto
  qed
qed simp

text \<open>The keys that \<open>Advance\<close> returns lie strictly before the new base.\<close>

lemma Advance_keeps_current:
  assumes "range_order order" "wheel_good w" "0 \<le> now" "now < time_bound" "0 < coverage w"
    and "wheel_Advance order now w = Some (ready, w')" "k \<in> set ready"
  shows "k < now div slotGapSeconds w"
proof -
  let ?g = "slotGapSeconds w"
  let ?nb = "now div ?g * ?g"
  have ok: "wheel_ok w" and W: "wheel_frame_ok w" using assms(2) by (simp_all add: wheel_good_def wheel_inv_def)
  note D = wheel_frame_okD [OF W]
  note B = base_of_ok [OF assms(3,4) D(6)]
  have adv: "initialized w" "currentBase w < ?nb"
    using assms(6,7) B(1) by (auto simp: wheel_Advance_def split: if_splits)
  obtain new w1 where L: "advance_loop order (nat (?nb - currentBase w)) ?nb ([], w) = Some ([] @ new, w1)"
      "wheel_ok w1" "currentBase w1 = ?nb" "slotGapSeconds w1 = ?g" "\<forall>k \<in> set new. k * ?g < ?nb"
    using advance_loop_ok [OF assms(1) ok B(4), of "nat (?nb - currentBase w)" "[]"] B(3) adv(2) assms(4) by auto
  have W1: "wheel_frame_ok w1" using L(2) by (simp add: wheel_inv_def)
  note D1 = wheel_frame_okD [OF W1]
  have keys: "\<forall>k \<in> set (order (overflow w1)). key_ok (slotGapSeconds w1) k"
    using D1(5,7) assms(1) by (simp add: held_def)
  obtain out w2 where O: "place_overflow (totalCoverage (levels w1)) (order (overflow w1)) [] w1 = Some ([] @ out, w2)"
      "same_clock w1 w2" "overflow w2 = overflow w1"
    using place_overflow_ok [OF L(2) keys, of "totalCoverage (levels w1)" "[]"] by blast
  have cov: "0 < totalCoverage (levels w1)"
    using coverage_shape [OF shape_advance_loop [OF L(1)]] assms(5) by (simp add: coverage_def)
  have late: "?nb < computeSlotTime w2 q" if "q \<in> overflow w2 - set out" for q
  proof (rule ccontr)
    have q: "q \<in> set (order (overflow w1))" "key_ok (slotGapSeconds w1) q"
      using that O(3) D1(5,7) assms(1) by (simp_all add: held_def)
    note S = slot_delta_ok [OF q(2) D1(2,3,6)]
    assume "\<not> ?nb < computeSlotTime w2 q"
    then have "slot_delta w1 q = 0" using S O(2) L(3) by (simp add: computeSlotTime_def same_clock_def)
    with place_overflow_takes [OF L(2) keys O(1)] q(1) cov have "q \<in> set out" by simp
    with that show False by simp
  qed
  have "finite (overflow w2 - set out)" using O(3) D1(5) by simp
  then have "filter (\<lambda>k. computeSlotTime w2 k \<le> ?nb) (order (overflow w2 - set out)) = []"
    using late assms(1) by (auto simp: filter_empty_conv not_le)
  then have "ready = new"
    using assms(6) adv B(1) L(1) O(1) by (auto simp: wheel_Advance_def computeSlotTime_def)
  then have "k * ?g < ?nb" using L(5) assms(7) by simp
  then show ?thesis using D(6) by simp
qed

lemma finite_held: "wheel_good w \<Longrightarrow> finite (held w)"
proof -
  assume "wheel_good w"
  then have "wheel_frame_ok w" by (simp add: wheel_good_def wheel_inv_def)
  note D = wheel_frame_okD [OF this]
  have "held w \<subseteq> {0..<time_bound}"
  proof
    fix k assume "k \<in> held w"
    then have k: "0 \<le> k" "k * slotGapSeconds w < time_bound" using D(7) by (simp_all add: key_ok_def)
    have "k * 1 \<le> k * slotGapSeconds w" using k(1) D(6) by (intro mult_left_mono) simp_all
    with k show "k \<in> {0..<time_bound}" by simp
  qed
  then show ?thesis by (rule finite_subset) simp
qed

lemma slot_of_wheel [simp]: "slot_of E (n\<lparr>Q_wheel := w\<rparr>) key = slot_of E n key"
proof -
  have "Store_GetJob (n\<lparr>Q_wheel := w\<rparr>) = Store_GetJob n" by (simp add: fun_eq_iff)
  then show ?thesis by (simp add: slot_of_def cong: option.case_cong)
qed

text \<open>The earliest slot of the queue is offered while the clock is in it.\<close>

lemma timely_slot_offered:
  assumes "range_order order" "queue_ok n" "0 \<le> t0" "t0 < time_bound" "0 \<le> now" "now < time_bound"
    and "0 < coverage (Q_wheel n)" "key \<in> held (Q_wheel n)" "\<forall>q \<in> held (Q_wheel n). key \<le> q"
    and "now div seconds64 (Q_slotGap n) = key"
  shows "\<exists>w. GetNextSlot E order t0 now n = Some (slot_of E n key, n\<lparr>Q_wheel := w\<rparr>) \<and> queue_ok (n\<lparr>Q_wheel := w\<rparr>)"
proof -
  let ?g = "seconds64 (Q_slotGap n)"
  have good: "wheel_good (Q_wheel n)" "slotGapSeconds (Q_wheel n) = ?g" and g: "0 < ?g"
    using assms(2) queue_ok_gap by (simp_all add: queue_ok_def)
  have init: "initialized (Q_wheel n)" using good(1) assms(8) by (auto simp: wheel_good_def)
  obtain ready w where a: "wheel_Advance order now (Q_wheel n) = Some (ready, w)" "wheel_good w" "slotGapSeconds w = ?g"
      "initialized w" "currentBase w = max (currentBase (Q_wheel n)) (key * ?g)" "held (Q_wheel n) = held w \<union> set ready"
    using wheel_Advance_ok [OF assms(1) good(1) assms(5,6)] init good(2) assms(10) by auto
  have none: "ready = []"
  proof (cases ready)
    case (Cons k ks)
    then have "k < key" using Advance_keeps_current [OF assms(1) good(1) assms(5-7) a(1), of k] good(2) assms(10) by simp
    moreover have "key \<le> k" using assms(9) a(6) Cons by auto
    ultimately show ?thesis by simp
  qed
  have held: "held w = held (Q_wheel n)" using a(6) none by simp
  have "PeekMin order w = Min ((\<lambda>k. k * ?g) ` held w)"
    using PeekMin_facts(3) [OF assms(1) a(2,4), of key] a(3,5) held assms(8) by simp
  moreover have "finite (held w)" by (rule finite_held [OF a(2)])
  ultimately have peek: "PeekMin order w = key * ?g"
    using assms(8,9) held g by (auto intro!: Min_eqI)
  have q: "queue_ok (n\<lparr>Q_wheel := w\<rparr>)" using a(2,3) by (simp add: queue_ok_def)
  obtain n' where n': "GetNextSlot E order t0 now n = Some (if held (Q_wheel n') = {} then None
             else slot_of E n' (PeekMin order (Q_wheel n') div ?g), n')"
    using GetNextSlot_ok [OF assms(1-6), of E] by blast
  moreover have "snd (the (GetNextSlot E order t0 now n)) = n\<lparr>Q_wheel := w\<rparr>"
    using init a(1) none n' by (auto simp: GetNextSlot_def Let_def split: option.splits if_splits bind_splits)
  ultimately have "n' = n\<lparr>Q_wheel := w\<rparr>" by simp
  with n' peek g held assms(8) q show ?thesis by auto
qed

section \<open>The run\<close>

lemma still_quiet: "still_client H \<Longrightarrow> quiet_client P H"
  unfolding still_client_def quiet_client_def by (metis snd_conv)

text \<open>
  The only job of the earliest slot is run by the first tick in its slot after its time: the
  worker takes the slot, makes one attempt whose outcome is recorded, and deletes the job.
\<close>

lemma due_job_is_run:
  assumes "steady_raft (raft_lib (O_env W)) P" "still_client (O_http W)" "range_order (O_order W)"
    and "\<forall>k i. 0 \<le> O_event W k i \<and> O_event W k i < time_bound"
    and "\<forall>k. 0 \<le> fst (O_next W k) \<and> fst (O_next W k) < time_bound \<and>
           0 \<le> snd (O_next W k) \<and> snd (O_next W k) < time_bound"
    and "P (St_raft n)" "queue_ok n" "\<forall>q x. fmlookup (jobs (St_fsm n)) q = Some x \<longrightarrow> job_fine (O_cron W) now x"
    and "keyed (jobs (St_fsm n))" "fmlookup (jobs (St_fsm n)) (Job_ID job) = Some job"
    and "0 < coverage (Q_wheel n)" "key \<in> held (Q_wheel n)" "\<forall>q \<in> held (Q_wheel n). key \<le> q"
    and "snd (O_next W 0) div seconds64 (Q_slotGap n) = key"
    and "fmlookup (slots (St_fsm n)) key = Some d" "Slot_JobIDs d = [Job_ID job]" "Slot_MinTime d \<le> now"
    and "shouldExecuteJob job now" "next_instance (O_cron W) now job = None"
    and "st = state_or_new (Job_ID job) (R_mark (O_exec W 0 (Job_ID job))) n" "startable st"
    and "add64 (Exec_AttemptCount st) 1 \<le> EM_maxAttempts n"
  shows "\<exists>slot n1 b n2 a new.
     GetNextSlot (O_env W) (O_order W) (fst (O_next W 0)) (snd (O_next W 0)) n = Some (Some slot, n1) \<and>
     QS_Jobs slot = [job] \<and> run_jobs W 0 now (QS_Jobs slot) empty_batch n1 = (b, n2) \<and>
     executionStates (St_fsm n2) = fmupd (Job_ID job) (finished (Att_Status a) (R_status (O_exec W 0 (Job_ID job))) a
       (started (R_mark (O_exec W 0 (Job_ID job))) (EM_nodeID n) st)) (executionStates (St_fsm n)) \<and>
     Att_Status a \<in> {StatusCompleted, StatusFailed} \<and>
     processSlots W now n = Some new \<and> queue_ok new \<and> Store_GetJob new (Job_ID job) = None"
proof -
  let ?E = "O_env W" and ?i = "Job_ID job" and ?t = "O_exec W 0 (Job_ID job)"
  have t: "0 \<le> fst (O_next W 0)" "fst (O_next W 0) < time_bound" "0 \<le> snd (O_next W 0)" "snd (O_next W 0) < time_bound"
    using assms(5) by simp_all
  define slot where "slot = \<lparr>QS_Key = key, QS_MinTime = Slot_MinTime d, QS_MaxTime = Slot_MaxTime d, QS_Jobs = [job]\<rparr>"
  have "slot_of ?E n key = Some slot"
    using Store_GetSlot_hot [OF assms(15)] assms(10,16) by (simp add: slot_of_def slot_def map_filter_simps)
  then obtain w where w: "GetNextSlot ?E (O_order W) (fst (O_next W 0)) (snd (O_next W 0)) n = Some (Some slot, n\<lparr>Q_wheel := w\<rparr>)"
      "queue_ok (n\<lparr>Q_wheel := w\<rparr>)"
    using timely_slot_offered [OF assms(3,7) t assms(11-14), of ?E] by auto
  let ?n1 = "n\<lparr>Q_wheel := w\<rparr>"
  have st: "st = state_or_new ?i (R_mark ?t) ?n1" using assms(20) by (simp add: state_or_new_def)
  obtain r n2 a where ex: "Execute ?E (O_http W) ?t job ?n1 = (r, n2)"
     "executionStates (St_fsm n2) = fmupd ?i (finished (Att_Status a) (R_status ?t) a
        (started (R_mark ?t) (EM_nodeID n) st)) (executionStates (St_fsm n))"
     "Att_Status a \<in> {StatusCompleted, StatusFailed}"
    using Execute_outcome [OF assms(1) _ still_quiet [OF assms(2)] st assms(21)] assms(6,22) by auto
  then have run: "run_jobs W 0 now (QS_Jobs slot) empty_batch ?n1 = (sort_job (O_cron W) now job empty_batch, n2)"
    using assms(18) by (simp add: slot_def executeJob_def)
  have fine: "\<forall>j \<in> set (QS_Jobs slot). job_fine (O_cron W) now j" using assms(8,10) by (auto simp: slot_def)
  obtain stop n3 where n3: "process_slot W 0 now slot ?n1 = Some (stop, n3)" "queue_ok n3" "P (St_raft n3)"
      "jobs (St_fsm n3) = settled (O_cron W) now [job] (jobs (St_fsm n))"
    using process_slot_ok [OF assms(1) _ w(2) assms(2) _ fine, of 0] assms(4,6,18) by (auto simp: slot_def)
  have gone: "fmlookup (jobs (St_fsm n3)) ?i = None"
    using lookup_settled_due [of "[job]" job] assms(19) by (simp add: n3(4))
  have fine3: "\<forall>q x. fmlookup (jobs (St_fsm n3)) q = Some x \<longrightarrow> job_fine (O_cron W) now x"
    unfolding n3(4) using settled_fine [OF assms(8), of "[job]"] fine by (auto simp: slot_def)
  have "keyed (jobs (St_fsm n3))" unfolding n3(4) by (rule settled_keyed [OF assms(9)])
  then obtain n4 where n4: "process_loop W now 9 1 n3 = Some n4" "queue_ok n4"
      "fmdom' (jobs (St_fsm n4)) \<subseteq> fmdom' (jobs (St_fsm n3))"
    using process_loop_ok [OF assms(1-5) n3(3,2) fine3, of 9 1] by blast
  define new where "new = (if stop then n3 else n4)"
  have "processSlots W now n = Some new"
    using w(1) n3(1) n4(1) assms(17)
    by (simp add: processSlots_def maxSlotsToCheck_def numeral_eq_Suc slot_def new_def)
  moreover have "fmlookup (jobs (St_fsm new)) ?i = None"
    using gone n4(3) by (auto simp: new_def fmlookup_dom'_iff)
  ultimately show ?thesis
    using w(1) run ex(2,3) n3(2) n4(2) by (auto simp: slot_def new_def split: if_splits)
qed

section \<open>What a creation leaves alone\<close>

lemma AddJob_shape: "AddJob E now job n = Some n' \<Longrightarrow> shape (Q_wheel n') = shape (Q_wheel n)"
  by (auto simp: AddJob_def on_wheel_Some Let_def split: option.splits if_splits bind_splits
      dest!: shape_Init shape_Add)

lemma job_fine_wire: "job_fine cron now (wire_Job job) \<longleftrightarrow> job_fine cron now job"
  by (simp add: job_fine_def calculateNextExecution_def cong: option.case_cong)

lemma wrote_manager:
  fixes n n' :: "('c, 'r, 'z) Manager_scheme"
  assumes "wrote n n'"
  shows "EM_maxAttempts n' = EM_maxAttempts n" "EM_nodeID n' = EM_nodeID n"
  by (subst assms [unfolded wrote_def], simp)+

lemma if_leader_manager:
  fixes n :: "('c, 'r, 'z) Manager_scheme"
  shows "EM_maxAttempts (if_leader E (CreateSlot E d) n) = EM_maxAttempts n"
    "EM_nodeID (if_leader E (CreateSlot E d) n) = EM_nodeID n"
  using wrote_manager [OF wrote_raftApply [where s = n and E = E]] by (simp_all add: if_leader_def CreateSlot_def)

end
