(* ===== verification/Slot_Evictor.thy ===== *)
theory Slot_Evictor
  imports Slot_Worker
begin

text \<open>
  The slot evictor of \<open>internal/slots/slot_eviction.go\<close>: a loop that archives the hot slots
  which ended before the hot window and brings archived slots back into it. The evictor
  shares the wheel with the queue. Its start and stop are a small state machine, as the
  worker's, but its channel is made once.
\<close>

section \<open>Configuration\<close>

definition DefaultHotWindow :: Duration where "DefaultHotWindow = 48 * Hour"

definition DefaultCheckInterval :: Duration where "DefaultCheckInterval = 5 * Minute"

record SlotEvictionConfig =
  Enabled :: bool
  HotWindow :: Duration
  CheckInterval :: Duration

definition DefaultSlotEvictionConfig :: SlotEvictionConfig where
  "DefaultSlotEvictionConfig =
     \<lparr>Enabled = False, HotWindow = DefaultHotWindow, CheckInterval = DefaultCheckInterval\<rparr>"

text \<open>\<open>SE_closed\<close> says whether \<open>stopCh\<close> is closed, \<open>SE_loops\<close> counts the loops that were started.\<close>

record SlotEvictor =
  SE_config :: SlotEvictionConfig
  SE_wheel :: bool
  SE_running :: bool
  SE_closed :: bool
  SE_loops :: nat

definition NewSlotEvictorWithWheel :: "SlotEvictionConfig \<Rightarrow> bool \<Rightarrow> SlotEvictor" where
  "NewSlotEvictorWithWheel config wheel =
     (let config = (if HotWindow config = 0 then config\<lparr>HotWindow := DefaultHotWindow\<rparr> else config);
          config = (if CheckInterval config = 0 then config\<lparr>CheckInterval := DefaultCheckInterval\<rparr> else config)
      in \<lparr>SE_config = config, SE_wheel = wheel, SE_running = False, SE_closed = False, SE_loops = 0\<rparr>)"

definition NewSlotEvictor :: "SlotEvictionConfig \<Rightarrow> SlotEvictor" where
  "NewSlotEvictor config = NewSlotEvictorWithWheel config False"

section \<open>Start and stop\<close>

definition Evictor_Start :: "SlotEvictor \<Rightarrow> SlotEvictor" where
  "Evictor_Start se = (if SE_running se then se else se\<lparr>SE_running := True, SE_loops := Suc (SE_loops se)\<rparr>)"

text \<open>Closing a closed channel panics.\<close>

definition Evictor_Stop :: "SlotEvictor \<Rightarrow> SlotEvictor option" where
  "Evictor_Stop se =
     (if \<not> SE_running se then Some se
      else if SE_closed se then None
      else Some (se\<lparr>SE_closed := True, SE_running := False\<rparr>))"

section \<open>Eviction\<close>

text \<open>The loop over the snapshot of the hot slots; \<open>None\<close> is a panic of the wheel.\<close>

fun evict_loop ::
  "('c, 'r) Env \<Rightarrow> bool \<Rightarrow> int \<Rightarrow> (int \<times> SlotData) list \<Rightarrow> ('c, 'r, 'z) Node_scheme
     \<Rightarrow> ('c, 'r, 'z) Node_scheme option" where
  "evict_loop E wheel hotThreshold [] n = Some n"
| "evict_loop E wheel hotThreshold ((key, slotData) # rest) n =
     (if Slot_MaxTime slotData < hotThreshold
      then case ArchiveSlot E key n of
             (Some err, n) \<Rightarrow> evict_loop E wheel hotThreshold rest n
           | (None, n) \<Rightarrow>
               (if wheel then on_wheel (wheel_Remove key) n else Some n) \<bind> evict_loop E wheel hotThreshold rest
      else evict_loop E wheel hotThreshold rest n)"

definition in_window :: "int \<Rightarrow> int \<Rightarrow> SlotData \<Rightarrow> bool" where
  "in_window hotThreshold hotWindowSeconds slotData \<longleftrightarrow>
     Slot_MinTime slotData \<ge> hotThreshold \<and>
     Slot_MaxTime slotData < add64 hotThreshold (mul64 hotWindowSeconds 2)"

fun promote_loop ::
  "('c, 'r) Env \<Rightarrow> bool \<Rightarrow> int \<Rightarrow> int \<Rightarrow> int list \<Rightarrow> ('c, 'r, 'z) Node_scheme
     \<Rightarrow> ('c, 'r, 'z) Node_scheme option" where
  "promote_loop E wheel hotThreshold hotWindowSeconds [] n = Some n"
| "promote_loop E wheel hotThreshold hotWindowSeconds (key # rest) n =
     (case Store_GetSlot E n key of
        None \<Rightarrow> promote_loop E wheel hotThreshold hotWindowSeconds rest n
      | Some slotData \<Rightarrow>
          if in_window hotThreshold hotWindowSeconds slotData
          then case UnarchiveSlot E key n of
                 (Some err, n) \<Rightarrow> promote_loop E wheel hotThreshold hotWindowSeconds rest n
               | (None, n) \<Rightarrow>
                   (if wheel then on_wheel (wheel_Add key) n else Some n)
                     \<bind> promote_loop E wheel hotThreshold hotWindowSeconds rest
          else promote_loop E wheel hotThreshold hotWindowSeconds rest n)"

definition evict ::
  "('c, 'r) Env \<Rightarrow> int key_order \<Rightarrow> SlotEvictor \<Rightarrow> int \<Rightarrow> ('c, 'r, 'z) Node_scheme
     \<Rightarrow> ('c, 'r, 'z) Node_scheme option" where
  "evict E order se now n =
     (if \<not> IsLeader E n then Some n
      else let hotWindowSeconds = seconds64 (HotWindow (SE_config se));
               hotThreshold = sub64 now hotWindowSeconds
      in do {
        n \<leftarrow> evict_loop E (SE_wheel se) hotThreshold (range_map order (Store_GetAllSlots n)) n;
        promote_loop E (SE_wheel se) hotThreshold hotWindowSeconds (Store_GetColdSlotKeys order n) n
      })"

section \<open>A dependable archive\<close>

text \<open>An archive whose operations never fail.\<close>

locale dependable_archive = cold_slot_store +
  assumes put_works: "fst (PutColdSlot C k d c) = None"
    and get_works: "\<exists>r. GetColdSlot C k c = Inr r"
    and delete_works: "fst (DeleteColdSlot C k c) = None"
begin

lemma get_is: "GetColdSlot C k c = Inr (archived c k)"
  using get_works [of k c] get_ok by auto

lemma put_is: "in64 k \<Longrightarrow> in64 q \<Longrightarrow> archived (snd (PutColdSlot C k d c)) q = (if q = k then Some d else archived c q)"
  using put_ok [of k d c _ q] put_works [of k d c] by (cases "PutColdSlot C k d c") simp

lemma delete_is: "in64 k \<Longrightarrow> in64 q \<Longrightarrow> archived (snd (DeleteColdSlot C k c)) q = (if q = k then None else archived c q)"
  using delete_ok [of k c _ q] delete_works [of k c] by (cases "DeleteColdSlot C k c") simp

lemma archive_is:
  assumes "coldStore f = Some c"
  shows "snd (applyArchiveSlot C (zero_Command\<lparr>Cmd_Type := ty, Cmd_ColdSlot := Some d\<rparr>) f) =
     f\<lparr>coldStore := Some (snd (PutColdSlot C (Slot_Key d) d c)), slots := fmdrop (Slot_Key d) (slots f),
       coldSlotMeta := fmupd (Slot_Key d) True (coldSlotMeta f)\<rparr>"
  using assms put_works [of "Slot_Key d" d c]
  by (cases "PutColdSlot C (Slot_Key d) d c") (simp add: applyArchiveSlot_def)

lemma unarchive_is:
  assumes "coldStore f = Some c" "in64 k"
  shows "snd (applyUnarchiveSlot C (zero_Command\<lparr>Cmd_Type := ty, Cmd_ID := Sprintf_d k\<rparr>) f) =
     f\<lparr>slots := (case archived c k of None \<Rightarrow> slots f | Some d \<Rightarrow> fmupd k d (slots f)),
       coldStore := Some (snd (DeleteColdSlot C k c)), coldSlotMeta := fmdrop k (coldSlotMeta f)\<rparr>"
  using assms by (simp add: applyUnarchiveSlot_def get_is)

end

interpretation memory_dependable: dependable_archive memory_archive "\<lambda>b k. b (itob k)"
  by unfold_locales simp_all

section \<open>Lemmas\<close>

text \<open>
  What the loops rely on: a dependable archive is there, hot and archived keys are apart,
  they are in range, and the hot slots carry their own key.
\<close>

definition spilling_ok :: "('c, 'r, 'z) Node_scheme \<Rightarrow> bool" where
  "spilling_ok n \<longleftrightarrow> queue_ok n \<and> coldStore (St_fsm n) \<noteq> None \<and>
     (\<forall>k d. fmlookup (slots (St_fsm n)) k = Some d \<longrightarrow> Slot_Key d = k \<and>
        key_ok (seconds64 (Q_slotGap n)) k \<and> fmlookup (coldSlotMeta (St_fsm n)) k = None) \<and>
     (\<forall>k. fmlookup (coldSlotMeta (St_fsm n)) k \<noteq> None \<longrightarrow>
        fmlookup (coldSlotMeta (St_fsm n)) k = Some True \<and> key_ok (seconds64 (Q_slotGap n)) k)"

text \<open>A step that moves slots between memory and archive without a reader noticing.\<close>

definition same_slots ::
  "('c, 'r) Env \<Rightarrow> ('r \<Rightarrow> bool) \<Rightarrow> ('c, 'r, 'z) Node_scheme \<Rightarrow> ('c, 'r, 'z) Node_scheme \<Rightarrow> bool" where
  "same_slots E P n n' \<longleftrightarrow> spilling_ok n' \<and> P (St_raft n') \<and> jobs (St_fsm n') = jobs (St_fsm n) \<and>
     Q_slotGap n' = Q_slotGap n \<and> (\<forall>q. in64 q \<longrightarrow> Store_GetSlot E n' q = Store_GetSlot E n q)"

lemma same_slots_trans: "same_slots E P a b \<Longrightarrow> same_slots E P b c \<Longrightarrow> same_slots E P a c"
  by (auto simp: same_slots_def)

lemma same_slots_refl: "spilling_ok n \<Longrightarrow> P (St_raft n) \<Longrightarrow> same_slots E P n n"
  by (auto simp: same_slots_def)

lemma spilling_okD:
  assumes "spilling_ok n"
  shows "queue_ok n" "\<exists>c. coldStore (St_fsm n) = Some c"
    "fmlookup (slots (St_fsm n)) k = Some d \<Longrightarrow> Slot_Key d = k"
    "fmlookup (slots (St_fsm n)) k = Some d \<Longrightarrow> key_ok (seconds64 (Q_slotGap n)) k"
    "fmlookup (slots (St_fsm n)) k = Some d \<Longrightarrow> fmlookup (coldSlotMeta (St_fsm n)) k = None"
    "fmlookup (coldSlotMeta (St_fsm n)) k = Some b \<Longrightarrow> b \<and> key_ok (seconds64 (Q_slotGap n)) k"
  using assms by (auto simp: spilling_ok_def)

lemma key_ok_in64: "0 < g \<Longrightarrow> key_ok g k \<Longrightarrow> in64 k"
proof -
  assume g: "0 < g" and k: "key_ok g k"
  have "k * 1 \<le> k * g" using g k by (intro mult_left_mono) (auto simp: key_ok_def)
  with k show ?thesis by (simp add: key_ok_def)
qed

lemma GetSlot_cases:
  "Store_GetSlot E n q = (case fmlookup (slots (St_fsm n)) q of Some d \<Rightarrow> Some d
     | None \<Rightarrow> if fmlookup (coldSlotMeta (St_fsm n)) q = Some True
               then (case coldStore (St_fsm n) of None \<Rightarrow> None
                     | Some c \<Rightarrow> (case GetColdSlot (cold_lib E) q c of Inl e \<Rightarrow> None | Inr r \<Rightarrow> r))
               else None)"
  by (auto simp: Store_GetSlot_def GetSlot_def IsSlotCold_def split: option.splits sum.splits)

text \<open>Raft and the queue around a write on a steady leader.\<close>

lemma steady_write:
  assumes "steady_raft (raft_lib E) P" "P (St_raft n)"
  obtains n' where "raftApply E cmd n = (None, n')" "P (St_raft n')" "Q_wheel n' = Q_wheel n"
    "Q_slotGap n' = Q_slotGap n"
    "St_fsm n' = snd (applyCommandInternal (cold_lib E) (wire_Command cmd) (St_fsm n))"
proof -
  obtain n' where n': "raftApply E cmd n = (None, n')"
    using steady_raftApply(2) [OF assms, of cmd] by (metis prod.collapse)
  moreover have "Q_wheel n' = Q_wheel n" "Q_slotGap n' = Q_slotGap n" "P (St_raft n')"
    using raftApply_queue [of E cmd n] steady_raftApply(3) [OF assms, of cmd] n' by simp_all
  ultimately show ?thesis using that raftApply_ok [OF n'] by blast
qed

context dependable_archive
begin

lemma archive_step_same:
  assumes "steady_raft (raft_lib E) P" "P (St_raft n)" "cold_lib E = C" "spilling_ok n"
    and "fmlookup (slots (St_fsm n)) key = Some d"
  obtains n' where "ArchiveSlot E key n = (None, n')" "same_slots E P n n'" "Q_wheel n' = Q_wheel n"
    "slots (St_fsm n') = fmdrop key (slots (St_fsm n))"
proof -
  let ?f = "St_fsm n" and ?cmd = "zero_Command\<lparr>Cmd_Type := CommandArchiveSlot, Cmd_ColdSlot := Some d\<rparr>"
  note D = spilling_okD [OF assms(4)]
  obtain c where c: "coldStore ?f = Some c" using D(2) by blast
  have key: "Slot_Key d = key" "key_ok (seconds64 (Q_slotGap n)) key" using D(3,4) assms(5) by auto
  have gap: "0 < seconds64 (Q_slotGap n)" by (rule queue_ok_gap [OF D(1)])
  then have k64: "in64 key" by (rule key_ok_in64) (rule key(2))
  obtain n' where n': "raftApply E ?cmd n = (None, n')" "P (St_raft n')" "Q_wheel n' = Q_wheel n"
    "Q_slotGap n' = Q_slotGap n" "St_fsm n' = snd (applyCommandInternal (cold_lib E) (wire_Command ?cmd) ?f)"
    using steady_write [OF assms(1,2)] .
  have w: "wire_Command ?cmd = ?cmd" by (simp add: wire_Command_def zero_Command_def)
  have f': "St_fsm n' = ?f\<lparr>coldStore := Some (snd (PutColdSlot C key d c)), slots := fmdrop key (slots ?f),
       coldSlotMeta := fmupd key True (coldSlotMeta ?f)\<rparr>"
    using archive_is [OF c, where d = d and ty = CommandArchiveSlot] n'(5) key(1)
    by (simp add: w applyCommandInternal_def assms(3))
  have get: "Store_GetSlot E n' q = Store_GetSlot E n q" if "in64 q" for q
    using that put_is [OF k64 that, of d c] assms(5) c
    by (auto simp: GetSlot_cases f' assms(3) get_is split: option.splits)
  have "spilling_ok n'"
    using assms(4) key(2) n'(3,4) by (auto simp: spilling_ok_def f' queue_ok_def)
  then have "same_slots E P n n'" using n'(2,4) get f' by (simp add: same_slots_def)
  moreover have "ArchiveSlot E key n = (None, n')"
    using n'(1) steady_raftApply(1) [OF assms(1,2)] assms(5) by (simp add: ArchiveSlot_def GetSlot_def)
  ultimately show ?thesis using that n'(3) f' by simp
qed

lemma unarchive_step_same:
  assumes "steady_raft (raft_lib E) P" "P (St_raft n)" "cold_lib E = C" "spilling_ok n"
    and "fmlookup (coldSlotMeta (St_fsm n)) key = Some b" "Store_GetSlot E n key = Some d" "Slot_Key d = key"
  obtains n' where "UnarchiveSlot E key n = (None, n')" "same_slots E P n n'" "Q_wheel n' = Q_wheel n"
    "slots (St_fsm n') = fmupd key d (slots (St_fsm n))" "coldSlotMeta (St_fsm n') = fmdrop key (coldSlotMeta (St_fsm n))"
proof -
  let ?f = "St_fsm n" and ?cmd = "zero_Command\<lparr>Cmd_Type := CommandUnarchiveSlot, Cmd_ID := Sprintf_d key\<rparr>"
  note D = spilling_okD [OF assms(4)]
  obtain c where c: "coldStore ?f = Some c" using D(2) by blast
  have b: "b" "key_ok (seconds64 (Q_slotGap n)) key" using D(6) [OF assms(5)] by simp_all
  have gap: "0 < seconds64 (Q_slotGap n)" by (rule queue_ok_gap [OF D(1)])
  then have k64: "in64 key" by (rule key_ok_in64) (rule b(2))
  have hot: "fmlookup (slots ?f) key = None" using D(5) assms(5) by fastforce
  then have d: "archived c key = Some d"
    using assms(3,5,6) b(1) c by (simp add: GetSlot_cases get_is split: option.splits)
  obtain n' where n': "raftApply E ?cmd n = (None, n')" "P (St_raft n')" "Q_wheel n' = Q_wheel n"
    "Q_slotGap n' = Q_slotGap n" "St_fsm n' = snd (applyCommandInternal (cold_lib E) (wire_Command ?cmd) ?f)"
    using steady_write [OF assms(1,2)] .
  have f': "St_fsm n' = ?f\<lparr>slots := fmupd key d (slots ?f), coldStore := Some (snd (DeleteColdSlot C key c)),
       coldSlotMeta := fmdrop key (coldSlotMeta ?f)\<rparr>"
    using unarchive_is [OF c k64, where ty = CommandUnarchiveSlot] n'(5) d by (simp add: applyCommandInternal_def assms(3))
  have get: "Store_GetSlot E n' q = Store_GetSlot E n q" if "in64 q" for q
    using that delete_is [OF k64 that, of c] assms(5) b(1) d hot c
    by (auto simp: GetSlot_cases f' assms(3) get_is split: option.splits)
  have "spilling_ok n'"
    using assms(4,7) b(2) n'(3,4) by (auto simp: spilling_ok_def f' queue_ok_def)
  then have "same_slots E P n n'" using n'(2,4) get f' by (simp add: same_slots_def)
  moreover have "UnarchiveSlot E key n = (None, n')"
    using n'(1) steady_raftApply(1) [OF assms(1,2)] by (simp add: UnarchiveSlot_def)
  ultimately show ?thesis using that n'(3) f' by simp
qed

lemma wheel_same:
  assumes "same_slots E P n n'"
  shows "\<exists>w. (if b then on_wheel (wheel_Remove key) n' else Some n') = Some (n'\<lparr>Q_wheel := w\<rparr>) \<and>
      same_slots E P n (n'\<lparr>Q_wheel := w\<rparr>)"
    "key_ok (seconds64 (Q_slotGap n')) key \<Longrightarrow>
      \<exists>w. (if b then on_wheel (wheel_Add key) n' else Some n') = Some (n'\<lparr>Q_wheel := w\<rparr>) \<and>
      same_slots E P n (n'\<lparr>Q_wheel := w\<rparr>)"
proof -
  have q: "wheel_good (Q_wheel n')" "slotGapSeconds (Q_wheel n') = seconds64 (Q_slotGap n')"
    using assms by (simp_all add: same_slots_def spilling_ok_def queue_ok_def)
  have keep: "same_slots E P n (n'\<lparr>Q_wheel := w\<rparr>)"
    if "wheel_good w" "slotGapSeconds w = seconds64 (Q_slotGap n')" for w
    using assms that by (auto simp: same_slots_def spilling_ok_def queue_ok_def Store_GetSlot_def)
  have still: "\<exists>w. n' = n'\<lparr>Q_wheel := w\<rparr> \<and> same_slots E P n (n'\<lparr>Q_wheel := w\<rparr>)"
    using keep [OF q] by (intro exI [of _ "Q_wheel n'"]) simp
  show "\<exists>w. (if b then on_wheel (wheel_Remove key) n' else Some n') = Some (n'\<lparr>Q_wheel := w\<rparr>) \<and>
      same_slots E P n (n'\<lparr>Q_wheel := w\<rparr>)"
    using wheel.remove_law [OF q(1), of key] q keep still by (cases b) (auto simp: on_wheel_def)
  show "\<exists>w. (if b then on_wheel (wheel_Add key) n' else Some n') = Some (n'\<lparr>Q_wheel := w\<rparr>) \<and>
      same_slots E P n (n'\<lparr>Q_wheel := w\<rparr>)" if "key_ok (seconds64 (Q_slotGap n')) key"
    using wheel.add_law [OF q(1), of key] that q keep still by (cases b) (auto simp: on_wheel_def)
qed

lemma evict_loop_ok:
  assumes "steady_raft (raft_lib E) P" "cold_lib E = C" "P (St_raft n)" "spilling_ok n" "distinct (map fst es)"
    and "\<And>k d. (k, d) \<in> set es \<Longrightarrow> fmlookup (slots (St_fsm n)) k = Some d"
  shows "\<exists>n'. evict_loop E wh thr es n = Some n' \<and> same_slots E P n n' \<and>
     (\<forall>k. fmlookup (slots (St_fsm n')) k =
        (if \<exists>d. (k, d) \<in> set es \<and> Slot_MaxTime d < thr then None else fmlookup (slots (St_fsm n)) k))"
  using assms(3-6)
proof (induction es arbitrary: n)
  case Nil
  then show ?case by (simp add: same_slots_refl)
next
  case (Cons e es)
  obtain key d where e: "e = (key, d)" by fastforce
  have hot: "fmlookup (slots (St_fsm n)) key = Some d" using Cons.prems(4) e by simp
  have other: "\<And>x. (key, x) \<notin> set es" using Cons.prems(3) e by force
  show ?case
  proof (cases "Slot_MaxTime d < thr")
    case False
    then show ?thesis using Cons.IH [OF Cons.prems(1,2)] Cons.prems(3,4) hot by (auto simp: e)
  next
    case True
    obtain n1 where n1: "ArchiveSlot E key n = (None, n1)" "same_slots E P n n1"
      "slots (St_fsm n1) = fmdrop key (slots (St_fsm n))"
      using archive_step_same [OF assms(1) Cons.prems(1) assms(2) Cons.prems(2) hot] by metis
    obtain w where w: "(if wh then on_wheel (wheel_Remove key) n1 else Some n1) = Some (n1\<lparr>Q_wheel := w\<rparr>)"
      "same_slots E P n (n1\<lparr>Q_wheel := w\<rparr>)"
      using wheel_same(1) [OF n1(2)] by blast
    let ?n = "n1\<lparr>Q_wheel := w\<rparr>"
    have "\<exists>n'. evict_loop E wh thr es ?n = Some n' \<and> same_slots E P ?n n' \<and>
       (\<forall>k. fmlookup (slots (St_fsm n')) k =
          (if \<exists>d. (k, d) \<in> set es \<and> Slot_MaxTime d < thr then None else fmlookup (slots (St_fsm ?n)) k))"
    proof (rule Cons.IH)
      show "P (St_raft ?n)" "spilling_ok ?n" using w(2) by (simp_all add: same_slots_def)
      show "distinct (map fst es)" using Cons.prems(3) by simp
      show "fmlookup (slots (St_fsm ?n)) k = Some x" if "(k, x) \<in> set es" for k x
        using that other Cons.prems(4) [of k x] by (auto simp: n1(3) e)
    qed
    then obtain n' where n': "evict_loop E wh thr es ?n = Some n'" "same_slots E P ?n n'"
       "\<forall>k. fmlookup (slots (St_fsm n')) k =
          (if \<exists>d. (k, d) \<in> set es \<and> Slot_MaxTime d < thr then None else fmlookup (slots (St_fsm ?n)) k)" by blast
    have "evict_loop E wh thr (e # es) n = Some n'" using True n1(1) w(1) n'(1) by (simp add: e)
    moreover have "\<forall>k. fmlookup (slots (St_fsm n')) k =
        (if \<exists>d. (k, d) \<in> set (e # es) \<and> Slot_MaxTime d < thr then None else fmlookup (slots (St_fsm n)) k)"
      using n'(3) True by (auto simp: n1(3) e)
    ultimately show ?thesis using same_slots_trans [OF w(2) n'(2)] by blast
  qed
qed

lemma promote_loop_ok:
  assumes "steady_raft (raft_lib E) P" "cold_lib E = C" "P (St_raft n)" "spilling_ok n" "distinct keys"
    and "\<And>k. k \<in> set keys \<Longrightarrow> fmlookup (coldSlotMeta (St_fsm n)) k \<noteq> None"
    and "\<And>k d. in64 k \<Longrightarrow> Store_GetSlot E n k = Some d \<Longrightarrow> Slot_Key d = k"
  shows "\<exists>n'. promote_loop E wh thr win keys n = Some n' \<and> same_slots E P n n' \<and>
     (\<forall>k d. fmlookup (slots (St_fsm n')) k = Some d \<longrightarrow>
        fmlookup (slots (St_fsm n)) k = Some d \<or> in_window thr win d)"
  using assms(3-7)
proof (induction keys arbitrary: n)
  case Nil
  then show ?case by (simp add: same_slots_refl)
next
  case (Cons key keys)
  obtain b where b: "fmlookup (coldSlotMeta (St_fsm n)) key = Some b" using Cons.prems(4) by fastforce
  have key: "key_ok (seconds64 (Q_slotGap n)) key" using spilling_okD(6) [OF Cons.prems(2) b] by simp
  have k64: "in64 key" by (rule key_ok_in64 [OF queue_ok_gap key]) (rule spilling_okD(1) [OF Cons.prems(2)])
  show ?case
  proof (cases "\<exists>d. Store_GetSlot E n key = Some d \<and> in_window thr win d")
    case False
    then have "promote_loop E wh thr win (key # keys) n = promote_loop E wh thr win keys n"
      by (auto split: option.splits)
    then show ?thesis using Cons.IH [OF Cons.prems(1,2)] Cons.prems(3-5) by simp
  next
    case True
    then obtain d where d: "Store_GetSlot E n key = Some d" "in_window thr win d" by blast
    obtain n1 where n1: "UnarchiveSlot E key n = (None, n1)" "same_slots E P n n1"
      "slots (St_fsm n1) = fmupd key d (slots (St_fsm n))" "coldSlotMeta (St_fsm n1) = fmdrop key (coldSlotMeta (St_fsm n))"
      using unarchive_step_same [OF assms(1) Cons.prems(1) assms(2) Cons.prems(2) b d(1) Cons.prems(5) [OF k64 d(1)]] by metis
    have "key_ok (seconds64 (Q_slotGap n1)) key" using n1(2) key by (simp add: same_slots_def)
    then obtain w where w: "(if wh then on_wheel (wheel_Add key) n1 else Some n1) = Some (n1\<lparr>Q_wheel := w\<rparr>)"
      "same_slots E P n (n1\<lparr>Q_wheel := w\<rparr>)"
      using wheel_same(2) [OF n1(2)] by blast
    let ?n = "n1\<lparr>Q_wheel := w\<rparr>"
    have "\<exists>n'. promote_loop E wh thr win keys ?n = Some n' \<and> same_slots E P ?n n' \<and>
       (\<forall>k d. fmlookup (slots (St_fsm n')) k = Some d \<longrightarrow> fmlookup (slots (St_fsm ?n)) k = Some d \<or> in_window thr win d)"
    proof (rule Cons.IH)
      show "P (St_raft ?n)" "spilling_ok ?n" using w(2) by (simp_all add: same_slots_def)
      show "distinct keys" using Cons.prems(3) by simp
      show "fmlookup (coldSlotMeta (St_fsm ?n)) k \<noteq> None" if "k \<in> set keys" for k
        using that Cons.prems(3,4) by (auto simp: n1(4))
      show "Slot_Key x = k" if "in64 k" "Store_GetSlot E ?n k = Some x" for k x
        using that w(2) Cons.prems(5) by (simp add: same_slots_def)
    qed
    then obtain n' where n': "promote_loop E wh thr win keys ?n = Some n'" "same_slots E P ?n n'"
       "\<forall>k d. fmlookup (slots (St_fsm n')) k = Some d \<longrightarrow> fmlookup (slots (St_fsm ?n)) k = Some d \<or> in_window thr win d"
      by blast
    have "promote_loop E wh thr win (key # keys) n = Some n'" using d n1(1) w(1) n'(1) by simp
    moreover have "\<forall>k x. fmlookup (slots (St_fsm n')) k = Some x \<longrightarrow>
        fmlookup (slots (St_fsm n)) k = Some x \<or> in_window thr win x"
      using n'(3) d(2) by (auto simp: n1(3) split: if_splits)
    ultimately show ?thesis using same_slots_trans [OF w(2) n'(2)] by blast
  qed
qed

end

section \<open>Properties\<close>


text \<open>The evictor works only until its first stop: once its channel is closed, the next start and
  stop close it again and panic; a restart after a lost leadership is not survived.\<close>
theorem evictor_restart_panics:
  assumes "SE_running se" "\<not> SE_closed se"
  shows "\<exists>se'. Evictor_Stop se = Some se' \<and> SE_closed se' \<and> Evictor_Stop (Evictor_Start se') = None"
  using assms by (simp add: Evictor_Stop_def Evictor_Start_def)

lemma evictor_restart_panics_witness:
  "\<exists>se'. Evictor_Stop (Evictor_Start (NewSlotEvictor DefaultSlotEvictionConfig)) = Some se' \<and>
     Evictor_Stop (Evictor_Start se') = None"
  using evictor_restart_panics [of "Evictor_Start (NewSlotEvictor DefaultSlotEvictionConfig)"]
  by (auto simp: Evictor_Start_def NewSlotEvictor_def NewSlotEvictorWithWheel_def DefaultSlotEvictionConfig_def
      DefaultHotWindow_def DefaultCheckInterval_def Hour_def Minute_def Second_def)

text \<open>What was evicted is not brought back: a slot that ended before the threshold of one eviction
  starts before the threshold of every later one, so the second loop never takes it.\<close>
theorem evicted_slot_never_returns:
  assumes "Slot_MaxTime d < sub64 now win" "Slot_MinTime d \<le> Slot_MaxTime d" "sub64 now win \<le> sub64 later win"
  shows "\<not> in_window (sub64 later win) win d"
  using assms by (simp add: in_window_def)

lemma evicted_slot_never_returns_witness: "\<not> in_window (sub64 1000 100) 100 sample_slot"
  using evicted_slot_never_returns [of sample_slot 1000 100 1000] by (simp add: sub64_def sample_slot_def in64_def)

definition spill_node :: "(disk, solo) Node" where
  "spill_node = solo_node True slot_fsm"


end
