(* ===== verification/Peer_Discovery.thy ===== *)
theory Peer_Discovery
  imports Job_Store
begin

text \<open>
  The bootstrap helpers of \<open>internal/app.go\<close>: the tracker of discovered peers with the channel
  that it closes at its threshold, the server ID that is derived from an address
  (\<open>net.SplitHostPort\<close> is modelled as the standard library has it), and the choice of the
  node that forms the cluster. Go compares strings by their bytes, which is the
  lexicographic order on lists of characters.
\<close>

section \<open>Addresses\<close>

fun IndexByte :: "string \<Rightarrow> char \<Rightarrow> nat option" where
  "IndexByte [] c = None"
| "IndexByte (x # xs) c = (if x = c then Some 0 else map_option Suc (IndexByte xs c))"

fun LastIndexByte :: "string \<Rightarrow> char \<Rightarrow> nat option" where
  "LastIndexByte [] c = None"
| "LastIndexByte (x # xs) c =
     (case LastIndexByte xs c of Some i \<Rightarrow> Some (Suc i) | None \<Rightarrow> if x = c then Some 0 else None)"

datatype addr_error = MissingPort | TooManyColons | MissingBracket | UnexpectedOpen | UnexpectedClose

definition SplitHostPort :: "string \<Rightarrow> addr_error + (string \<times> string)" where
  "SplitHostPort hostport =
     (let finish = (\<lambda>host j k i.
            if IndexByte (drop j hostport) (CHR ''['') \<noteq> None then Inl UnexpectedOpen
            else if IndexByte (drop k hostport) (CHR '']'') \<noteq> None then Inl UnexpectedClose
            else Inr (host, drop (Suc i) hostport))
      in case LastIndexByte hostport (CHR '':'') of
        None \<Rightarrow> Inl MissingPort
      | Some i \<Rightarrow>
          if hostport ! 0 = CHR ''['' then
            (case IndexByte hostport (CHR '']'') of
               None \<Rightarrow> Inl MissingBracket
             | Some e \<Rightarrow>
                 if Suc e = length hostport then Inl MissingPort
                 else if Suc e = i then finish (drop 1 (take e hostport)) 1 (Suc e) i
                 else if hostport ! Suc e = CHR '':'' then Inl TooManyColons
                 else Inl MissingPort)
          else
            (if IndexByte (take i hostport) (CHR '':'') \<noteq> None then Inl TooManyColons
             else finish (take i hostport) 0 0 i))"

definition derivePeerID :: "string \<Rightarrow> string" where
  "derivePeerID addr =
     (case SplitHostPort addr of
        Inl err \<Rightarrow> addr
      | Inr (host, p) \<Rightarrow>
          (case IndexByte host (CHR ''.'') of
             Some idx \<Rightarrow> if idx > 0 then take idx host else host
           | None \<Rightarrow> host))"

section \<open>The tracker\<close>

text \<open>\<open>PT_done\<close> says whether the channel \<open>done\<close> is closed; the map to empty structs is a finite set.\<close>

record peerTracker =
  PT_addresses :: "string fset"
  PT_threshold :: int
  PT_done :: bool
  PT_closed :: bool

definition newPeerTracker :: "int \<Rightarrow> peerTracker" where
  "newPeerTracker threshold =
     \<lparr>PT_addresses = {||}, PT_threshold = threshold, PT_done = False, PT_closed = False\<rparr>"

definition peerTracker_add :: "string \<Rightarrow> peerTracker \<Rightarrow> peerTracker option" where
  "peerTracker_add addr pt =
     (if PT_closed pt then Some pt
      else let pt = pt\<lparr>PT_addresses := finsert addr (PT_addresses pt)\<rparr>
      in if int (fcard (PT_addresses pt)) \<ge> PT_threshold pt
         then let pt = pt\<lparr>PT_closed := True\<rparr>
              in if PT_done pt then None else Some (pt\<lparr>PT_done := True\<rparr>)
         else Some pt)"

definition peerTracker_list :: "string key_order \<Rightarrow> peerTracker \<Rightarrow> string list" where
  "peerTracker_list order pt = order (fset (PT_addresses pt))"

definition peerTracker_count :: "peerTracker \<Rightarrow> int" where
  "peerTracker_count pt = int (fcard (PT_addresses pt))"

text \<open>\<open>wait\<close> blocks, here \<open>None\<close>, until the channel is closed or the context has expired.\<close>

definition peerTracker_wait :: "string key_order \<Rightarrow> bool \<Rightarrow> peerTracker \<Rightarrow> string list option" where
  "peerTracker_wait order expired pt =
     (if PT_done pt \<or> expired then Some (order (fset (PT_addresses pt))) else None)"

section \<open>The initiator\<close>

definition isBootstrapInitiator :: "string \<Rightarrow> string list \<Rightarrow> bool" where
  "isBootstrapInitiator nodeID peers = list_all (\<lambda>addr. \<not> derivePeerID addr < nodeID) peers"

section \<open>Lemmas\<close>

lemma IndexByte_None [simp]: "IndexByte s c = None \<longleftrightarrow> c \<notin> set s"
  by (induction s) auto

lemma IndexByte_append: "c \<notin> set s \<Longrightarrow> IndexByte (s @ c # t) c = Some (length s)"
  by (induction s) auto

lemma LastIndexByte_None [simp]: "LastIndexByte s c = None \<longleftrightarrow> c \<notin> set s"
  by (induction s) (auto split: option.splits)

lemma no_byte: "c \<notin> set s \<Longrightarrow> IndexByte s c = None" "c \<notin> set s \<Longrightarrow> LastIndexByte s c = None"
  by simp_all

lemma LastIndexByte_append: "c \<notin> set t \<Longrightarrow> LastIndexByte (s @ c # t) c = Some (length s)"
  by (induction s) (simp_all add: no_byte)

definition plain :: "string \<Rightarrow> bool" where
  "plain s \<longleftrightarrow> CHR '':'' \<notin> set s \<and> CHR ''['' \<notin> set s \<and> CHR '']'' \<notin> set s"

lemma split_plain:
  assumes "plain host" "plain p"
  shows "SplitHostPort (host @ CHR '':'' # p) = Inr (host, p)"
proof -
  let ?a = "host @ CHR '':'' # p"
  have i: "LastIndexByte ?a (CHR '':'') = Some (length host)"
    using assms(2) by (simp add: LastIndexByte_append plain_def)
  have "?a ! 0 \<noteq> CHR ''[''"
    using assms(1) by (cases host) (auto simp: plain_def)
  moreover have "CHR ''['' \<notin> set ?a" "CHR '']'' \<notin> set ?a" "CHR '':'' \<notin> set host"
    using assms by (auto simp: plain_def)
  ultimately show ?thesis by (simp add: SplitHostPort_def i Let_def)
qed

lemma derive_dns:
  assumes "plain name" "CHR ''.'' \<notin> set name" "name \<noteq> []" "plain rest" "plain p"
  shows "derivePeerID (name @ CHR ''.'' # rest @ CHR '':'' # p) = name"
proof -
  have "SplitHostPort ((name @ CHR ''.'' # rest) @ CHR '':'' # p) = Inr (name @ CHR ''.'' # rest, p)"
    using assms by (intro split_plain) (auto simp: plain_def)
  then show ?thesis using assms(2,3) by (simp add: derivePeerID_def IndexByte_append)
qed

lemma derive_host:
  assumes "plain name" "CHR ''.'' \<notin> set name" "plain p"
  shows "derivePeerID (name @ CHR '':'' # p) = name"
  using split_plain [OF assms(1,3)] assms(2) by (simp add: derivePeerID_def no_byte)

text \<open>What the tracker is after a sequence of reports.\<close>

fun report :: "string list \<Rightarrow> peerTracker \<Rightarrow> peerTracker option" where
  "report [] pt = Some pt"
| "report (addr # rest) pt = peerTracker_add addr pt \<bind> report rest"

definition tracker_ok :: "int \<Rightarrow> string set \<Rightarrow> peerTracker \<Rightarrow> bool" where
  "tracker_ok k seen pt \<longleftrightarrow> PT_threshold pt = k \<and> PT_done pt = PT_closed pt \<and>
     fset (PT_addresses pt) \<subseteq> seen \<and>
     (if PT_closed pt then int (card (fset (PT_addresses pt))) = k
      else fset (PT_addresses pt) = seen \<and> int (card seen) < k)"

lemma tracker_add:
  assumes "tracker_ok k seen pt"
  shows "\<exists>pt'. peerTracker_add addr pt = Some pt' \<and> tracker_ok k (insert addr seen) pt'"
proof -
  have "card (insert addr (fset (PT_addresses pt))) \<le> Suc (card (fset (PT_addresses pt)))"
    by (simp add: card_insert_if)
  then show ?thesis
    using assms by (auto simp: tracker_ok_def peerTracker_add_def Let_def fcard.rep_eq split: if_splits)
qed

lemma report_ok:
  assumes "tracker_ok k seen pt"
  shows "\<exists>pt'. report addrs pt = Some pt' \<and> tracker_ok k (seen \<union> set addrs) pt'"
  using assms
proof (induction addrs arbitrary: seen pt)
  case (Cons a addrs)
  then show ?case using tracker_add [OF Cons.prems, of a] Cons.IH by fastforce
qed simp

lemma new_tracker_ok: "0 < k \<Longrightarrow> tracker_ok k {} (newPeerTracker k)"
  by (simp add: tracker_ok_def newPeerTracker_def)

text \<open>A tracker that has not been closed early holds every address that was reported.\<close>

lemma report_complete:
  assumes "0 < k" "int (card (set addrs)) \<le> k"
  obtains pt where "report addrs (newPeerTracker k) = Some pt" "fset (PT_addresses pt) = set addrs"
    "PT_done pt \<longleftrightarrow> int (card (set addrs)) = k"
proof -
  obtain pt where pt: "report addrs (newPeerTracker k) = Some pt" "tracker_ok k (set addrs) pt"
    using report_ok [OF new_tracker_ok [OF assms(1)], of addrs] by auto
  have "fset (PT_addresses pt) = set addrs"
    using pt(2) assms(2) card_seteq [of "set addrs" "fset (PT_addresses pt)"]
    by (auto simp: tracker_ok_def split: if_splits)
  then show ?thesis using that pt by (auto simp: tracker_ok_def split: if_splits)
qed

lemma initiator_iff:
  assumes "range_order order" "fset (PT_addresses pt) = addr ` S" "\<And>i. i \<in> S \<Longrightarrow> derivePeerID (addr i) = i"
  shows "peerTracker_wait order True pt = Some (order (addr ` S))"
    "isBootstrapInitiator i (order (addr ` S)) \<longleftrightarrow> (\<forall>j\<in>S. i \<le> j)"
proof -
  have "finite (addr ` S)" using assms(2) by (metis finite_fset)
  then have "set (order (addr ` S)) = addr ` S" using range_order_set [OF assms(1)] by simp
  then show "isBootstrapInitiator i (order (addr ` S)) \<longleftrightarrow> (\<forall>j\<in>S. i \<le> j)"
    using assms(3) by (auto simp: isBootstrapInitiator_def list_all_iff not_less)
  show "peerTracker_wait order True pt = Some (order (addr ` S))"
    by (simp add: peerTracker_wait_def assms(2))
qed

section \<open>Properties\<close>

text \<open>The decision of one node: it hears the reports, waits, and compares.\<close>

definition initiates :: "string key_order \<Rightarrow> int \<Rightarrow> string \<Rightarrow> string list \<Rightarrow> bool" where
  "initiates order k nodeID reports \<longleftrightarrow>
     (case report reports (newPeerTracker k) \<bind> peerTracker_wait order True of
        None \<Rightarrow> False
      | Some peers \<Rightarrow> isBootstrapInitiator nodeID peers)"

text \<open>The tracker closes its channel exactly once: no sequence of reports panics, the channel is
  closed exactly when as many distinct addresses as the threshold were reported, and the tracker
  then holds exactly that many of them.\<close>
theorem tracker_closes_once:
  assumes "0 < k"
  shows "\<exists>pt. report addrs (newPeerTracker k) = Some pt \<and> (PT_done pt \<longleftrightarrow> k \<le> int (card (set addrs))) \<and>
     peerTracker_count pt = min k (int (card (set addrs))) \<and> fset (PT_addresses pt) \<subseteq> set addrs"
proof -
  obtain pt where pt: "report addrs (newPeerTracker k) = Some pt" "tracker_ok k (set addrs) pt"
    using report_ok [OF new_tracker_ok [OF assms], of addrs] by auto
  have "card (fset (PT_addresses pt)) \<le> card (set addrs)"
    using pt(2) by (intro card_mono) (auto simp: tracker_ok_def)
  then show ?thesis
    using pt by (intro exI [of _ pt]) (auto simp: tracker_ok_def peerTracker_count_def fcard.rep_eq split: if_splits)
qed

lemma tracker_closes_once_witness:
  "\<exists>pt. report [''a:1'', ''b:1'', ''a:1''] (newPeerTracker 2) = Some pt \<and> PT_done pt"
  using tracker_closes_once [of 2 "[''a:1'', ''b:1'', ''a:1'']"] by (auto simp: card_insert_if)

text \<open>C13: Exactly one node forms the cluster: when every node of the cluster hears of all the others
  before its wait ends, with a threshold of at least their number, the node with the least ID and
  no other decides to bootstrap.\<close>
theorem one_bootstrap_initiator:
  assumes "range_order order" "nodes \<noteq> []" "distinct nodes"
    and "\<And>i. i \<in> set nodes \<Longrightarrow> derivePeerID (addr i) = i"
    and "\<And>i. i \<in> set nodes \<Longrightarrow> set (reports i) = addr ` (set nodes - {i})"
    and "0 < k" "int (length nodes) - 1 \<le> k" "i \<in> set nodes"
  shows "initiates order k i (reports i) \<longleftrightarrow> i = Min (set nodes)"
proof -
  have "card (set (reports i)) \<le> card (set nodes - {i})"
    using card_image_le [of "set nodes - {i}" addr] assms(5) [OF assms(8)] by (simp del: card_Diff_insert)
  then have "int (card (set (reports i))) \<le> k"
    using assms(2,3,7,8) by (cases nodes) (auto simp: distinct_card)
  then obtain pt where pt: "report (reports i) (newPeerTracker k) = Some pt"
      "fset (PT_addresses pt) = addr ` (set nodes - {i})"
    using report_complete [OF assms(6)] assms(5,8) by metis
  have "initiates order k i (reports i) \<longleftrightarrow> (\<forall>j \<in> set nodes - {i}. i \<le> j)"
    using initiator_iff [OF assms(1) pt(2)] assms(4) by (simp add: initiates_def pt(1))
  also have "\<dots> \<longleftrightarrow> i = Min (set nodes)"
    using assms(8) by (metis Diff_iff List.finite_set Min_eqI Min_le insertE insertI1 insert_Diff order_refl)
  finally show ?thesis .
qed

lemma one_bootstrap_initiator_witness:
  "initiates sorted_list_of_set 2 ''a'' [''b:7000''] \<and> \<not> initiates sorted_list_of_set 2 ''b'' [''a:7000'']"
proof -
  let ?addr = "\<lambda>i. i @ '':7000''"
  let ?reports = "\<lambda>i. if i = ''a'' then [''b:7000''] else [''a:7000'']"
  have d: "derivePeerID (?addr i) = i" if "i \<in> set [''a'', ''b'']" for i
    using that derive_host [of i "''7000''"] by (auto simp: plain_def)
  have r: "set (?reports i) = ?addr ` (set [''a'', ''b''] - {i})" if "i \<in> set [''a'', ''b'']" for i
    using that by auto
  have "initiates sorted_list_of_set 2 i (?reports i) \<longleftrightarrow> i = Min (set [''a'', ''b''])" if "i \<in> set [''a'', ''b'']" for i
    by (rule one_bootstrap_initiator [OF range_order_sorted _ _ d r _ _ that]) auto
  from this [of "''a''"] this [of "''b''"] show ?thesis by (simp add: min_def less_eq_char_def)
qed

text \<open>With \<open>bootstrap-expect\<close> set to the number of nodes, the wait never ends before its timeout:
  a node does not track its own address, so however often the others are reported, the threshold
  is not reached.\<close>
theorem bootstrap_always_times_out:
  assumes "0 < k" "int (card S) = k" "self \<in> S" "set addrs \<subseteq> S - {self}"
  shows "\<exists>pt. report addrs (newPeerTracker k) = Some pt \<and> peerTracker_wait order False pt = None"
proof -
  have fin: "finite S" using assms(1,2) card.infinite by fastforce
  have "card (set addrs) \<le> card (S - {self})" by (rule card_mono) (use fin assms(4) in auto)
  moreover have "card (S - {self}) < card S" using fin assms(3) by (rule card_Diff1_less)
  ultimately have "int (card (set addrs)) < k" using assms(2) by linarith
  then obtain pt where "report addrs (newPeerTracker k) = Some pt" "\<not> PT_done pt"
    using report_complete [OF assms(1), of addrs] by auto
  then show ?thesis by (simp add: peerTracker_wait_def)
qed

lemma bootstrap_always_times_out_witness:
  "\<exists>pt. report [''b:1'', ''c:1'', ''b:1''] (newPeerTracker 3) = Some pt \<and> peerTracker_wait sorted_list_of_set False pt = None"
  by (rule bootstrap_always_times_out [where S = "{''a:1'', ''b:1'', ''c:1''}" and self = "''a:1''"]) (simp_all add: card_insert_if)

text \<open>The name and the address of a StatefulSet node belong together: the ID derived from the DNS
  address that the store builds for a node is the ID of the node.\<close>
theorem dns_address_round_trip:
  assumes "HasPrefix (St_nodeID s) ''scheduled-db-''" "plain (St_nodeID s)" "CHR ''.'' \<notin> set (St_nodeID s)"
  shows "derivePeerID (getDNSAddress s) = St_nodeID s"
proof -
  have "St_nodeID s \<noteq> []" using assms(1) by (auto simp: HasPrefix_def)
  then show ?thesis
    using derive_dns [OF assms(2,3), of "''scheduled-db.default.svc.cluster.local''" "''7000''"] assms(1)
    by (simp add: getDNSAddress_def plain_def)
qed

lemma dns_address_round_trip_witness:
  "derivePeerID (getDNSAddress ((solo_store True NewFSM)\<lparr>St_nodeID := ''scheduled-db-1''\<rparr>)) = ''scheduled-db-1''"
  using dns_address_round_trip [of "(solo_store True NewFSM)\<lparr>St_nodeID := ''scheduled-db-1''\<rparr>"]
  by (simp add: HasPrefix_def plain_def)

end
