(* ===== verification/Settings.thy ===== *)
theory Settings
  imports Timing_Wheel
begin

text \<open>
  The configuration of a node, \<open>cmd/scheduled-db/main.go\<close> and the type \<open>Config\<close> of
  \<open>internal/app.go\<close>: values come from the environment, may be overridden by flags, and
  become a \<open>Config\<close>. The environment is a function, empty where a variable is not set; the
  flag package, \<open>time.ParseDuration\<close> and \<open>strconv.ParseFloat\<close> are parameters; the strategy
  names of pkgcluster are a record of unknown values. A float is an exact rational: NaN, the
  infinities and rounding are left out. Text is ASCII where blanks are trimmed.
\<close>

section \<open>Strings\<close>

definition is_space :: "char \<Rightarrow> bool" where
  "is_space c \<longleftrightarrow> (of_char c :: nat) \<in> {9, 10, 11, 12, 13, 32}"

definition TrimSpace :: "string \<Rightarrow> string" where
  "TrimSpace s = rev (dropWhile is_space (rev (dropWhile is_space s)))"

definition upper :: "char \<Rightarrow> char" where
  "upper c = (if 97 \<le> (of_char c :: nat) \<and> (of_char c :: nat) \<le> 122 then char_of ((of_char c :: nat) - 32) else c)"

definition ToUpper :: "string \<Rightarrow> string" where
  "ToUpper s = map upper s"

definition HasSuffix :: "string \<Rightarrow> string \<Rightarrow> bool" where
  "HasSuffix s p \<longleftrightarrow> length p \<le> length s \<and> drop (length s - length p) s = p"

definition TrimSuffix :: "string \<Rightarrow> string \<Rightarrow> string" where
  "TrimSuffix s p = (if HasSuffix s p then take (length s - length p) s else s)"

text \<open>\<open>strings.Split\<close> with a separator of one byte.\<close>

fun split_on :: "char \<Rightarrow> string \<Rightarrow> string list" where
  "split_on c [] = [[]]"
| "split_on c (x # xs) =
     (if x = c then [] # split_on c xs
      else case split_on c xs of [] \<Rightarrow> [[x]] | w # ws \<Rightarrow> (x # w) # ws)"

text \<open>\<open>strconv.ParseBool\<close>, and the value that \<open>strconv.Atoi\<close> returns beside its error.\<close>

definition ParseBool :: "string \<Rightarrow> bool option" where
  "ParseBool s =
     (if s \<in> {''1'', ''t'', ''T'', ''true'', ''TRUE'', ''True''} then Some True
      else if s \<in> {''0'', ''f'', ''F'', ''false'', ''FALSE'', ''False''} then Some False
      else None)"

definition Atoi_value :: "string \<Rightarrow> int" where
  "Atoi_value s =
     (case ParseInt s of
        Some v \<Rightarrow> v
      | None \<Rightarrow>
          let negative = take 1 s = ''-'';
              body = (if negative \<or> take 1 s = ''+'' then drop 1 s else s)
          in if body = [] \<or> \<not> list_all is_digit body then 0
             else if negative then - 9223372036854775808 else 9223372036854775807)"

section \<open>Environment variables\<close>

type_synonym environment = "string \<Rightarrow> string"

definition getEnvOrDefault :: "environment \<Rightarrow> string \<Rightarrow> string \<Rightarrow> string" where
  "getEnvOrDefault Getenv key defaultValue = (let value = Getenv key in if value \<noteq> '''' then value else defaultValue)"

definition getEnvBoolOrDefault :: "environment \<Rightarrow> string \<Rightarrow> bool \<Rightarrow> bool" where
  "getEnvBoolOrDefault Getenv key defaultValue =
     (let value = Getenv key in if value \<noteq> ''''
      then (case ParseBool value of Some parsed \<Rightarrow> parsed | None \<Rightarrow> defaultValue) else defaultValue)"

definition getEnvIntOrDefault :: "environment \<Rightarrow> string \<Rightarrow> int \<Rightarrow> int" where
  "getEnvIntOrDefault Getenv key defaultValue =
     (let value = Getenv key in if value \<noteq> ''''
      then (case ParseInt value of Some parsed \<Rightarrow> parsed | None \<Rightarrow> defaultValue) else defaultValue)"

definition getEnvInt64OrDefault :: "environment \<Rightarrow> string \<Rightarrow> int \<Rightarrow> int" where
  "getEnvInt64OrDefault Getenv key defaultValue =
     (let value = Getenv key in if value \<noteq> ''''
      then (case ParseInt value of Some parsed \<Rightarrow> parsed | None \<Rightarrow> defaultValue) else defaultValue)"

definition getEnvDurationOrDefault ::
  "(string \<Rightarrow> Duration option) \<Rightarrow> environment \<Rightarrow> string \<Rightarrow> Duration \<Rightarrow> Duration" where
  "getEnvDurationOrDefault ParseDuration Getenv key defaultValue =
     (let value = Getenv key in if value \<noteq> ''''
      then (case ParseDuration value of Some parsed \<Rightarrow> parsed | None \<Rightarrow> defaultValue) else defaultValue)"

definition getEnvFloatOrDefault :: "(string \<Rightarrow> rat option) \<Rightarrow> environment \<Rightarrow> string \<Rightarrow> rat \<Rightarrow> rat" where
  "getEnvFloatOrDefault ParseFloat Getenv key defaultValue =
     (let value = Getenv key in if value \<noteq> ''''
      then (case ParseFloat value of Some parsed \<Rightarrow> parsed | None \<Rightarrow> defaultValue) else defaultValue)"

section \<open>The memory limit\<close>

datatype limit_error = EmptyLimit | InvalidFormat | NotPositive

definition limit_unit :: "string \<Rightarrow> int \<times> string" where
  "limit_unit value =
     (if HasSuffix (ToUpper value) ''GB'' then (1024 * 1024 * 1024, TrimSuffix (TrimSuffix value ''GB'') ''gb'')
      else if HasSuffix (ToUpper value) ''MB'' then (1024 * 1024, TrimSuffix (TrimSuffix value ''MB'') ''mb'')
      else if HasSuffix (ToUpper value) ''KB'' then (1024, TrimSuffix (TrimSuffix value ''KB'') ''kb'')
      else (1, value))"

definition ParseMemoryLimit :: "string \<Rightarrow> limit_error + int" where
  "ParseMemoryLimit value =
     (let value = TrimSpace value
      in if value = '''' then Inl EmptyLimit
         else let (multiplier, value) = limit_unit value;
                  value = TrimSpace value
         in case ParseInt value of
              None \<Rightarrow> Inl InvalidFormat
            | Some num \<Rightarrow> if num \<le> 0 then Inl NotPositive else Inr (mul64 num multiplier))"

text \<open>\<open>systemMemory\<close> is what \<open>runtime.ReadMemStats\<close> reports.\<close>

definition DetectMemoryLimit :: "int \<Rightarrow> string \<Rightarrow> rat \<Rightarrow> int" where
  "DetectMemoryLimit systemMemory explicitLimit memoryPercent =
     (let detected = (let percent = (if memoryPercent \<le> 0 \<or> memoryPercent > 100 then 50 else memoryPercent)
                      in \<lfloor>of_int systemMemory * (percent / 100)\<rfloor>)
      in if explicitLimit \<noteq> ''''
         then (case ParseMemoryLimit explicitLimit of Inl err \<Rightarrow> detected | Inr limit \<Rightarrow> limit)
         else detected)"

section \<open>Discovery topology\<close>

datatype config_value = ConfigString string | ConfigInt int | ConfigStrings "string list"

record 'st Strategies =
  StrategyStatic :: 'st
  StrategyKubernetes :: 'st
  StrategyDNS :: 'st
  StrategyKubernetesDNS :: 'st
  StrategyKubernetesDNSSRV :: 'st
  StrategyGossip :: 'st

record 'st Topology =
  Topo_Name :: string
  Topo_Strategy :: 'st
  Topo_Config :: "(string, config_value) fmap"

definition buildTopology ::
  "'st Strategies \<Rightarrow> environment \<Rightarrow> string \<Rightarrow> string \<Rightarrow> string list \<Rightarrow> string \<Rightarrow> string \<Rightarrow> string + 'st Topology" where
  "buildTopology K Getenv strategy nodeID peers kubernetesNamespace kubernetesServiceName =
     (let raftPortStr = getEnvOrDefault Getenv ''RAFT_PORT'' ''7000'';
          raftPort = Atoi_value raftPortStr
      in if strategy = ''static'' then
           Inr \<lparr>Topo_Name = ''static'', Topo_Strategy = StrategyStatic K,
                Topo_Config = fmap_of_list [(''addresses'', ConfigStrings peers)]\<rparr>
         else if strategy = ''kubernetes'' then
           Inr \<lparr>Topo_Name = ''kubernetes'', Topo_Strategy = StrategyKubernetes K,
                Topo_Config = fmap_of_list
                  [(''namespace'', ConfigString kubernetesNamespace),
                   (''selector'', ConfigString (''app='' @ kubernetesServiceName)),
                   (''node_basename'', ConfigString nodeID),
                   (''service_name'', ConfigString kubernetesServiceName),
                   (''port'', ConfigInt raftPort)]\<rparr>
         else if strategy = ''dns'' then
           Inr \<lparr>Topo_Name = ''dns'', Topo_Strategy = StrategyDNS K,
                Topo_Config = fmap_of_list
                  [(''query'', ConfigString kubernetesServiceName),
                   (''node_basename'', ConfigString nodeID),
                   (''port'', ConfigInt raftPort)]\<rparr>
         else if strategy = ''kubernetes_dns'' then
           Inr \<lparr>Topo_Name = ''kubernetes_dns'', Topo_Strategy = StrategyKubernetesDNS K,
                Topo_Config = fmap_of_list
                  [(''service'', ConfigString kubernetesServiceName),
                   (''application_name'', ConfigString nodeID),
                   (''port'', ConfigInt raftPort)]\<rparr>
         else if strategy = ''kubernetes_dns_srv'' \<or> strategy = ''dns_srv'' then
           Inr \<lparr>Topo_Name = ''kubernetes_dns_srv'', Topo_Strategy = StrategyKubernetesDNSSRV K,
                Topo_Config = fmap_of_list
                  [(''service'', ConfigString kubernetesServiceName),
                   (''application_name'', ConfigString nodeID),
                   (''namespace'', ConfigString kubernetesNamespace),
                   (''port'', ConfigInt raftPort)]\<rparr>
         else if strategy = ''gossip'' then
           Inr \<lparr>Topo_Name = ''gossip'', Topo_Strategy = StrategyGossip K,
                Topo_Config = fmap_of_list
                  [(''port'', ConfigInt 45892),
                   (''node_addr'', ConfigString (nodeID @ '':'' @ raftPortStr))]\<rparr>
         else Inl (''unsupported discovery strategy: '' @ strategy))"

section \<open>Flags\<close>

text \<open>The values of the flags after \<open>flag.Parse\<close>, in the order of the code.\<close>

record Flags =
  F_bootstrapexpect :: int
  F_dataDir :: string
  F_raftPort :: string
  F_httpPort :: string
  F_nodeID :: string
  F_peers :: string
  F_slotGap :: Duration
  F_discoveryStrategy :: string
  F_kubernetesNamespace :: string
  F_kubernetesServiceName :: string
  F_raftHost :: string
  F_raftAdvertiseHost :: string
  F_httpHost :: string
  F_executionTimeout :: Duration
  F_inProgressTimeout :: Duration
  F_maxExecutionAttempts :: int
  F_historyRetention :: Duration
  F_healthFailureThreshold :: rat
  F_queueMemoryLimit :: string
  F_queueMemoryPercent :: rat
  F_queueJobLimit :: int
  F_enableColdSpilling :: bool
  F_coldSpillingHotWindow :: Duration
  F_coldSpillingCheckInterval :: Duration
  F_wheelLevel0Granularity :: Duration
  F_wheelLevel0Buckets :: int
  F_wheelLevel1Granularity :: Duration
  F_wheelLevel1Buckets :: int
  F_wheelLevel2Granularity :: Duration
  F_wheelLevel2Buckets :: int
  F_httpReadTimeout :: Duration
  F_httpReadHeaderTimeout :: Duration
  F_httpWriteTimeout :: Duration
  F_httpIdleTimeout :: Duration
  F_maxRequestBodySize :: int
  F_authToken :: string

text \<open>The values when the command line sets no flag.\<close>

definition default_flags ::
  "(string \<Rightarrow> Duration option) \<Rightarrow> (string \<Rightarrow> rat option) \<Rightarrow> environment \<Rightarrow> Flags" where
  "default_flags ParseDuration ParseFloat Getenv =
     (let str = getEnvOrDefault Getenv; num = getEnvIntOrDefault Getenv; num64 = getEnvInt64OrDefault Getenv;
          dur = getEnvDurationOrDefault ParseDuration Getenv; flt = getEnvFloatOrDefault ParseFloat Getenv
      in \<lparr>F_bootstrapexpect = num ''BOOTSTRAP_EXPECT'' 0,
          F_dataDir = str ''DATA_DIR'' ''./data'',
          F_raftPort = str ''RAFT_PORT'' ''7000'',
          F_httpPort = str ''HTTP_PORT'' ''8080'',
          F_nodeID = str ''NODE_ID'' ''node-1'',
          F_peers = str ''PEERS'' '''',
          F_slotGap = dur ''SLOT_GAP'' (10 * Second),
          F_discoveryStrategy = str ''DISCOVERY_STRATEGY'' '''',
          F_kubernetesNamespace = str ''KUBERNETES_NAMESPACE'' '''',
          F_kubernetesServiceName = str ''KUBERNETES_SERVICE_NAME'' '''',
          F_raftHost = str ''RAFT_HOST'' ''localhost'',
          F_raftAdvertiseHost = str ''RAFT_ADVERTISE_HOST'' '''',
          F_httpHost = str ''HTTP_HOST'' '''',
          F_executionTimeout = dur ''JOB_EXECUTION_TIMEOUT'' (5 * Minute),
          F_inProgressTimeout = dur ''JOB_INPROGRESS_TIMEOUT'' (5 * Minute),
          F_maxExecutionAttempts = num ''MAX_EXECUTION_ATTEMPTS'' 3,
          F_historyRetention = dur ''EXECUTION_HISTORY_RETENTION'' (30 * 24 * Hour),
          F_healthFailureThreshold = flt ''HEALTH_FAILURE_THRESHOLD'' (1 / 10),
          F_queueMemoryLimit = str ''QUEUE_MEMORY_LIMIT'' '''',
          F_queueMemoryPercent = flt ''QUEUE_MEMORY_PERCENT'' 50,
          F_queueJobLimit = num64 ''QUEUE_JOB_LIMIT'' 100000,
          F_enableColdSpilling = getEnvBoolOrDefault Getenv ''ENABLE_COLD_SPILLING'' False,
          F_coldSpillingHotWindow = dur ''COLD_SPILLING_HOT_WINDOW'' (48 * Hour),
          F_coldSpillingCheckInterval = dur ''COLD_SPILLING_CHECK_INTERVAL'' (5 * Minute),
          F_wheelLevel0Granularity = dur ''HTW_LEVEL0_GRANULARITY'' 0,
          F_wheelLevel0Buckets = num ''HTW_LEVEL0_BUCKETS'' 360,
          F_wheelLevel1Granularity = dur ''HTW_LEVEL1_GRANULARITY'' 0,
          F_wheelLevel1Buckets = num ''HTW_LEVEL1_BUCKETS'' 24,
          F_wheelLevel2Granularity = dur ''HTW_LEVEL2_GRANULARITY'' 0,
          F_wheelLevel2Buckets = num ''HTW_LEVEL2_BUCKETS'' 365,
          F_httpReadTimeout = dur ''HTTP_READ_TIMEOUT'' (30 * Second),
          F_httpReadHeaderTimeout = dur ''HTTP_READ_HEADER_TIMEOUT'' (10 * Second),
          F_httpWriteTimeout = dur ''HTTP_WRITE_TIMEOUT'' (30 * Second),
          F_httpIdleTimeout = dur ''HTTP_IDLE_TIMEOUT'' (60 * Second),
          F_maxRequestBodySize = num64 ''MAX_REQUEST_BODY_SIZE'' (10 * 1024 * 1024),
          F_authToken = str ''AUTH_TOKEN'' ''''\<rparr>)"

section \<open>The configuration\<close>

record 'st Config =
  Cfg_DataDir :: string
  Cfg_RaftBind :: string
  Cfg_RaftAdvertise :: string
  Cfg_HTTPBind :: string
  Cfg_NodeID :: string
  Cfg_Peers :: "string list"
  Cfg_SlotGap :: Duration
  Cfg_Topologies :: "'st Topology list"
  Cfg_ExecutionTimeout :: Duration
  Cfg_InProgressTimeout :: Duration
  Cfg_MaxExecutionAttempts :: int
  Cfg_HistoryRetention :: Duration
  Cfg_HealthFailureThreshold :: rat
  Cfg_QueueMemoryLimit :: int
  Cfg_QueueJobLimit :: int
  Cfg_EnableColdSpilling :: bool
  Cfg_ColdSpillingHotWindow :: Duration
  Cfg_ColdSpillingCheckInterval :: Duration
  Cfg_TimingWheelConfigs :: "WheelLevelConfig list"
  Cfg_BootstrapExpect :: int
  Cfg_HTTPReadTimeout :: Duration
  Cfg_HTTPReadHeaderTimeout :: Duration
  Cfg_HTTPWriteTimeout :: Duration
  Cfg_HTTPIdleTimeout :: Duration
  Cfg_MaxRequestBodySize :: int
  Cfg_AuthToken :: string

definition peer_list :: "string \<Rightarrow> string list" where
  "peer_list peers = (if peers \<noteq> '''' then map TrimSpace (split_on (CHR '','') peers) else [])"

definition select_strategy :: "environment \<Rightarrow> string \<Rightarrow> string" where
  "select_strategy Getenv discoveryStrategy =
     (if discoveryStrategy = ''''
      then (let envStrategy = Getenv ''DISCOVERY_STRATEGY'' in if envStrategy \<noteq> '''' then envStrategy else ''none'')
      else discoveryStrategy)"

definition wheel_configs :: "Flags \<Rightarrow> WheelLevelConfig list" where
  "wheel_configs F =
     (let slotGap = F_slotGap F;
          l0g = (if F_wheelLevel0Granularity F = 0 then slotGap else F_wheelLevel0Granularity F);
          l1g = (if F_wheelLevel1Granularity F = 0 then mul64 slotGap 360 else F_wheelLevel1Granularity F);
          l2g = (if F_wheelLevel2Granularity F = 0 then mul64 (mul64 slotGap 360) 24 else F_wheelLevel2Granularity F)
      in [\<lparr>Granularity = l0g, Buckets = F_wheelLevel0Buckets F\<rparr>,
          \<lparr>Granularity = l1g, Buckets = F_wheelLevel1Buckets F\<rparr>,
          \<lparr>Granularity = l2g, Buckets = F_wheelLevel2Buckets F\<rparr>])"

text \<open>\<open>main\<close> up to the call of \<open>NewApp\<close>; an error of \<open>buildTopology\<close> ends the program.\<close>

definition main_config :: "'st Strategies \<Rightarrow> environment \<Rightarrow> int \<Rightarrow> Flags \<Rightarrow> string + 'st Config" where
  "main_config K Getenv systemMemory F =
     (let peerList = peer_list (F_peers F);
          strategy = select_strategy Getenv (F_discoveryStrategy F);
          topologies =
            (if strategy \<noteq> ''none''
             then (case buildTopology K Getenv strategy (F_nodeID F) peerList
                          (F_kubernetesNamespace F) (F_kubernetesServiceName F) of
                     Inl err \<Rightarrow> Inl err | Inr topo \<Rightarrow> Inr [topo])
             else Inr []);
          advertiseHost = (if F_raftAdvertiseHost F = '''' then F_raftHost F else F_raftAdvertiseHost F);
          jobLimit = (if F_queueJobLimit F \<le> 0 then 100000 else F_queueJobLimit F)
      in case topologies of
           Inl err \<Rightarrow> Inl err
         | Inr topologies \<Rightarrow> Inr
             \<lparr>Cfg_DataDir = F_dataDir F,
              Cfg_RaftBind = F_raftHost F @ '':'' @ F_raftPort F,
              Cfg_RaftAdvertise = advertiseHost @ '':'' @ F_raftPort F,
              Cfg_HTTPBind = F_httpHost F @ '':'' @ F_httpPort F,
              Cfg_NodeID = F_nodeID F,
              Cfg_Peers = peerList,
              Cfg_SlotGap = F_slotGap F,
              Cfg_Topologies = topologies,
              Cfg_ExecutionTimeout = F_executionTimeout F,
              Cfg_InProgressTimeout = F_inProgressTimeout F,
              Cfg_MaxExecutionAttempts = F_maxExecutionAttempts F,
              Cfg_HistoryRetention = F_historyRetention F,
              Cfg_HealthFailureThreshold = F_healthFailureThreshold F,
              Cfg_QueueMemoryLimit =
                DetectMemoryLimit systemMemory (F_queueMemoryLimit F) (F_queueMemoryPercent F),
              Cfg_QueueJobLimit = jobLimit,
              Cfg_EnableColdSpilling = F_enableColdSpilling F,
              Cfg_ColdSpillingHotWindow = F_coldSpillingHotWindow F,
              Cfg_ColdSpillingCheckInterval = F_coldSpillingCheckInterval F,
              Cfg_TimingWheelConfigs = wheel_configs F,
              Cfg_BootstrapExpect = F_bootstrapexpect F,
              Cfg_HTTPReadTimeout = F_httpReadTimeout F,
              Cfg_HTTPReadHeaderTimeout = F_httpReadHeaderTimeout F,
              Cfg_HTTPWriteTimeout = F_httpWriteTimeout F,
              Cfg_HTTPIdleTimeout = F_httpIdleTimeout F,
              Cfg_MaxRequestBodySize = F_maxRequestBodySize F,
              Cfg_AuthToken = F_authToken F\<rparr>)"

section \<open>Printed limits\<close>

lemma digit_not_space: "is_digit c \<Longrightarrow> \<not> is_space c"
  by (auto simp: is_digit_def is_space_def)

lemma TrimSpace_id:
  assumes "s \<noteq> []" "\<not> is_space (hd s)" "\<not> is_space (last s)"
  shows "TrimSpace s = s"
proof -
  have "dropWhile is_space s = s" using assms(1,2) by (cases s) auto
  moreover have "dropWhile is_space (rev s) = rev s"
    using assms(1,3) by (cases "rev s") (auto simp: hd_rev [symmetric])
  ultimately show ?thesis by (simp add: TrimSpace_def)
qed

lemma TrimSpace_digits:
  assumes "s \<noteq> []" "list_all is_digit s"
  shows "TrimSpace s = s"
proof (rule TrimSpace_id [OF assms(1)])
  have "is_digit (hd s)" "is_digit (last s)"
    using assms by (simp_all add: list_all_iff)
  then show "\<not> is_space (hd s)" "\<not> is_space (last s)" using digit_not_space by blast+
qed

lemma HasSuffix_append: "length q = length p \<Longrightarrow> HasSuffix (s @ q) p \<longleftrightarrow> q = p"
  by (simp add: HasSuffix_def)

lemma TrimSuffix_append:
  "TrimSuffix (s @ p) p = s"
  "length q = length p \<Longrightarrow> q \<noteq> p \<Longrightarrow> TrimSuffix (s @ q) p = s @ q"
  by (simp_all add: TrimSuffix_def HasSuffix_append)

lemma ToUpper_append [simp]: "ToUpper (s @ t) = ToUpper s @ ToUpper t"
  by (simp add: ToUpper_def)

lemma upper_digit: "is_digit c \<Longrightarrow> upper c = c"
  by (simp add: upper_def is_digit_def)

text \<open>A text that ends in a digit has none of the units as a suffix.\<close>

lemma no_unit:
  assumes "s \<noteq> []" "list_all is_digit s" "\<not> is_digit (last p)" "p \<noteq> []"
  shows "\<not> HasSuffix s p" "\<not> HasSuffix (ToUpper s) p"
proof -
  have d: "is_digit (last s)" using assms(1,2) by (auto simp: list_all_iff)
  have *: "\<not> HasSuffix t p" if "t \<noteq> []" "last t = last s" for t
  proof
    assume "HasSuffix t p"
    then have "drop (length t - length p) t = p" "length p \<le> length t" by (simp_all add: HasSuffix_def)
    then have "last t = last p" using assms(4) by (metis last_drop append_Nil2 drop_eq_Nil2 not_less)
    then show False using assms(3) d that by simp
  qed
  show "\<not> HasSuffix s p" by (rule *) (use assms(1) in simp_all)
  show "\<not> HasSuffix (ToUpper s) p"
    by (rule *) (use assms(1) d in \<open>simp_all add: ToUpper_def last_map upper_digit\<close>)
qed

fun unit_factor :: "string \<Rightarrow> int option" where
  "unit_factor u =
     (if u = '''' then Some 1
      else if u = ''KB'' \<or> u = ''kb'' then Some 1024
      else if u = ''MB'' \<or> u = ''mb'' then Some (1024 * 1024)
      else if u = ''GB'' \<or> u = ''gb'' then Some (1024 * 1024 * 1024)
      else None)"

declare unit_factor.simps [simp del]


lemma upper_letters:
  "ToUpper ''KB'' = ''KB''" "ToUpper ''kb'' = ''KB''" "ToUpper ''MB'' = ''MB''" "ToUpper ''mb'' = ''MB''"
  "ToUpper ''GB'' = ''GB''" "ToUpper ''gb'' = ''GB''"
  by code_simp+

lemma ToUpper_Nil [simp]: "ToUpper [] = []"
  by (simp add: ToUpper_def)

lemma unit_suffix_no_digit:
  assumes "s \<noteq> []" "list_all is_digit s"
  shows "TrimSuffix s ''KB'' = s" "TrimSuffix s ''kb'' = s" "TrimSuffix s ''MB'' = s" "TrimSuffix s ''mb'' = s"
    "TrimSuffix s ''GB'' = s" "TrimSuffix s ''gb'' = s"
  using no_unit(1) [OF assms] by (simp_all add: TrimSuffix_def is_digit_def)

lemma limit_unit_split:
  assumes "s \<noteq> []" "list_all is_digit s" "unit_factor u = Some m"
  shows "limit_unit (s @ u) = (m, s)"
proof -
  have plain: "limit_unit s = (1, s)"
    using no_unit(2) [OF assms(1,2)] by (simp add: limit_unit_def is_digit_def)
  show ?thesis
    using assms(3) plain
    by (auto simp: unit_factor.simps limit_unit_def upper_letters HasSuffix_append TrimSuffix_append
        unit_suffix_no_digit [OF assms(1,2)] split: if_splits)
qed

lemma unit_last: "unit_factor u = Some m \<Longrightarrow> u = [] \<or> \<not> is_space (last u)"
  unfolding unit_factor.simps is_space_def
  by (split if_split_asm; (elim disjE)?; simp split: if_split_asm; elim disjE; simp)

section \<open>Properties\<close>

text \<open>C30: A limit written as a positive number with one of the units in upper or lower case, or none, is
  read as that number of units, and exactly so as long as the product fits into 64 bits.\<close>
theorem memory_limit_round_trip:
  assumes "0 < n" "in64 n" "unit_factor u = Some m"
  shows "ParseMemoryLimit (Sprintf_d n @ u) = Inr (mul64 n m) \<and>
     (in64 (n * m) \<longrightarrow> DetectMemoryLimit systemMemory (Sprintf_d n @ u) percent = n * m)"
proof -
  let ?s = "Sprintf_d n"
  have s: "?s \<noteq> []" "list_all is_digit ?s" "ParseInt ?s = Some n"
    using assms(1,2) ParseInt_digits [of "Sprintf_nat (nat n)"] by (simp_all add: Sprintf_d_def Sprintf_nat_digits)
  then have ends: "is_digit (hd ?s)" "is_digit (last ?s)" by (simp_all add: list_all_iff)
  have "\<not> is_space (last (?s @ u))"
    using unit_last [OF assms(3)] digit_not_space [OF ends(2)] by (cases "u = []") simp_all
  moreover have "\<not> is_space (hd (?s @ u))" using digit_not_space [OF ends(1)] s(1) by simp
  ultimately have "TrimSpace (?s @ u) = ?s @ u" using s(1) by (intro TrimSpace_id) simp_all
  then have p: "ParseMemoryLimit (?s @ u) = Inr (mul64 n m)"
    using limit_unit_split [OF s(1,2) assms(3)] TrimSpace_digits [OF s(1,2)] s(1,3) assms(1)
    by (simp add: ParseMemoryLimit_def Let_def)
  then show ?thesis using s(1) by (simp add: DetectMemoryLimit_def mul64_id Let_def)
qed

lemma memory_limit_round_trip_witness: "ParseMemoryLimit (Sprintf_d 500 @ ''mb'') = Inr 524288000"
  using memory_limit_round_trip [of 500 "''mb''" "1024 * 1024"] by (simp add: unit_factor.simps mul64_id)

text \<open>A limit can be read as a negative number or be refused for its case: the product is not
  checked for overflow, and a unit in mixed case passes the test but is not cut off.\<close>
theorem memory_limit_wraps:
  "ParseMemoryLimit ''8589934592GB'' = Inr (- 9223372036854775808) \<and> ParseMemoryLimit ''2Gb'' = Inl InvalidFormat"
  by code_simp

text \<open>The wheel that \<open>main\<close> configures when no level is set is the default wheel of the slot gap.\<close>
theorem default_wheel_matches:
  assumes "\<forall>key. key \<noteq> ''SLOT_GAP'' \<longrightarrow> Getenv key = ''''"
    and "F = default_flags ParseDuration ParseFloat Getenv" "F_slotGap F \<noteq> 0"
  shows "wheel_configs F = DefaultWheelConfigs (F_slotGap F)"
  using assms(1,3)
  by (simp add: assms(2) wheel_configs_def DefaultWheelConfigs_def default_flags_def getEnvDurationOrDefault_def
      getEnvIntOrDefault_def Let_def)

lemma default_wheel_matches_witness:
  "wheel_configs (default_flags (\<lambda>s. None) (\<lambda>s. None) (\<lambda>key. '''')) = DefaultWheelConfigs (10 * Second)"
  using default_wheel_matches [of "\<lambda>key. ''''" _ "\<lambda>s. None" "\<lambda>s. None"]
  by (simp add: default_flags_def getEnvDurationOrDefault_def Second_def Let_def)

end
