(* ===== verification/Application.thy ===== *)
theory Application
  imports Slot_Evictor Peer_Discovery Settings
begin

text \<open>
  The application of \<open>internal/app.go\<close>: it builds the components of a node from the
  configuration, connects discovered peers, forms the cluster, starts and stops the worker
  and the evictor with the leadership, and shuts the node down. Its fields extend the record
  of the node. The state that Raft has reached on its own by the next turn of a loop, and
  what discovery reports meanwhile, are arguments; the HTTP servers, the discovery manager
  and the pruning loop are flags. The metrics are set up in \<open>Startup\<close>.
\<close>

section \<open>State\<close>

record ('c, 'r) App = "('c, 'r) Manager" +
  A_worker :: Worker
  A_slotEvictor :: "SlotEvictor option"
  A_limitManager :: LimitManager
  A_nodeID :: string
  A_raftAdvertise :: string
  A_useDiscovery :: bool
  A_bootstrapExpect :: int
  A_peerTracker :: "peerTracker option"
  A_discovering :: bool
  A_pruning :: bool
  A_serving :: bool

text \<open>\<open>pkgcluster.StringConfigFromMap\<close> is the parameter \<open>str\<close>.\<close>

fun address_provider ::
  "'st Strategies \<Rightarrow> ((string, config_value) fmap \<Rightarrow> string \<Rightarrow> string \<Rightarrow> string) \<Rightarrow> 'st Topology list
     \<Rightarrow> dnsAddressProvider option" where
  "address_provider K str [] = None"
| "address_provider K str (t # rest) =
     (if Topo_Strategy t = StrategyKubernetes K \<or> Topo_Strategy t = StrategyKubernetesDNS K \<or>
         Topo_Strategy t = StrategyKubernetesDNSSRV K
      then Some \<lparr>serviceName = str (Topo_Config t) ''service_name'' ''scheduled-db'',
                 namespace = str (Topo_Config t) ''namespace'' ''default'',
                 domain = str (Topo_Config t) ''cluster_domain'' ''cluster.local'', port = 7000\<rparr>
      else address_provider K str rest)"

text \<open>
  \<open>NewApp\<close> on the store that \<open>NewStoreWithColdSpilling\<close> has returned; \<open>None\<close> is a panic of
  the constructor of the wheel.
\<close>

definition NewApp :: "'st Config \<Rightarrow> ('c, 'r) Store \<Rightarrow> ('c, 'r) App option" where
  "NewApp config jobStore =
     (let peerTracker = (if Cfg_BootstrapExpect config > 0
                         then Some (newPeerTracker (Cfg_BootstrapExpect config)) else None);
          useDiscovery = Cfg_Topologies config \<noteq> [];
          slotEvictor = (if Cfg_EnableColdSpilling config
                         then Some (NewSlotEvictorWithWheel
                                \<lparr>Enabled = True, HotWindow = Cfg_ColdSpillingHotWindow config,
                                 CheckInterval = Cfg_ColdSpillingCheckInterval config\<rparr> True)
                         else None);
          limitManager = \<lparr>LM_memoryLimit = Cfg_QueueMemoryLimit config, LM_jobLimit = Cfg_QueueJobLimit config,
                          LM_sizeCalculator = NewSizeCalculator\<rparr>
      in do {
        slotQueue \<leftarrow> (if Cfg_TimingWheelConfigs config \<noteq> []
                     then NewPersistentSlotQueueWithConfig (Cfg_SlotGap config) (Cfg_TimingWheelConfigs config) jobStore
                     else NewPersistentSlotQueue (Cfg_SlotGap config) jobStore);
        let executionManager = NewExecutionManager (SetHTTPBind (Cfg_HTTPBind config) slotQueue)
              (Cfg_NodeID config) (Cfg_ExecutionTimeout config) (Cfg_MaxExecutionAttempts config);
        Some (Manager.extend executionManager
          (App.fields NewWorker slotEvictor limitManager (Cfg_NodeID config) (Cfg_RaftAdvertise config)
             useDiscovery (Cfg_BootstrapExpect config) peerTracker False True False))
      })"

section \<open>Discovery\<close>

definition discovery_Connect :: "('c, 'r) Env \<Rightarrow> string \<Rightarrow> ('c, 'r) App \<Rightarrow> ('c, 'r) App option" where
  "discovery_Connect E addr a =
     (if addr = A_raftAdvertise a then Some a
      else do {
        a \<leftarrow> (case A_peerTracker a of
                None \<Rightarrow> Some a
              | Some pt \<Rightarrow> map_option (\<lambda>pt. a\<lparr>A_peerTracker := Some pt\<rparr>) (peerTracker_add addr pt));
        Some (snd (AddPeer E (derivePeerID addr) addr a))
      })"

definition discovery_Disconnect ::
  "('c, 'r) Env \<Rightarrow> string \<Rightarrow> ('c, 'r) App \<Rightarrow> store_error option \<times> ('c, 'r) App" where
  "discovery_Disconnect E addr a = RemovePeer E (derivePeerID addr) a"

definition discovery_ListNodes :: "('c, 'r) Env \<Rightarrow> ('c, 'r) App \<Rightarrow> store_error + string list" where
  "discovery_ListNodes E a =
     (case GetClusterConfiguration E a of Inl err \<Rightarrow> Inl err | Inr servers \<Rightarrow> Inr (map Server_Address servers))"

section \<open>Bootstrap\<close>

text \<open>
  What happens outside during the bootstrap: the addresses that discovery reports until the
  wait for peers ends, the order in which the tracker lists them, and how the wait for a
  leader ends.
\<close>

record 'r boot =
  B_arrivals :: "string list"
  B_order :: "string key_order"
  B_signalled :: bool
  B_later :: 'r

datatype app_error = TrackerNotInitialized

definition waitForBootstrap ::
  "('c, 'r) Env \<Rightarrow> 'r boot \<Rightarrow> ('c, 'r) App \<Rightarrow> (app_error option \<times> ('c, 'r) App) option" where
  "waitForBootstrap E B a =
     (if A_peerTracker a = None then Some (Some TrackerNotInitialized, a)
      else do {
        a \<leftarrow> each (discovery_Connect E) (B_arrivals B) a;
        peers \<leftarrow> A_peerTracker a \<bind> peerTracker_wait (B_order B) True;
        if isBootstrapInitiator (A_nodeID a) peers
        then do {
          let a = snd (ForceBootstrap E (A_nodeID a) a);
          let a = snd (WaitForLeader E (B_signalled B) (B_later B) a);
          Some (None, if IsLeader E a
                      then fold (\<lambda>addr a. snd (AddPeer E (derivePeerID addr) addr a)) peers a else a)
        }
        else Some (None, snd (WaitForLeader E (B_signalled B) (B_later B) a))
      })"

section \<open>Leadership\<close>

definition becomeLeader :: "('c, 'r) App \<Rightarrow> ('c, 'r) App" where
  "becomeLeader a = a\<lparr>A_worker := Worker_Start (A_worker a), A_slotEvictor := map_option Evictor_Start (A_slotEvictor a)\<rparr>"

definition loseLeadership :: "('c, 'r) App \<Rightarrow> ('c, 'r) App option" where
  "loseLeadership a = do {
     w \<leftarrow> Worker_Stop (A_worker a);
     let a = a\<lparr>A_worker := w\<rparr>;
     case A_slotEvictor a of
       None \<Rightarrow> Some a
     | Some se \<Rightarrow> map_option (\<lambda>se. a\<lparr>A_slotEvictor := Some se\<rparr>) (Evictor_Stop se)
   }"

definition attemptAutoBootstrap :: "('c, 'r) Env \<Rightarrow> ('c, 'r) App \<Rightarrow> store_error option \<times> ('c, 'r) App" where
  "attemptAutoBootstrap E a = ForceBootstrap E (A_nodeID a) a"

text \<open>
  A turn of \<open>monitorLeadership\<close>: the loops follow the leadership, then the turns without a
  leader are counted.
\<close>

definition follow_leadership :: "bool \<Rightarrow> bool \<Rightarrow> int \<Rightarrow> ('c, 'r) App \<Rightarrow> (int \<times> ('c, 'r) App) option" where
  "follow_leadership wasLeader isLeader noLeaderCount a =
     (if \<not> wasLeader \<and> isLeader then Some (0, becomeLeader a)
      else if wasLeader \<and> \<not> isLeader then map_option (Pair noLeaderCount) (loseLeadership a)
      else Some (noLeaderCount, a))"

definition count_no_leader :: "('c, 'r) Env \<Rightarrow> string \<Rightarrow> int \<Rightarrow> ('c, 'r) App \<Rightarrow> int \<times> ('c, 'r) App" where
  "count_no_leader E currentLeader noLeaderCount a =
     (if currentLeader = '''' then
        (let noLeaderCount = add64 noLeaderCount 1
         in if noLeaderCount > 60 \<and> GetClusterConfiguration E a = Inr []
            then (case attemptAutoBootstrap E a of
                    (Some err, a) \<Rightarrow> (noLeaderCount, a)
                  | (None, a) \<Rightarrow> (0, a))
            else (noLeaderCount, a))
      else (0, a))"

text \<open>
  One turn from \<open>wasLeader\<close> and \<open>noLeaderCount\<close>, at the state of Raft that the turn finds.
\<close>

definition monitor_turn ::
  "('c, 'r) Env \<Rightarrow> 'r \<Rightarrow> bool \<times> int \<times> ('c, 'r) App \<Rightarrow> (bool \<times> int \<times> ('c, 'r) App) option" where
  "monitor_turn E r st =
     (let (wasLeader, noLeaderCount, a) = st;
          a = a\<lparr>St_raft := r\<rparr>;
          isLeader = IsLeader E a;
          currentLeader = GetLeader E a
      in do {
        (noLeaderCount, a) \<leftarrow> follow_leadership wasLeader isLeader noLeaderCount a;
        Some (isLeader, count_no_leader E currentLeader noLeaderCount a)
      })"

fun monitorLeadership ::
  "('c, 'r) Env \<Rightarrow> 'r list \<Rightarrow> bool \<times> int \<times> ('c, 'r) App \<Rightarrow> (bool \<times> int \<times> ('c, 'r) App) option" where
  "monitorLeadership E [] st = Some st"
| "monitorLeadership E (r # rs) st = monitor_turn E r st \<bind> monitorLeadership E rs"

section \<open>Start and stop\<close>

definition App_Start ::
  "('c, 'r) Env \<Rightarrow> 'r boot \<Rightarrow> ('c, 'r) App \<Rightarrow> (app_error option \<times> ('c, 'r) App) option" where
  "App_Start E B a = do {
     let a = (if A_useDiscovery a then a\<lparr>A_discovering := True\<rparr> else a);
     (err, a) \<leftarrow> (if A_bootstrapExpect a > 0 then waitForBootstrap E B a else Some (None, a));
     if err \<noteq> None then Some (err, a)
     else Some (None, (if IsLeader E a then becomeLeader a else a)\<lparr>A_serving := True\<rparr>)
   }"

text \<open>\<open>Stop\<close>, whose goroutine ends before its timeout; the error of closing the store is logged.\<close>

definition App_Stop ::
  "('c, 'r) Env \<Rightarrow> ('c \<Rightarrow> string option \<times> 'c) \<Rightarrow> ('c, 'r) App \<Rightarrow> ('c, 'r) App option" where
  "App_Stop E closeCold a = do {
     let a = (if A_useDiscovery a then a\<lparr>A_discovering := False\<rparr> else a);
     let a = a\<lparr>A_pruning := False\<rparr>;
     w \<leftarrow> Worker_Stop (A_worker a);
     let a = a\<lparr>A_worker := w, A_serving := False\<rparr>;
     Some (snd (Store_Close E closeCold a))
   }"

text \<open>\<open>transfer\<close> is Raft's \<open>LeadershipTransfer\<close>.\<close>

definition handleGracefulShutdown ::
  "('c, 'r) Env \<Rightarrow> ('c \<Rightarrow> string option \<times> 'c) \<Rightarrow> ('r \<Rightarrow> string option \<times> 'r) \<Rightarrow> ('c, 'r) App
     \<Rightarrow> ('c, 'r) App option" where
  "handleGracefulShutdown E closeCold transfer a = do {
     a \<leftarrow> (if IsLeader E a
          then do {
            w \<leftarrow> Worker_Stop (A_worker a);
            let a = a\<lparr>A_worker := w\<rparr>;
            let a = snd (RemovePeer E (A_nodeID a) a);
            Some (a\<lparr>St_raft := snd (transfer (St_raft a))\<rparr>)
          }
          else Some a);
     App_Stop E closeCold a
   }"

section \<open>What the operations leave alone\<close>

text \<open>The membership operations of the store change the state of Raft only.\<close>

lemma only_raft:
  "\<exists>r. snd (ForceBootstrap E i s) = s\<lparr>St_raft := r\<rparr>"
  "\<exists>r. snd (WaitForLeader E b later s) = s\<lparr>St_raft := r\<rparr>"
  "\<exists>r. snd (AddPeer E i addr s) = s\<lparr>St_raft := r\<rparr>"
  "\<exists>r. snd (RemovePeer E i s) = s\<lparr>St_raft := r\<rparr>"
proof -
  have id: "\<exists>r. s = s\<lparr>St_raft := r\<rparr>" by (rule exI [of _ "St_raft s"]) simp
  then show "\<exists>r. snd (ForceBootstrap E i s) = s\<lparr>St_raft := r\<rparr>"
    by (auto simp: ForceBootstrap_def Let_def split: prod.splits option.splits)
  show "\<exists>r. snd (WaitForLeader E b later s) = s\<lparr>St_raft := r\<rparr>"
    using id by (auto simp: WaitForLeader_def Let_def)
  show "\<exists>r. snd (AddPeer E i addr s) = s\<lparr>St_raft := r\<rparr>"
    using id by (auto simp: AddPeer_def split: prod.splits option.splits sum.splits)
  show "\<exists>r. snd (RemovePeer E i s) = s\<lparr>St_raft := r\<rparr>"
    using id by (auto simp: RemovePeer_def split: prod.splits option.splits)
qed

lemma app_fields_raft [simp]:
  "A_worker (a\<lparr>St_raft := r\<rparr>) = A_worker a" "A_slotEvictor (a\<lparr>St_raft := r\<rparr>) = A_slotEvictor a"
  "A_peerTracker (a\<lparr>St_raft := r\<rparr>) = A_peerTracker a" "A_nodeID (a\<lparr>St_raft := r\<rparr>) = A_nodeID a"
  "A_raftAdvertise (a\<lparr>St_raft := r\<rparr>) = A_raftAdvertise a"
  by simp_all

lemma membership_fields [simp]:
  "A_worker (snd (ForceBootstrap E i a)) = A_worker a"
  "A_slotEvictor (snd (ForceBootstrap E i a)) = A_slotEvictor a"
  "A_worker (snd (RemovePeer E i a)) = A_worker a"
  "A_peerTracker (snd (AddPeer E i addr a)) = A_peerTracker a"
  "A_nodeID (snd (AddPeer E i addr a)) = A_nodeID a"
  "A_raftAdvertise (snd (AddPeer E i addr a)) = A_raftAdvertise a"
  using only_raft(1) [of E i a] only_raft(3) [of E i addr a] only_raft(4) [of E i a] by auto

section \<open>Leadership and the loops\<close>

lemma start_ok: "worker_ok w \<Longrightarrow> worker_ok (Worker_Start w) \<and> W_running (Worker_Start w)"
  by (auto simp: worker_ok_def Worker_Start_def less_Suc_eq)

lemma stop_ok:
  assumes "worker_ok w"
  shows "\<exists>w'. Worker_Stop w = Some w' \<and> worker_ok w' \<and> \<not> W_running w'"
proof -
  have "insert (W_made w - Suc 0) {..<W_made w - Suc 0} = {..<W_made w}" if "0 < W_made w"
    using that by (cases "W_made w") (auto simp: less_Suc_eq)
  then show ?thesis using assms by (auto simp: worker_ok_def Worker_Stop_def)
qed

text \<open>
  The loops run exactly while the node was leader at the last turn; \<open>lost\<close> says whether the
  channel of the evictor is closed already.
\<close>

definition in_step :: "bool \<Rightarrow> bool \<Rightarrow> ('c, 'r) App \<Rightarrow> bool" where
  "in_step was lost a \<longleftrightarrow> worker_ok (A_worker a) \<and> W_running (A_worker a) = was \<and>
     (\<forall>se. A_slotEvictor a = Some se \<longrightarrow> SE_running se = was \<and> SE_closed se = lost)"

lemma in_step_raft [simp]: "in_step was lost (a\<lparr>St_raft := r\<rparr>) = in_step was lost a"
  by (simp add: in_step_def)

lemma become_in_step: "in_step False lost a \<Longrightarrow> in_step True lost (becomeLeader a)"
  using start_ok [of "A_worker a"]
  by (cases "A_slotEvictor a") (simp_all add: in_step_def becomeLeader_def Evictor_Start_def)

lemma lose_in_step:
  assumes "in_step True lost a"
  shows "loseLeadership a = None \<longleftrightarrow> lost \<and> A_slotEvictor a \<noteq> None"
    "loseLeadership a = Some a' \<Longrightarrow> in_step False True a' \<and> (A_slotEvictor a' = None \<longleftrightarrow> A_slotEvictor a = None)"
  using assms stop_ok [of "A_worker a"]
  by (auto simp: in_step_def loseLeadership_def Evictor_Stop_def Let_def split: option.splits if_splits)

fun losses :: "bool \<Rightarrow> bool list \<Rightarrow> nat" where
  "losses was [] = 0"
| "losses was (now # rest) = (if was \<and> \<not> now then Suc (losses now rest) else losses now rest)"

definition leads :: "('c, 'r) Env \<Rightarrow> 'r \<Rightarrow> bool" where
  "leads E r \<longleftrightarrow> raft_State (raft_lib E) r = Leader"

lemma count_leaves:
  "in_step x y (snd (count_no_leader E l c a)) = in_step x y a"
  "A_slotEvictor (snd (count_no_leader E l c a)) = A_slotEvictor a"
proof -
  have b: "in_step x y (snd (attemptAutoBootstrap E a)) = in_step x y a"
      "A_slotEvictor (snd (attemptAutoBootstrap E a)) = A_slotEvictor a"
    by (simp_all add: attemptAutoBootstrap_def in_step_def)
  show "in_step x y (snd (count_no_leader E l c a)) = in_step x y a"
    "A_slotEvictor (snd (count_no_leader E l c a)) = A_slotEvictor a"
    using b by (cases "attemptAutoBootstrap E a"; auto simp: count_no_leader_def Let_def split: option.splits)+
qed

lemma follow_in_step:
  assumes "in_step was lost a"
  shows "follow_leadership was now c a = None \<longleftrightarrow> was \<and> \<not> now \<and> lost \<and> A_slotEvictor a \<noteq> None"
    "follow_leadership was now c a = Some (c', a') \<Longrightarrow>
       in_step now (lost \<or> (was \<and> \<not> now)) a' \<and> (A_slotEvictor a' = None \<longleftrightarrow> A_slotEvictor a = None)"
proof -
  show "follow_leadership was now c a = None \<longleftrightarrow> was \<and> \<not> now \<and> lost \<and> A_slotEvictor a \<noteq> None"
    using assms lose_in_step(1) [of lost a] by (cases was; cases now) (simp_all add: follow_leadership_def)
  show "in_step now (lost \<or> (was \<and> \<not> now)) a' \<and> (A_slotEvictor a' = None \<longleftrightarrow> A_slotEvictor a = None)"
    if "follow_leadership was now c a = Some (c', a')"
    using that assms lose_in_step(2) [of lost a] become_in_step [of lost a]
    by (cases was; cases now) (auto simp: follow_leadership_def becomeLeader_def)
qed

lemma turn_in_step:
  assumes "in_step was lost a"
  shows "monitor_turn E r (was, c, a) = None \<longleftrightarrow> was \<and> \<not> leads E r \<and> lost \<and> A_slotEvictor a \<noteq> None"
    "monitor_turn E r (was, c, a) = Some (now, c', a') \<Longrightarrow>
      now = leads E r \<and> in_step now (lost \<or> (was \<and> \<not> now)) a' \<and> (A_slotEvictor a' = None \<longleftrightarrow> A_slotEvictor a = None)"
proof -
  have l: "IsLeader E (a\<lparr>St_raft := r\<rparr>) = leads E r" by (simp add: IsLeader_def leads_def)
  have step: "in_step was lost (a\<lparr>St_raft := r\<rparr>)" using assms by simp
  show "monitor_turn E r (was, c, a) = None \<longleftrightarrow> was \<and> \<not> leads E r \<and> lost \<and> A_slotEvictor a \<noteq> None"
    using follow_in_step(1) [OF step, of "leads E r" c] by (auto simp: monitor_turn_def Let_def l split: option.splits)
  show "now = leads E r \<and> in_step now (lost \<or> (was \<and> \<not> now)) a' \<and> (A_slotEvictor a' = None \<longleftrightarrow> A_slotEvictor a = None)"
    if t: "monitor_turn E r (was, c, a) = Some (now, c', a')"
  proof -
    obtain k a1 where "follow_leadership was (leads E r) c (a\<lparr>St_raft := r\<rparr>) = Some (k, a1)" "now = leads E r"
        "a' = snd (count_no_leader E (GetLeader E (a\<lparr>St_raft := r\<rparr>)) k a1)"
      using t by (auto simp: monitor_turn_def Let_def l bind_eq_Some_conv)
    then show ?thesis using follow_in_step(2) [OF step, of now c k a1] by (simp add: count_leaves)
  qed
qed

lemma monitor_in_step:
  assumes "in_step was lost a"
  shows "monitorLeadership E rs (was, c, a) = None \<longleftrightarrow>
      A_slotEvictor a \<noteq> None \<and> (if lost then 1 else 2) \<le> losses was (map (leads E) rs)"
    "monitorLeadership E rs (was, c, a) = Some (now, c', a') \<Longrightarrow>
      W_running (A_worker a') = now \<and> now = last (was # map (leads E) rs)"
  using assms
proof (induction rs arbitrary: was lost c a)
  case Nil
  { case 1 then show ?case by simp }
  { case 2 then show ?case by (auto simp: in_step_def) }
next
  case (Cons r rs)
  { case 1
    show ?case
    proof (cases "monitor_turn E r (was, c, a)")
      case None
      then show ?thesis using turn_in_step(1) [OF 1, of E r c] by simp
    next
      case (Some st)
      obtain now c1 a1 where st: "st = (now, c1, a1)" by (metis prod_cases3)
      note T = turn_in_step(2) [OF 1, of E r c now c1 a1]
      show ?thesis using Cons.IH(1) T turn_in_step(1) [OF 1, of E r c] Some st by fastforce
    qed }
  { case 2
    then obtain st where st: "monitor_turn E r (was, c, a) = Some st" "monitorLeadership E rs st = Some (now, c', a')"
      by (auto simp: bind_eq_Some_conv)
    obtain b c1 a1 where s: "st = (b, c1, a1)" by (metis prod_cases3)
    then show ?case using turn_in_step(2) [OF 2(2), of E r c b c1 a1] st Cons.IH(2) by fastforce }
qed


section \<open>A fresh application\<close>

lemma new_evictor [simp]:
  "\<not> SE_running (NewSlotEvictorWithWheel c wheel)" "\<not> SE_closed (NewSlotEvictorWithWheel c wheel)"
  by (simp_all add: NewSlotEvictorWithWheel_def Let_def)

lemma new_app_fields:
  assumes "NewApp config s = Some a"
  shows "A_worker a = NewWorker" "A_peerTracker a = (if Cfg_BootstrapExpect config > 0
      then Some (newPeerTracker (Cfg_BootstrapExpect config)) else None)"
    "A_slotEvictor a = None \<longleftrightarrow> \<not> Cfg_EnableColdSpilling config"
    "A_slotEvictor a = Some se \<Longrightarrow> \<not> SE_running se \<and> \<not> SE_closed se"
    "A_nodeID a = Cfg_NodeID config" "A_raftAdvertise a = Cfg_RaftAdvertise config"
  using assms
  by (auto simp: NewApp_def Let_def bind_eq_Some_conv NewExecutionManager_def Manager.extend_def App.fields_def
      split: if_splits)

lemma new_app_store:
  assumes "NewApp config s = Some a"
  shows "St_raft a = St_raft s \<and> St_localAddr a = St_localAddr s"
  using assms
  by (auto simp: NewApp_def Let_def bind_eq_Some_conv NewExecutionManager_def Manager.extend_def Node.extend_def
      SetHTTPBind_def Store.extend_def NewPersistentSlotQueue_def NewPersistentSlotQueueWithConfig_def
      App.fields_def Manager.fields_def Node.fields_def split: if_splits)

section \<open>Forming the cluster\<close>

text \<open>
  What the bootstrap relies on: Raft reports its servers, and a leader that adds a server
  with a new ID keeps the leadership and has that server besides the others.
\<close>

locale growing_raft =
  fixes R :: "'r Raft" and servers :: "'r \<Rightarrow> Server list"
  assumes configuration: "raft_GetConfiguration R r = Inr (servers r)"
    and add_voter: "raft_State R r = Leader \<Longrightarrow> i \<notin> Server_ID ` set (servers r) \<Longrightarrow>
      \<exists>r'. raft_AddVoter R i addr r = (None, r') \<and> raft_State R r' = Leader \<and>
        set (servers r') = insert \<lparr>Server_ID = i, Server_Address = addr\<rparr> (set (servers r))"
begin

lemma add_peer_step:
  assumes "raft_lib E = R" "IsLeader E s" "i \<notin> Server_ID ` set (servers (St_raft s))"
  shows "IsLeader E (snd (AddPeer E i addr s))"
    "set (servers (St_raft (snd (AddPeer E i addr s)))) =
      insert \<lparr>Server_ID = i, Server_Address = addr\<rparr> (set (servers (St_raft s)))"
proof -
  obtain r' where r': "raft_AddVoter R i addr (St_raft s) = (None, r')" "raft_State R r' = Leader"
      "set (servers r') = insert \<lparr>Server_ID = i, Server_Address = addr\<rparr> (set (servers (St_raft s)))"
    using add_voter [of "St_raft s" i addr] assms by (auto simp: IsLeader_def)
  have "\<not> list_ex (\<lambda>x. Server_ID x = i \<and> Server_Address x = addr) (servers (St_raft s))"
    using assms(3) by (auto simp: list_ex_iff)
  then have "AddPeer E i addr s = (None, s\<lparr>St_raft := r'\<rparr>)"
    using assms(1,2) r'(1) configuration by (simp add: AddPeer_def)
  then show "IsLeader E (snd (AddPeer E i addr s))"
    "set (servers (St_raft (snd (AddPeer E i addr s)))) =
      insert \<lparr>Server_ID = i, Server_Address = addr\<rparr> (set (servers (St_raft s)))"
    using r'(2,3) assms(1) by (simp_all add: IsLeader_def)
qed

lemma add_peers:
  assumes "raft_lib E = R" "IsLeader E s" "distinct (map derivePeerID addrs)"
    and "\<forall>addr \<in> set addrs. derivePeerID addr \<notin> Server_ID ` set (servers (St_raft s))"
  shows "IsLeader E (fold (\<lambda>addr s. snd (AddPeer E (derivePeerID addr) addr s)) addrs s) \<and>
    set (servers (St_raft (fold (\<lambda>addr s. snd (AddPeer E (derivePeerID addr) addr s)) addrs s))) =
      set (servers (St_raft s)) \<union> (\<lambda>addr. \<lparr>Server_ID = derivePeerID addr, Server_Address = addr\<rparr>) ` set addrs"
  using assms(2-4)
proof (induction addrs arbitrary: s)
  case (Cons x xs)
  let ?s = "snd (AddPeer E (derivePeerID x) x s)"
  have s1: "IsLeader E ?s" "set (servers (St_raft ?s)) =
      insert \<lparr>Server_ID = derivePeerID x, Server_Address = x\<rparr> (set (servers (St_raft s)))"
    using add_peer_step [OF assms(1) Cons.prems(1)] Cons.prems(3) by simp_all
  have "\<forall>addr \<in> set xs. derivePeerID addr \<notin> Server_ID ` set (servers (St_raft ?s))"
    using Cons.prems(2,3) s1(2) by (fastforce dest: sym)
  then show ?case using Cons.IH [OF s1(1)] Cons.prems(2) s1(2) by simp
qed simp

end

interpretation solo_growing: growing_raft solo_raft solo_servers
  by unfold_locales (auto simp: solo_raft_def)

text \<open>Before there is a leader, a report only feeds the tracker.\<close>

lemma connect_all:
  assumes "\<not> IsLeader E a" "A_peerTracker a = Some pt" "report (filter (\<lambda>x. x \<noteq> A_raftAdvertise a) addrs) pt = Some pt'"
  shows "each (discovery_Connect E) addrs a = Some (a\<lparr>A_peerTracker := Some pt'\<rparr>)"
  using assms
proof (induction addrs arbitrary: a pt)
  case (Cons x xs)
  show ?case
  proof (cases "x = A_raftAdvertise a")
    case True
    then show ?thesis using Cons by (simp add: discovery_Connect_def)
  next
    case False
    then obtain p1 where p1: "peerTracker_add x pt = Some p1" "report (filter (\<lambda>x. x \<noteq> A_raftAdvertise a) xs) p1 = Some pt'"
      using Cons.prems(3) by (auto simp: bind_eq_Some_conv)
    let ?a = "a\<lparr>A_peerTracker := Some p1\<rparr>"
    have l: "\<not> IsLeader E ?a" using Cons.prems(1) by (simp add: IsLeader_def)
    then have "discovery_Connect E x a = Some ?a"
      using False p1(1) Cons.prems(2) by (simp add: discovery_Connect_def AddPeer_def)
    then show ?thesis using Cons.IH [OF l, of p1] p1(2) by simp
  qed
qed simp

section \<open>Properties\<close>

text \<open>C7: The loops follow the leadership, and with the evictor only once: the monitor panics exactly
  when a node with an evictor loses the leadership for the second time; otherwise the worker runs
  exactly while the last turn found the node to be the leader.\<close>
theorem worker_follows_leadership:
  assumes "worker_reachable (A_worker a)" "W_running (A_worker a) = was"
    and "\<forall>se. A_slotEvictor a = Some se \<longrightarrow> SE_running se = was \<and> \<not> SE_closed se"
  shows "case monitorLeadership E rs (was, c, a) of
      None \<Rightarrow> A_slotEvictor a \<noteq> None \<and> 2 \<le> losses was (map (leads E) rs)
    | Some (now, c', a') \<Rightarrow> \<not> (A_slotEvictor a \<noteq> None \<and> 2 \<le> losses was (map (leads E) rs)) \<and>
        W_running (A_worker a') = now \<and> now = last (was # map (leads E) rs)"
proof -
  have "in_step was False a" using assms worker_reachable_ok by (simp add: in_step_def)
  from monitor_in_step [OF this, of E rs c] show ?thesis by (auto split: option.splits prod.splits)
qed

text \<open>A node of its own, and the states of Raft with and without the leadership.\<close>

definition solo_config :: "bool \<Rightarrow> unit Config" where
  "solo_config cold =
     \<lparr>Cfg_DataDir = '''', Cfg_RaftBind = ''a:7000'', Cfg_RaftAdvertise = ''a:7000'', Cfg_HTTPBind = '':8080'',
      Cfg_NodeID = ''a'', Cfg_Peers = [], Cfg_SlotGap = 10 * Second, Cfg_Topologies = [],
      Cfg_ExecutionTimeout = 5 * Minute, Cfg_InProgressTimeout = 5 * Minute, Cfg_MaxExecutionAttempts = 3,
      Cfg_HistoryRetention = 24 * Hour, Cfg_HealthFailureThreshold = 1 / 10, Cfg_QueueMemoryLimit = 1000000,
      Cfg_QueueJobLimit = 100, Cfg_EnableColdSpilling = cold, Cfg_ColdSpillingHotWindow = 48 * Hour,
      Cfg_ColdSpillingCheckInterval = 5 * Minute, Cfg_TimingWheelConfigs = [], Cfg_BootstrapExpect = 0,
      Cfg_HTTPReadTimeout = 0, Cfg_HTTPReadHeaderTimeout = 0, Cfg_HTTPWriteTimeout = 0, Cfg_HTTPIdleTimeout = 0,
      Cfg_MaxRequestBodySize = 1000, Cfg_AuthToken = ''''\<rparr>"

text \<open>A node starts consistent: with a slot gap of whole seconds and the default wheel, \<open>NewApp\<close> does
  not panic, its queue is well formed and empty, its loops are stopped, and it has an evictor
  exactly when cold spilling is enabled.\<close>
theorem new_app_is_consistent:
  assumes "Cfg_SlotGap config = g * Second" "0 < g" "g * 3153600 < time_bound div 1000000000"
    and "Cfg_TimingWheelConfigs config \<in> {[], DefaultWheelConfigs (g * Second)}"
  shows "\<exists>a. NewApp config s = Some a \<and> queue_ok a \<and> held (Q_wheel a) = {} \<and> Q_slotGap a = g * Second \<and>
     St_fsm a = St_fsm s \<and> worker_reachable (A_worker a) \<and> \<not> W_running (A_worker a) \<and>
     (A_slotEvictor a \<noteq> None \<longleftrightarrow> Cfg_EnableColdSpilling config) \<and>
     (\<forall>se. A_slotEvictor a = Some se \<longrightarrow> \<not> SE_running se \<and> \<not> SE_closed se)"
proof -
  obtain w where w: "NewHierarchicalTimingWheel (g * Second) (DefaultWheelConfigs (g * Second)) = Some w"
      "wheel_good w" "held w = {}" "slotGapSeconds w = g"
    using default_wheel_good [OF assms(2,3)] by blast
  have ne: "g * Second \<noteq> 0" using assms(2) by (simp add: Second_def)
  show ?thesis
    using assms(1,4) w ne worker_reachable.new
    by (auto simp: NewApp_def Let_def NewPersistentSlotQueueWithConfig_def NewPersistentSlotQueue_def
        NewExecutionManager_def SetHTTPBind_def queue_ok_def NewSlotEvictorWithWheel_def Store.extend_def
        Node.extend_def Manager.extend_def Node.fields_def Manager.fields_def App.fields_def NewWorker_def)
qed


lemma new_app_is_consistent_witness: "\<exists>a. NewApp (solo_config True) (solo_store False NewFSM) = Some a \<and> queue_ok a"
  using new_app_is_consistent [of "solo_config True" 10 "solo_store False NewFSM"]
  by (auto simp: solo_config_def)

lemma solo_app_exists:
  "\<exists>a. NewApp ((solo_config cold)\<lparr>Cfg_BootstrapExpect := k\<rparr>) (solo_store False NewFSM) = Some a"
  "\<exists>a. NewApp (solo_config cold) (solo_store False NewFSM) = Some a"
  using default_wheel_good [of 10]
  by (auto simp: NewApp_def Let_def solo_config_def NewPersistentSlotQueue_def Second_def)

lemma worker_follows_leadership_witness:
  "\<exists>a. NewApp (solo_config True) (solo_store False NewFSM) = Some a \<and>
     monitorLeadership solo_env
       (map (\<lambda>l. \<lparr>solo_leader = l, solo_servers = []\<rparr>) [True, False, True, False]) (False, 0, a) = None"
proof -
  let ?rs = "map (\<lambda>l. \<lparr>solo_leader = l, solo_servers = []\<rparr>) [True, False, True, False]"
  obtain a where a: "NewApp (solo_config True) (solo_store False NewFSM) = Some a"
    using solo_app_exists by blast
  note f = new_app_fields [OF a]
  have "map (leads solo_env) ?rs = [True, False, True, False]" by (simp add: leads_def solo_raft_def)
  then show ?thesis
    using worker_follows_leadership [of a False solo_env ?rs 0] f(1,3,4) worker_reachable.new a
    by (auto simp: NewWorker_def solo_config_def split: option.splits)
qed

text \<open>C24: The designated node forms the whole cluster: a node without a leader that hears of peers with
  larger and pairwise different IDs bootstraps itself, and once it leads, its cluster consists of
  itself and of every reported peer under the ID derived from its address.\<close>
theorem bootstrap_forms_cluster:
  assumes "growing_raft (raft_lib E) servers" "range_order (B_order B)" "\<not> IsLeader E a"
    and "A_peerTracker a = Some (newPeerTracker k)" "0 < k"
    and "peers = set (B_arrivals B) - {A_raftAdvertise a}" "int (card peers) \<le> k"
    and "inj_on derivePeerID peers" "\<forall>addr \<in> peers. A_nodeID a < derivePeerID addr"
    and "raft_Leader (raft_lib E) (snd (raft_BootstrapCluster (raft_lib E)
           [\<lparr>Server_ID = A_nodeID a, Server_Address = St_localAddr a\<rparr>] (St_raft a))) = ''''"
    and "leads E (B_later B)" "servers (B_later B) = [\<lparr>Server_ID = A_nodeID a, Server_Address = St_localAddr a\<rparr>]"
  shows "\<exists>a'. waitForBootstrap E B a = Some (None, a') \<and> IsLeader E a' \<and>
    set (servers (St_raft a')) = insert \<lparr>Server_ID = A_nodeID a, Server_Address = St_localAddr a\<rparr>
      ((\<lambda>addr. \<lparr>Server_ID = derivePeerID addr, Server_Address = addr\<rparr>) ` peers)"
proof -
  let ?new = "filter (\<lambda>x. x \<noteq> A_raftAdvertise a) (B_arrivals B)"
  let ?self = "\<lparr>Server_ID = A_nodeID a, Server_Address = St_localAddr a\<rparr>"
  have new: "set ?new = peers" using assms(6) by auto
  obtain pt where pt: "report ?new (newPeerTracker k) = Some pt" "fset (PT_addresses pt) = peers"
    using report_complete [OF assms(5), of ?new] new assms(7) by metis
  let ?a = "a\<lparr>A_peerTracker := Some pt\<rparr>" and ?ps = "B_order B peers"
  have fin: "finite peers" using assms(6) by simp
  have ps: "set ?ps = peers" "distinct (map derivePeerID ?ps)"
    using assms(2,8) fin range_order_distinct [OF assms(2) fin] by (simp_all add: distinct_map)
  have w: "peerTracker_wait (B_order B) True pt = Some ?ps" by (simp add: peerTracker_wait_def pt(2))
  have init: "isBootstrapInitiator (A_nodeID ?a) ?ps"
    using assms(9) ps(1) by (auto simp: isBootstrapInitiator_def list_all_iff)
  let ?b = "snd (WaitForLeader E (B_signalled B) (B_later B) (snd (ForceBootstrap E (A_nodeID a) ?a)))"
  have nl: "\<not> IsLeader E ?a" using assms(3) by (simp add: IsLeader_def)
  have b: "?b = ?a\<lparr>St_raft := B_later B\<rparr>"
    using nl assms(10) by (cases "raft_BootstrapCluster (raft_lib E) [?self] (St_raft a)")
      (auto simp: ForceBootstrap_def WaitForLeader_def Let_def split: option.splits)
  have lb: "IsLeader E ?b" using assms(11) b by (simp add: IsLeader_def leads_def)
  have "\<forall>addr \<in> set ?ps. derivePeerID addr \<notin> Server_ID ` set (servers (St_raft ?b))"
    using assms(9,12) ps(1) b by auto
  from growing_raft.add_peers [OF assms(1) refl lb ps(2) this] show ?thesis
    using connect_all [OF assms(3,4) pt(1)] w init lb assms(4,12) ps(1) b
    by (simp add: waitForBootstrap_def Let_def)
qed

text \<open>C29: A shutdown ends without panic: whether it leads or not, the node stops its worker, its pruning
  loop and its servers, and closes the store.\<close>
theorem shutdown_never_panics:
  assumes "worker_reachable (A_worker a)"
  shows "\<exists>a'. handleGracefulShutdown E closeCold transfer a = Some a' \<and> \<not> W_running (A_worker a') \<and>
     worker_ok (A_worker a') \<and> \<not> A_pruning a' \<and> \<not> A_serving a' \<and> A_slotEvictor a' = A_slotEvictor a"
proof -
  have close: "A_worker (snd (Store_Close E closeCold b)) = A_worker b" "A_pruning (snd (Store_Close E closeCold b)) = A_pruning b"
    "A_serving (snd (Store_Close E closeCold b)) = A_serving b" "A_slotEvictor (snd (Store_Close E closeCold b)) = A_slotEvictor b"
    for b :: "('a, 'b) App"
    by (simp_all add: Store_Close_def Let_def split: prod.splits option.splits)
  have stop: "\<exists>a'. App_Stop E closeCold b = Some a' \<and> \<not> W_running (A_worker a') \<and> worker_ok (A_worker a') \<and>
      \<not> A_pruning a' \<and> \<not> A_serving a' \<and> A_slotEvictor a' = A_slotEvictor b" if "worker_ok (A_worker b)" for b
    using stop_ok [OF that] by (auto simp: App_Stop_def Let_def close)
  note ok = worker_reachable_ok [OF assms]
  show ?thesis
  proof (cases "IsLeader E a")
    case True
    obtain w where w: "Worker_Stop (A_worker a) = Some w" "worker_ok w" using stop_ok [OF ok] by blast
    obtain r where r: "snd (RemovePeer E (A_nodeID a) (a\<lparr>A_worker := w\<rparr>)) = a\<lparr>A_worker := w, St_raft := r\<rparr>"
      using only_raft(4) [of E "A_nodeID a" "a\<lparr>A_worker := w\<rparr>"] by auto
    show ?thesis using stop [of "a\<lparr>A_worker := w, St_raft := snd (transfer r)\<rparr>"] True w r
      by (simp add: handleGracefulShutdown_def Let_def)
  next
    case False
    then show ?thesis using stop [OF ok] by (simp add: handleGracefulShutdown_def)
  qed
qed


lemma shutdown_never_panics_witness:
  "\<exists>a a'. NewApp (solo_config True) (solo_store False NewFSM) = Some a \<and>
     handleGracefulShutdown solo_env (Pair None) (Pair None) (becomeLeader a) = Some a' \<and> \<not> W_running (A_worker a')"
proof -
  obtain a where a: "NewApp (solo_config True) (solo_store False NewFSM) = Some a"
    using solo_app_exists by blast
  have "worker_reachable (A_worker (becomeLeader a))"
    using new_app_fields(1) [OF a] worker_reachable.step [OF worker_reachable.new worker_step.start]
    by (simp add: becomeLeader_def)
  from shutdown_never_panics [OF this, of solo_env "Pair None" "Pair None"] a show ?thesis by blast
qed

definition boot_config :: "unit Config" where
  "boot_config = (solo_config False)\<lparr>Cfg_BootstrapExpect := 2\<rparr>"

text \<open>A state of Raft with one server, and the outside of a bootstrap that hears of one peer.\<close>

definition boot_outside :: "solo boot" where
  "boot_outside = \<lparr>B_arrivals = [''a:7000'', ''b:7000''], B_order = sorted_list_of_set, B_signalled = True,
     B_later = \<lparr>solo_leader = True, solo_servers = [\<lparr>Server_ID = ''a'', Server_Address = ''n1:7000''\<rparr>]\<rparr>\<rparr>"

text \<open>The library of \<open>solo_env\<close>, with a bootstrap that does not elect at once.\<close>

definition slow_env :: "(disk, solo) Env" where
  "slow_env = solo_env\<lparr>raft_lib := solo_raft\<lparr>raft_BootstrapCluster := (\<lambda>ss r. (None, r\<lparr>solo_servers := ss\<rparr>))\<rparr>\<rparr>"

interpretation slow_growing: growing_raft "raft_lib slow_env" solo_servers
  by unfold_locales (auto simp: slow_env_def solo_raft_def)


lemma bootstrap_forms_cluster_witness:
  "\<exists>a a'. NewApp boot_config (solo_store False NewFSM) = Some a \<and>
     waitForBootstrap slow_env boot_outside a = Some (None, a') \<and>
     set (solo_servers (St_raft a')) =
       {\<lparr>Server_ID = ''a'', Server_Address = ''n1:7000''\<rparr>, \<lparr>Server_ID = ''b'', Server_Address = ''b:7000''\<rparr>}"
proof -
  obtain a where a: "NewApp boot_config (solo_store False NewFSM) = Some a"
    using solo_app_exists(1) unfolding boot_config_def by blast
  have f: "A_nodeID a = ''a''" "A_raftAdvertise a = ''a:7000''" "A_peerTracker a = Some (newPeerTracker 2)"
    using new_app_fields [OF a] by (simp_all add: boot_config_def solo_config_def)
  have s: "St_raft a = \<lparr>solo_leader = False, solo_servers = []\<rparr>" "St_localAddr a = ''n1:7000''"
    using new_app_store [OF a] by (simp_all add: solo_store_def)
  have d: "derivePeerID ''b:7000'' = ''b''" by code_simp
  have p: "{''b:7000''} = set (B_arrivals boot_outside) - {A_raftAdvertise a}"
    by (auto simp: boot_outside_def f)
  have "\<exists>a'. waitForBootstrap slow_env boot_outside a = Some (None, a') \<and> IsLeader slow_env a' \<and>
    set (solo_servers (St_raft a')) = insert \<lparr>Server_ID = A_nodeID a, Server_Address = St_localAddr a\<rparr>
      ((\<lambda>addr. \<lparr>Server_ID = derivePeerID addr, Server_Address = addr\<rparr>) ` {''b:7000''})"
  proof (rule bootstrap_forms_cluster [OF slow_growing.growing_raft_axioms _ _ f(3) _ p])
    show "range_order (B_order boot_outside)" by (simp add: boot_outside_def range_order_sorted)
    show "\<not> IsLeader slow_env a" by (simp add: IsLeader_def slow_env_def solo_raft_def s)
    show "\<forall>addr \<in> {''b:7000''}. A_nodeID a < derivePeerID addr" by (simp add: d f)
    show "leads slow_env (B_later boot_outside)" by (simp add: leads_def slow_env_def solo_raft_def boot_outside_def)
  qed (simp_all add: slow_env_def solo_raft_def boot_outside_def s f)
  then show ?thesis using a by (auto simp: f s d)
qed

end
