(* ===== verification/Api.thy ===== *)
theory Api
  imports Application Job_Delivery
begin

text \<open>
  The HTTP API of \<open>internal/api\<close> (\<open>handlers.go\<close>, \<open>job_handlers.go\<close>, \<open>cluster_handlers.go\<close>,
  \<open>router.go\<close>): each handler is a function from the request and the node to the response and
  the node. What the router has matched and what the JSON decoder has made of the body are
  fields of the request; the regexp package, \<open>net.ParseIP\<close>, the HTTP client that forwards to
  the leader, the texts of validation errors and the clock are parameters. A write error
  on the response is only logged by the code and is left out; the measurements are in \<open>Measurements\<close>.
\<close>

section \<open>Requests and responses\<close>

text \<open>\<open>None\<close> in a decoded body is a decoding error.\<close>

record Request =
  RQ_Method :: string
  RQ_URI :: string
  RQ_ID :: string
  RQ_Status :: string
  RQ_Authorization :: string
  RQ_Create :: "CreateJobRequest option"
  RQ_Join :: "(string \<times> string) option"
  RQ_Reason :: "string option"

record JobStats =
  JS_Count :: int
  JS_Limit :: int
  JS_Available :: int

record HealthResponse =
  HL_Status :: string
  HL_Role :: string
  HL_Leader :: string
  HL_NodeID :: string
  HL_Memory :: "MemoryUsage option"
  HL_Jobs :: "JobStats option"
  HL_Execution :: "ExecutionStats option"

record ClusterDebugResponse =
  CD_NodeID :: string
  CD_IsLeader :: bool
  CD_Leader :: string
  CD_RaftState :: string
  CD_Servers :: "store_error + Server list"
  CD_JobCount :: int

datatype body =
    NoBody
  | ErrorBody string
  | CapacityBody CapacityError
  | JobBody Job
  | StateBody JobExecutionState
  | AttemptsBody string "ExecutionAttempt list"
  | CancelBody string JobStatus int "string option"
  | StatesBody "JobExecutionState list" int
  | HealthBody HealthResponse
  | DebugBody ClusterDebugResponse
  | JoinBody bool string
  | ReadyBody string
  | ForwardedBody string

record Response =
  RS_Status :: int
  RS_Body :: body

definition writeError :: "int \<Rightarrow> string \<Rightarrow> Response" where
  "writeError status message = \<lparr>RS_Status = status, RS_Body = ErrorBody message\<rparr>"

definition respond :: "body \<Rightarrow> Response" where
  "respond b = \<lparr>RS_Status = 200, RS_Body = b\<rparr>"

section \<open>Error texts\<close>

fun ReplaceAll :: "string \<Rightarrow> string \<Rightarrow> string \<Rightarrow> string" where
  "ReplaceAll [] old new = []"
| "ReplaceAll (c # s) old new =
     (if old \<noteq> [] \<and> HasPrefix (c # s) old then new @ ReplaceAll (drop (length old - 1) s) old new
      else c # ReplaceAll s old new)"

text \<open>\<open>ReplaceAllStringFunc\<close> and \<open>ReplaceAllString\<close> with the three patterns, and \<open>net.ParseIP\<close>.\<close>

record regexp_lib =
  ip_ReplaceFunc :: "(string \<Rightarrow> string) \<Rightarrow> string \<Rightarrow> string"
  path_Replace :: "string \<Rightarrow> string \<Rightarrow> string"
  raft_Replace :: "string \<Rightarrow> string \<Rightarrow> string"
  is_IP :: "string \<Rightarrow> bool"

definition mask_address :: "regexp_lib \<Rightarrow> string \<Rightarrow> string" where
  "mask_address L text =
     (let (host, p) = (case LastIndexByte text (CHR '':'') of
                         Some idx \<Rightarrow> if idx > 0 then (take idx text, drop idx text) else (text, '''')
                       | None \<Rightarrow> (text, ''''));
          host = (if HasPrefix host ''['' \<and> HasSuffix host '']'' then drop 1 (take (length host - 1) host) else host)
      in if is_IP L host then (if p \<noteq> '''' then ''[addr]:<port>'' else ''[addr]'') else text)"

definition sanitizeError :: "regexp_lib \<Rightarrow> string option \<Rightarrow> string" where
  "sanitizeError L err =
     (case err of
        None \<Rightarrow> ''''
      | Some msg \<Rightarrow>
          let msg = ip_ReplaceFunc L (mask_address L) msg;
              msg = path_Replace L ''[path]'' msg;
              msg = raft_Replace L ''[raft error]'' msg;
              msg = ReplaceAll msg ''scheduled-db'' ''[service]'';
              msg = ReplaceAll msg ''.svc.cluster.local'' ''''
          in msg)"

definition safeErrorMessage :: "regexp_lib \<Rightarrow> string \<Rightarrow> string option \<Rightarrow> bool \<Rightarrow> string" where
  "safeErrorMessage L prefix err isClientError =
     (if isClientError
      then let sanitized = sanitizeError L err
           in if sanitized = '''' then prefix else prefix @ '': '' @ sanitized
      else prefix)"

section \<open>The leader's address\<close>

record Handlers =
  H_limitManager :: "LimitManager option"
  H_executionManager :: bool
  H_addressMap :: "(string, string) fmap"
  H_healthFailureThreshold :: rat

definition map_node :: "environment \<Rightarrow> nat \<Rightarrow> (string, string) fmap \<Rightarrow> (string, string) fmap" where
  "map_node Getenv i m =
     (let envValue = Getenv (''CLUSTER_NODE_'' @ Sprintf_d (int i))
      in if envValue = '''' then m
         else case split_on (CHR '','') envValue of
           [p0, p1] \<Rightarrow>
             let raftAddr = TrimSpace p0;
                 httpAddr = TrimSpace p1;
                 httpAddr = (if \<not> HasPrefix httpAddr ''http://'' \<and> \<not> HasPrefix httpAddr ''https://''
                             then ''http://'' @ httpAddr else httpAddr)
             in fmupd raftAddr httpAddr m
         | _ \<Rightarrow> m)"

definition buildAddressMapping :: "environment \<Rightarrow> (string, string) fmap" where
  "buildAddressMapping Getenv = fold (map_node Getenv) [1..<11] fmempty"

definition NewHandlers :: "environment \<Rightarrow> LimitManager option \<Rightarrow> bool \<Rightarrow> rat \<Rightarrow> Handlers" where
  "NewHandlers Getenv limitManager executionManager healthFailureThreshold =
     \<lparr>H_limitManager = limitManager, H_executionManager = executionManager,
      H_addressMap = buildAddressMapping Getenv, H_healthFailureThreshold = healthFailureThreshold\<rparr>"

definition calculateHTTPAddress :: "environment \<Rightarrow> string \<Rightarrow> string option" where
  "calculateHTTPAddress Getenv raftAddr =
     (case split_on (CHR '':'') raftAddr of
        [host, p] \<Rightarrow>
          if Contains host ''.svc.cluster.local'' then Some (''http://'' @ host @ '':8080'')
          else let host = (if host = ''localhost'' then ''127.0.0.1'' else host);
                   portStr = Getenv ''HTTP_PORT'';
                   httpPort = (if portStr \<noteq> '''' then (case ParseInt portStr of Some p \<Rightarrow> p | None \<Rightarrow> 8080) else 8080)
               in Some (''http://'' @ host @ '':'' @ Sprintf_d httpPort)
      | _ \<Rightarrow> None)"

definition getHTTPAddressForRaft :: "environment \<Rightarrow> Handlers \<Rightarrow> string \<Rightarrow> string option" where
  "getHTTPAddressForRaft Getenv h raftAddr =
     (let mapped = (\<lambda>old new.
            if HasPrefix raftAddr old then fmlookup (H_addressMap h) (new @ drop (length old) raftAddr) else None)
      in case fmlookup (H_addressMap h) raftAddr of
           Some httpAddr \<Rightarrow> Some httpAddr
         | None \<Rightarrow>
             (case mapped ''localhost:'' ''127.0.0.1:'' of
                Some httpAddr \<Rightarrow> Some httpAddr
              | None \<Rightarrow>
                  (case mapped ''127.0.0.1:'' ''localhost:'' of
                     Some httpAddr \<Rightarrow> Some httpAddr
                   | None \<Rightarrow> calculateHTTPAddress Getenv raftAddr)))"

section \<open>What a handler is given\<close>

text \<open>
  The libraries, the iteration orders, the readings of the clock in the order of the code and
  the new UUID. \<open>X_NewRequest\<close> says whether \<open>http.NewRequest\<close> accepts the URL, \<open>X_Do\<close> is the
  client that forwards the request.
\<close>

record ('c, 'r) Api =
  X_env :: "('c, 'r) Env"
  X_order :: "int key_order"
  X_states :: "string key_order"
  X_time :: time_parser
  X_cron :: cron_parser
  X_regexp :: regexp_lib
  X_text :: "job_error \<Rightarrow> string"
  X_Getenv :: environment
  X_NewRequest :: "string \<Rightarrow> bool"
  X_Do :: "string \<Rightarrow> Request \<Rightarrow> Response option"
  X_uuid :: string
  X_created :: int
  X_validated :: int
  X_event :: int
  X_now :: int

definition proxyToLeader :: "('c, 'r) Api \<Rightarrow> Handlers \<Rightarrow> Request \<Rightarrow> ('c, 'r, 'z) Store_scheme \<Rightarrow> Response" where
  "proxyToLeader X h r n =
     (let leader = GetLeader (X_env X) n
      in if leader = '''' then writeError 503 ''No leader available''
         else case getHTTPAddressForRaft (X_Getenv X) h leader of
           None \<Rightarrow> writeError 503 ''Leader unavailable''
         | Some httpAddr \<Rightarrow>
             let url = httpAddr @ RQ_URI r
             in if \<not> X_NewRequest X url then writeError 500 ''Internal error''
                else case X_Do X url r of
                  None \<Rightarrow> writeError 502 ''Unable to reach leader''
                | Some resp \<Rightarrow> resp)"

section \<open>Job handlers\<close>

definition admit :: "Handlers \<Rightarrow> Job \<Rightarrow> ('c, 'r, 'z) Store_scheme \<Rightarrow> CapacityError option" where
  "admit h job n = (case H_limitManager h of None \<Rightarrow> None | Some lm \<Rightarrow> CheckCapacity lm job n)"

definition create_and_record ::
  "('c, 'r) Api \<Rightarrow> Handlers \<Rightarrow> Job \<Rightarrow> ('c, 'r, 'z) Manager_scheme \<Rightarrow> (Response \<times> ('c, 'r, 'z) Manager_scheme) option" where
  "create_and_record X h job n = do {
     (err, n) \<leftarrow> CreateJob (X_env X) (Some (eventHandler (X_env X) (X_order X) (X_event X))) job n;
     if err \<noteq> None then Some (writeError 500 ''Failed to create job'', n)
     else do {
       let n = (case H_limitManager h of None \<Rightarrow> n | Some lm \<Rightarrow> snd (RecordJobAdded (X_env X) lm job n));
       Some (respond (JobBody job), n)
     }
   }"

definition Handler_CreateJob ::
  "('c, 'r) Api \<Rightarrow> Handlers \<Rightarrow> Request \<Rightarrow> ('c, 'r, 'z) Manager_scheme
     \<Rightarrow> (Response \<times> ('c, 'r, 'z) Manager_scheme) option" where
  "Handler_CreateJob X h r n =
     (if \<not> IsLeader (X_env X) n then Some (proxyToLeader X h r n, n)
      else case RQ_Create r of
        None \<Rightarrow> Some (writeError 400 ''Invalid request body'', n)
      | Some req \<Rightarrow>
          (case ToJob (X_time X) (X_created X) (X_uuid X) req of
             Inl err \<Rightarrow>
               Some (writeError 400 (safeErrorMessage (X_regexp X) ''Invalid job data'' (Some (X_text X err)) True), n)
           | Inr job \<Rightarrow>
               (case Validate (X_cron X) (X_validated X) job of
                  Some err \<Rightarrow>
                    Some (writeError 400
                      (safeErrorMessage (X_regexp X) ''Job validation failed'' (Some (X_text X err)) True), n)
                | None \<Rightarrow>
                    (case admit h job n of
                       Some capErr \<Rightarrow>
                         Some (\<lparr>RS_Status = CapacityError_HTTPStatus capErr, RS_Body = CapacityBody capErr\<rparr>, n)
                     | None \<Rightarrow> create_and_record X h job n))))"

definition Handler_GetJob :: "Request \<Rightarrow> ('c, 'r, 'z) Store_scheme \<Rightarrow> Response" where
  "Handler_GetJob r n =
     (if RQ_ID r = '''' then writeError 400 ''Job ID is required''
      else case Store_GetJob n (RQ_ID r) of
        None \<Rightarrow> writeError 404 ''Job not found''
      | Some job \<Rightarrow> respond (JobBody job))"

definition Handler_DeleteJob ::
  "('c, 'r) Api \<Rightarrow> Handlers \<Rightarrow> Request \<Rightarrow> ('c, 'r, 'z) Manager_scheme
     \<Rightarrow> (Response \<times> ('c, 'r, 'z) Manager_scheme) option" where
  "Handler_DeleteJob X h r n =
     (if \<not> IsLeader (X_env X) n then Some (proxyToLeader X h r n, n)
      else if RQ_ID r = '''' then Some (writeError 400 ''Job ID is required'', n)
      else case Store_GetJob n (RQ_ID r) of
        None \<Rightarrow> Some (writeError 404 ''Job not found'', n)
      | Some job \<Rightarrow> do {
          (err, n) \<leftarrow> DeleteJob (X_env X) (Some (eventHandler (X_env X) (X_order X) (X_event X))) (RQ_ID r) n;
          if err \<noteq> None then Some (writeError 500 ''Failed to delete job'', n)
          else do {
            let n = (case H_limitManager h of None \<Rightarrow> n | Some lm \<Rightarrow> snd (RecordJobRemoved (X_env X) lm job n));
            Some (\<lparr>RS_Status = 204, RS_Body = NoBody\<rparr>, n)
          }
        })"

definition Handler_GetJobStatus :: "('c, 'r) Api \<Rightarrow> Request \<Rightarrow> ('c, 'r, 'z) Store_scheme \<Rightarrow> Response" where
  "Handler_GetJobStatus X r n =
     (if RQ_ID r = '''' then writeError 400 ''Job ID is required''
      else case Store_GetJob n (RQ_ID r) of
        None \<Rightarrow> writeError 404 ''Job not found''
      | Some job \<Rightarrow>
          (case GetStatus (Store_StatusStore (X_env X)) (RQ_ID r) n of
             Inr state \<Rightarrow> respond (StateBody state)
           | Inl err \<Rightarrow> respond (StateBody
               \<lparr>Exec_JobID = RQ_ID r, Exec_Status = StatusPending, Exec_AttemptCount = 0, Exec_CreatedAt = X_now X,
                Exec_FirstAttemptAt = 0, Exec_LastAttemptAt = 0, Exec_CompletedAt = 0, Exec_CancelledAt = 0,
                Exec_CancellationReason = '''', Exec_ExecutingNodeID = '''', Exec_Attempts = []\<rparr>)))"

definition Handler_GetJobExecutions :: "('c, 'r) Api \<Rightarrow> Request \<Rightarrow> ('c, 'r, 'z) Store_scheme \<Rightarrow> Response" where
  "Handler_GetJobExecutions X r n =
     (if RQ_ID r = '''' then writeError 400 ''Job ID is required''
      else case Store_GetJob n (RQ_ID r) of
        None \<Rightarrow> writeError 404 ''Job not found''
      | Some job \<Rightarrow>
          (case GetExecutionHistory (Store_StatusStore (X_env X)) (RQ_ID r) n of
             Inr attempts \<Rightarrow> respond (AttemptsBody (RQ_ID r) attempts)
           | Inl err \<Rightarrow> respond (AttemptsBody (RQ_ID r) [])))"

text \<open>The tracker that the handler makes has no callback.\<close>

definition Handler_CancelJob ::
  "('c, 'r) Api \<Rightarrow> Handlers \<Rightarrow> Request \<Rightarrow> ('c, 'r, 'z) Manager_scheme \<Rightarrow> Response \<times> ('c, 'r, 'z) Manager_scheme" where
  "Handler_CancelJob X h r n =
     (let S = Store_StatusStore (X_env X);
          i = RQ_ID r;
          reason = (case RQ_Reason r of Some text \<Rightarrow> text | None \<Rightarrow> '''')
      in if \<not> IsLeader (X_env X) n then (proxyToLeader X h r n, n)
         else if i = '''' then (writeError 400 ''Job ID is required'', n)
         else case Store_GetJob n i of
           None \<Rightarrow> (writeError 404 ''Job not found'', n)
         | Some job \<Rightarrow>
             let wasInProgress = (case GetStatus S i n of
                                    Inl err \<Rightarrow> False | Inr state \<Rightarrow> Exec_Status state = StatusInProgress);
                 n = (if wasInProgress \<and> H_executionManager h then snd (CancelJob i n) else n)
             in case MarkCancelled S None (X_now X) i reason n of
                  (Some err, n) \<Rightarrow> (writeError 500 ''Failed to cancel job'', n)
                | (None, n) \<Rightarrow>
                    (case GetStatus S i n of
                       Inl err \<Rightarrow> (writeError 500 ''Failed to get job status'', n)
                     | Inr state \<Rightarrow>
                         (respond (CancelBody i (Exec_Status state) (Exec_CancelledAt state)
                            (if wasInProgress then Some ''Job was in progress, cancellation attempted'' else None)), n)))"

fun status_of :: "string \<Rightarrow> JobStatus" where
  "status_of s =
     (if s = ''pending'' then StatusPending else if s = ''in_progress'' then StatusInProgress
      else if s = ''completed'' then StatusCompleted else if s = ''failed'' then StatusFailed
      else if s = ''cancelled'' then StatusCancelled else if s = ''timeout'' then StatusTimeout
      else OtherStatus s)"

definition Handler_ListJobsByStatus :: "('c, 'r) Api \<Rightarrow> Request \<Rightarrow> ('c, 'r, 'z) Store_scheme \<Rightarrow> Response" where
  "Handler_ListJobsByStatus X r n =
     (if RQ_Status r = '''' then writeError 400 ''status query parameter is required''
      else let status = status_of (RQ_Status r)
      in if status \<notin> {StatusPending, StatusInProgress, StatusCompleted, StatusFailed, StatusCancelled, StatusTimeout}
         then writeError 400 ''invalid status parameter''
         else let states = ListByStatus (Store_StatusStore (X_env X)) (X_states X) status n
         in respond (StatesBody states (int (length states))))"

section \<open>Cluster handlers\<close>

definition Handler_Ready :: "('c, 'r) Api \<Rightarrow> ('c, 'r, 'z) Store_scheme \<Rightarrow> Response" where
  "Handler_Ready X n =
     (if GetLeader (X_env X) n = '''' \<and> \<not> IsLeader (X_env X) n
      then \<lparr>RS_Status = 503, RS_Body = ReadyBody ''not ready''\<rparr>
      else respond (ReadyBody ''ready''))"

definition health_status :: "rat \<Rightarrow> rat option \<Rightarrow> ExecutionStats \<Rightarrow> string" where
  "health_status threshold utilization stats =
     (let status = (case utilization of Some u \<Rightarrow> if u > 90 then ''degraded'' else ''ok'' | None \<Rightarrow> ''ok'');
          finishedJobs = add64 (add64 (Stats_Completed stats) (Stats_Failed stats)) (Stats_Timeout stats)
      in if finishedJobs \<ge> 10 \<and> Stats_FailureRate stats > threshold
         then if status = ''ok'' then ''degraded''
              else if status = ''degraded'' \<and> Stats_FailureRate stats > 1 / 2 then ''unhealthy''
              else status
         else status)"

definition Handler_Health :: "('c, 'r) Api \<Rightarrow> Handlers \<Rightarrow> ('c, 'r, 'z) Store_scheme \<Rightarrow> Response" where
  "Handler_Health X h n =
     (let leader = IsLeader (X_env X) n;
          memUsage = map_option (\<lambda>lm. GetUsage (LM_memoryLimit lm) n) (H_limitManager h);
          jobStats = map_option (\<lambda>lm.
            let jobCount = Store_GetJobCount n;
                jobLimit = LM_jobLimit lm;
                jobAvailable = sub64 jobLimit jobCount;
                jobAvailable = (if jobAvailable < 0 then 0 else jobAvailable)
            in \<lparr>JS_Count = jobCount, JS_Limit = jobLimit, JS_Available = jobAvailable\<rparr>) (H_limitManager h);
          execStats = GetExecutionStats (Store_StatusStore (X_env X)) (X_states X) n;
          status = health_status (H_healthFailureThreshold h) (map_option Utilization memUsage) execStats;
          response = \<lparr>HL_Status = status, HL_Role = (if leader then ''leader'' else ''follower''),
            HL_Leader = (if leader then '''' else GetLeader (X_env X) n), HL_NodeID = St_nodeID n,
            HL_Memory = memUsage, HL_Jobs = jobStats, HL_Execution = Some execStats\<rparr>
      in \<lparr>RS_Status = (if status = ''unhealthy'' then 503 else 200), RS_Body = HealthBody response\<rparr>)"

definition Handler_ClusterDebug :: "('c, 'r) Api \<Rightarrow> ('c, 'r, 'z) Store_scheme \<Rightarrow> Response" where
  "Handler_ClusterDebug X n =
     respond (DebugBody \<lparr>CD_NodeID = St_nodeID n, CD_IsLeader = IsLeader (X_env X) n,
       CD_Leader = GetLeader (X_env X) n, CD_RaftState = GetRaftState (X_env X) n,
       CD_Servers = GetClusterConfiguration (X_env X) n, CD_JobCount = map_len (Store_GetAllJobs n)\<rparr>)"

definition Handler_JoinCluster ::
  "('c, 'r) Api \<Rightarrow> Request \<Rightarrow> ('c, 'r, 'z) Store_scheme \<Rightarrow> Response \<times> ('c, 'r, 'z) Store_scheme" where
  "Handler_JoinCluster X r n =
     (if \<not> IsLeader (X_env X) n then (writeError 403 ''not leader, cannot accept join requests'', n)
      else case RQ_Join r of
        None \<Rightarrow> (writeError 400 ''Invalid request body'', n)
      | Some (nodeID, address) \<Rightarrow>
          if nodeID = '''' \<or> address = '''' then (writeError 400 ''node_id and address are required'', n)
          else case AddPeer (X_env X) nodeID address n of
            (Some err, n) \<Rightarrow> (writeError 500 ''Failed to join cluster'', n)
          | (None, n) \<Rightarrow> (respond (JoinBody True (''Node '' @ nodeID @ '' successfully joined cluster'')), n))"

section \<open>Routes\<close>

datatype endpoint =
    EP_CreateJob | EP_ListJobsByStatus | EP_GetJob | EP_DeleteJob | EP_GetJobStatus | EP_GetJobExecutions
  | EP_CancelJob | EP_Health | EP_JoinCluster | EP_ClusterDebug

definition routes :: "(string \<times> string \<times> endpoint) list" where
  "routes =
     [(''/jobs'', ''POST'', EP_CreateJob), (''/jobs'', ''GET'', EP_ListJobsByStatus),
      (''/jobs/{id}'', ''GET'', EP_GetJob), (''/jobs/{id}'', ''DELETE'', EP_DeleteJob),
      (''/jobs/{id}/status'', ''GET'', EP_GetJobStatus), (''/jobs/{id}/executions'', ''GET'', EP_GetJobExecutions),
      (''/jobs/{id}/cancel'', ''POST'', EP_CancelJob), (''/health'', ''GET'', EP_Health),
      (''/join'', ''POST'', EP_JoinCluster), (''/debug/cluster'', ''GET'', EP_ClusterDebug)]"

definition authMiddleware ::
  "string \<Rightarrow> (Request \<Rightarrow> 's \<Rightarrow> Response \<times> 's) \<Rightarrow> Request \<Rightarrow> 's \<Rightarrow> Response \<times> 's" where
  "authMiddleware expectedToken handler r s =
     (if expectedToken = '''' then handler r s
      else let auth = RQ_Authorization r;
               unauthorized = \<lparr>RS_Status = 401, RS_Body = ErrorBody ''unauthorized''\<rparr>
      in if \<not> HasPrefix auth ''Bearer '' then (unauthorized, s)
         else if drop (length ''Bearer '') auth \<noteq> expectedToken then (unauthorized, s)
         else handler r s)"

definition corsMiddleware :: "(Request \<Rightarrow> 's \<Rightarrow> (Response \<times> 's) option) \<Rightarrow> Request \<Rightarrow> 's \<Rightarrow> (Response \<times> 's) option" where
  "corsMiddleware handler r s =
     (if RQ_Method r = ''OPTIONS'' then Some (\<lparr>RS_Status = 200, RS_Body = NoBody\<rparr>, s) else handler r s)"

text \<open>
  The handler of an endpoint that the router has matched, inside the middleware. The size
  limit shows as a decoding error of the body; the metrics and logging middleware
  are in \<open>Measurements\<close>.
\<close>

fun endpoint_handler ::
  "('c, 'r) Api \<Rightarrow> Handlers \<Rightarrow> string \<Rightarrow> endpoint \<Rightarrow> Request \<Rightarrow> ('c, 'r, 'z) Manager_scheme
     \<Rightarrow> (Response \<times> ('c, 'r, 'z) Manager_scheme) option" where
  "endpoint_handler X h authToken EP_CreateJob r n = Handler_CreateJob X h r n"
| "endpoint_handler X h authToken EP_ListJobsByStatus r n = Some (Handler_ListJobsByStatus X r n, n)"
| "endpoint_handler X h authToken EP_GetJob r n = Some (Handler_GetJob r n, n)"
| "endpoint_handler X h authToken EP_DeleteJob r n = Handler_DeleteJob X h r n"
| "endpoint_handler X h authToken EP_GetJobStatus r n = Some (Handler_GetJobStatus X r n, n)"
| "endpoint_handler X h authToken EP_GetJobExecutions r n = Some (Handler_GetJobExecutions X r n, n)"
| "endpoint_handler X h authToken EP_CancelJob r n = Some (Handler_CancelJob X h r n)"
| "endpoint_handler X h authToken EP_Health r n = Some (Handler_Health X h n, n)"
| "endpoint_handler X h authToken EP_JoinCluster r n = Some (authMiddleware authToken (Handler_JoinCluster X) r n)"
| "endpoint_handler X h authToken EP_ClusterDebug r n = Some (Handler_ClusterDebug X n, n)"

definition serve ::
  "('c, 'r) Api \<Rightarrow> Handlers \<Rightarrow> string \<Rightarrow> endpoint \<Rightarrow> Request \<Rightarrow> ('c, 'r, 'z) Manager_scheme
     \<Rightarrow> (Response \<times> ('c, 'r, 'z) Manager_scheme) option" where
  "serve X h authToken e = corsMiddleware (endpoint_handler X h authToken e)"


section \<open>A job on its way through the node\<close>

text \<open>What one creation does on a steady leader: \<open>new\<close> is the node afterwards.\<close>

definition took_in ::
  "('c, 'r) Env \<Rightarrow> ('r \<Rightarrow> bool) \<Rightarrow> Job \<Rightarrow> int \<Rightarrow> int \<Rightarrow> ('c, 'r, 'z) Manager_scheme \<Rightarrow> ('c, 'r, 'z) Manager_scheme \<Rightarrow> bool" where
  "took_in E P job ts sz n new \<longleftrightarrow> queue_ok new \<and> P (St_raft new) \<and> Q_slotGap new = Q_slotGap n \<and>
     jobs (St_fsm new) = fmupd (Job_ID job) (wire_Job job) (jobs (St_fsm n)) \<and>
     executionStates (St_fsm new) = fmupd (Job_ID job) (new_execution_state (Job_ID job) (Job_CreatedAt job)) (executionStates (St_fsm n)) \<and>
     (let key = ts div seconds64 (Q_slotGap n); d = slot_with E n key (Job_ID job)
      in Q_jobToSlot new = fmupd (Job_ID job) key (Q_jobToSlot n) \<and>
         slots (St_fsm new) = fmupd (Slot_Key d) d (slots (St_fsm n)) \<and>
         held (Q_wheel new) = insert key (held (Q_wheel n)) \<and> coverage (Q_wheel new) = coverage (Q_wheel n)) \<and>
     EM_maxAttempts new = EM_maxAttempts n \<and> EM_nodeID new = EM_nodeID n \<and>
     memoryUsage (St_fsm new) = memoryUsage (St_fsm n) + sz \<and> jobCount (St_fsm new) = jobCount (St_fsm n) + (if sz = 0 then 0 else 1)"

lemma CreateJob_takes_in:
  assumes "steady_raft (raft_lib E) P" "P (St_raft n)" "queue_ok n" "0 \<le> now" "now < time_bound"
    and "job_time job = Some ts" "0 \<le> ts" "ts < time_bound"
  shows "\<exists>new. CreateJob E (Some (eventHandler E order now)) job n = Some (None, new) \<and> took_in E P job ts 0 n new"
proof -
  let ?cmd = "zero_Command\<lparr>Cmd_Type := CommandCreateJob, Cmd_Job := Some job\<rparr>"
  obtain n1 where n1: "raftApply E ?cmd n = (None, n1)" "P (St_raft n1)" "Q_wheel n1 = Q_wheel n"
      "Q_slotGap n1 = Q_slotGap n"
      "St_fsm n1 = snd (applyCommandInternal (cold_lib E) (wire_Command ?cmd) (St_fsm n))"
    using steady_write [OF assms(1,2)] .
  have map: "Q_jobToSlot n1 = Q_jobToSlot n" using raftApply_queue [of E ?cmd n] n1(1) by simp
  have q1: "queue_ok n1" using assms(3) n1(3,4) by (simp add: queue_ok_def)
  let ?key = "ts div seconds64 (Q_slotGap n1)"
  let ?d = "slot_with E n1 ?key (Job_ID job)"
  obtain w w0 where w: "AddJob E now job n1 = Some ((if_leader E (CreateSlot E ?d) (n1\<lparr>Q_wheel := w0\<rparr>))
        \<lparr>Q_jobToSlot := fmupd (Job_ID job) ?key (Q_jobToSlot n1), Q_wheel := w\<rparr>)"
    "wheel_good w" "slotGapSeconds w = seconds64 (Q_slotGap n1)" "held w = insert ?key (held (Q_wheel n1))"
    using AddJob_ok [OF q1 assms(4-8)] by blast
  have cov: "coverage w = coverage (Q_wheel n)"
    using coverage_shape [OF AddJob_shape [OF w(1)]] n1(3) by simp
  have slot: "?d = slot_with E n (ts div seconds64 (Q_slotGap n)) (Job_ID job)"
    using n1(4,5) by (simp add: slot_with_def Store_GetSlot_def GetSlot_def IsSlotCold_def applyCommandInternal_def applyCreateJob_def
        cong: option.case_cong)
  have em: "EM_maxAttempts n1 = EM_maxAttempts n" "EM_nodeID n1 = EM_nodeID n"
    using wrote_manager [OF wrote_raftApply, of E ?cmd n] n1(1) by simp_all
  note S = steady_CreateSlot [OF assms(1), of "n1\<lparr>Q_wheel := w0\<rparr>" ?d]
  have lead: "IsLeader E n" "IsLeader E n1"
    using steady_raftApply(1) [OF assms(1)] assms(2) n1(2) by blast+
  then have "CreateJob E (Some (eventHandler E order now)) job n = map_option (Pair None) (AddJob E now job n1)"
    using n1(1) by (simp add: CreateJob_def eventHandler_def)
  moreover have "took_in E P job ts 0 n ((if_leader E (CreateSlot E ?d) (n1\<lparr>Q_wheel := w0\<rparr>))
        \<lparr>Q_jobToSlot := fmupd (Job_ID job) ?key (Q_jobToSlot n1), Q_wheel := w\<rparr>)"
    using w(2-4) S n1(2-5) map cov slot em
    by (simp add: took_in_def queue_ok_def applyCommandInternal_def applyCreateJob_def if_leader_manager Let_def)
  ultimately show ?thesis using w(1) by simp
qed

lemma RecordJobAdded_steady:
  assumes "steady_raft (raft_lib E) P" "P (St_raft n)" "0 \<le> memoryUsage (St_fsm n)" "0 \<le> jobCount (St_fsm n)"
    and "sz = CalculateSize (LM_sizeCalculator lm) job" "0 < sz"
    and "in64 (memoryUsage (St_fsm n) + sz)" "in64 (jobCount (St_fsm n) + 1)"
  shows "\<exists>new. RecordJobAdded E lm job n = (None, new) \<and> P (St_raft new) \<and> Q_wheel new = Q_wheel n \<and>
     Q_slotGap new = Q_slotGap n \<and> Q_jobToSlot new = Q_jobToSlot n \<and>
     EM_maxAttempts new = EM_maxAttempts n \<and> EM_nodeID new = EM_nodeID n \<and>
     St_fsm new = (St_fsm n)\<lparr>memoryUsage := memoryUsage (St_fsm n) + sz, jobCount := jobCount (St_fsm n) + 1\<rparr>"
proof -
  let ?m = "zero_Command\<lparr>Cmd_Type := CommandUpdateMemoryUsage, Cmd_MemoryDelta := sz\<rparr>"
    and ?c = "zero_Command\<lparr>Cmd_Type := CommandUpdateJobCount, Cmd_JobCountDelta := 1\<rparr>"
  obtain n1 where n1: "raftApply E ?m n = (None, n1)" "P (St_raft n1)" "Q_wheel n1 = Q_wheel n" "Q_slotGap n1 = Q_slotGap n"
      "St_fsm n1 = snd (applyCommandInternal (cold_lib E) (wire_Command ?m) (St_fsm n))"
    using steady_write [OF assms(1,2)] .
  obtain n2 where n2: "raftApply E ?c n1 = (None, n2)" "P (St_raft n2)" "Q_wheel n2 = Q_wheel n1" "Q_slotGap n2 = Q_slotGap n1"
      "St_fsm n2 = snd (applyCommandInternal (cold_lib E) (wire_Command ?c) (St_fsm n1))"
    using steady_write [OF assms(1) n1(2)] .
  have lead: "IsLeader E n" "IsLeader E n1" using steady_raftApply(1) [OF assms(1)] assms(2) n1(2) by blast+
  have f1: "St_fsm n1 = (St_fsm n)\<lparr>memoryUsage := memoryUsage (St_fsm n) + sz\<rparr>"
    using n1(5) assms(3,6,7) by (simp add: applyCommandInternal_def applyMemoryUpdate_def add64_id Let_def)
  have f2: "St_fsm n2 = (St_fsm n1)\<lparr>jobCount := jobCount (St_fsm n) + 1\<rparr>"
    using n2(5) f1 assms(4,8) by (simp add: applyCommandInternal_def applyJobCountUpdate_def add64_id Let_def)
  have "Q_jobToSlot n2 = Q_jobToSlot n"
    using raftApply_queue [of E ?m n] raftApply_queue [of E ?c n1] n1(1) n2(1) by simp
  moreover have "RecordJobAdded E lm job n = (None, n2)"
    using n1(1) n2(1) lead assms(5)
    by (simp add: RecordJobAdded_def IncrementUsage_def UpdateMemoryUsage_def Counter_Increment_def UpdateJobCount_def Let_def)
  moreover have "EM_maxAttempts n2 = EM_maxAttempts n" "EM_nodeID n2 = EM_nodeID n"
    using wrote_manager [OF wrote_raftApply, of E ?m n] wrote_manager [OF wrote_raftApply, of E ?c n1] n1(1) n2(1)
    by simp_all
  ultimately show ?thesis using n1(3,4) n2(2-4) f1 f2 by simp
qed

lemma create_and_record_steady:
  assumes "steady_raft (raft_lib (X_env X)) P" "P (St_raft n)" "queue_ok n" "0 \<le> X_event X" "X_event X < time_bound"
    and "job_time job = Some ts" "0 \<le> ts" "ts < time_bound" "H_limitManager h = Some lm"
    and "sz = CalculateSize (LM_sizeCalculator lm) job" "0 < sz"
    and "0 \<le> memoryUsage (St_fsm n)" "0 \<le> jobCount (St_fsm n)"
    and "in64 (memoryUsage (St_fsm n) + sz)" "in64 (jobCount (St_fsm n) + 1)"
  shows "\<exists>new. create_and_record X h job n = Some (respond (JobBody job), new) \<and> took_in (X_env X) P job ts sz n new"
proof -
  obtain n1 where n1: "CreateJob (X_env X) (Some (eventHandler (X_env X) (X_order X) (X_event X))) job n = Some (None, n1)"
      "took_in (X_env X) P job ts 0 n n1"
    using CreateJob_takes_in [OF assms(1-8)] by blast
  obtain new where "RecordJobAdded (X_env X) lm job n1 = (None, new)" "P (St_raft new)" "Q_wheel new = Q_wheel n1"
     "Q_slotGap new = Q_slotGap n1" "Q_jobToSlot new = Q_jobToSlot n1" "EM_maxAttempts new = EM_maxAttempts n1"
     "EM_nodeID new = EM_nodeID n1" "St_fsm new = (St_fsm n1)\<lparr>memoryUsage := memoryUsage (St_fsm n1) + sz, jobCount := jobCount (St_fsm n1) + 1\<rparr>"
    using RecordJobAdded_steady [OF assms(1) _ _ _ assms(10,11), of n1] n1(2) assms(12-15) by (auto simp: took_in_def)
  then show ?thesis
    using n1 assms(9,11) by (simp add: create_and_record_def took_in_def queue_ok_def Let_def)
qed

text \<open>A job that opens its slot.\<close>

lemma took_in_new_slot:
  assumes "took_in E P job ts sz n new" "queue_ok n" "0 \<le> ts" "ts < time_bound"
    and "key = ts div seconds64 (Q_slotGap n)" "Store_GetSlot E n key = None"
  shows "queue_ok new" "P (St_raft new)" "Q_slotGap new = Q_slotGap n"
    "jobs (St_fsm new) = fmupd (Job_ID job) (wire_Job job) (jobs (St_fsm n))"
    "fmlookup (executionStates (St_fsm new)) (Job_ID job) = Some (new_execution_state (Job_ID job) (Job_CreatedAt job))"
    "fmlookup (slots (St_fsm new)) key = Some (new_slot key (seconds64 (Q_slotGap n)) (Job_ID job))"
    "held (Q_wheel new) = insert key (held (Q_wheel n))" "coverage (Q_wheel new) = coverage (Q_wheel n)"
    "EM_maxAttempts new = EM_maxAttempts n"
proof -
  have "slot_with E n key (Job_ID job) = new_slot key (seconds64 (Q_slotGap n)) (Job_ID job)"
    using assms(6) by (simp add: slot_with_def)
  with assms(1,5) new_slot_covers(3) [OF assms(2-4), of "Job_ID job"]
  show "queue_ok new" "P (St_raft new)" "Q_slotGap new = Q_slotGap n"
    "jobs (St_fsm new) = fmupd (Job_ID job) (wire_Job job) (jobs (St_fsm n))"
    "fmlookup (executionStates (St_fsm new)) (Job_ID job) = Some (new_execution_state (Job_ID job) (Job_CreatedAt job))"
    "fmlookup (slots (St_fsm new)) key = Some (new_slot key (seconds64 (Q_slotGap n)) (Job_ID job))"
    "held (Q_wheel new) = insert key (held (Q_wheel n))" "coverage (Q_wheel new) = coverage (Q_wheel n)"
    "EM_maxAttempts new = EM_maxAttempts n"
    by (simp_all add: took_in_def Let_def)
qed

lemma admit_iff:
  assumes "H_limitManager h = Some lm" "in64 (memoryUsage (St_fsm n) + CalculateSize (LM_sizeCalculator lm) job)"
  shows "admit h job n = None \<longleftrightarrow>
     memoryUsage (St_fsm n) + CalculateSize (LM_sizeCalculator lm) job \<le> LM_memoryLimit lm \<and>
     jobCount (St_fsm n) < LM_jobLimit lm"
  using assms
  by (auto simp: admit_def CheckCapacity_def Memory_CheckCapacity_def Counter_CheckCapacity_def GetUsage_def Let_def
      add64_id split: option.splits if_splits)


lemma bearer_iff: "HasPrefix s p \<and> drop (length p) s = t \<longleftrightarrow> s = p @ t"
  by (metis HasPrefix_def append_eq_conv_conj append_take_drop_id)

text \<open>A request that passes every check.\<close>

lemma Handler_CreateJob_steady:
  assumes "steady_raft (raft_lib (X_env X)) P" "P (St_raft n)" "queue_ok n" "0 \<le> X_event X" "X_event X < time_bound"
    and "RQ_Create r = Some req" "ToJob (X_time X) (X_created X) (X_uuid X) req = Inr job"
    and "Validate (X_cron X) (X_validated X) job = None" "admit h job n = None"
    and "job_time job = Some ts" "0 \<le> ts" "ts < time_bound"
    and "H_limitManager h = Some lm" "LM_sizeCalculator lm = NewSizeCalculator" "text_size job < 9223372036854775616"
    and "0 \<le> memoryUsage (St_fsm n)" "0 \<le> jobCount (St_fsm n)" "in64 (LM_jobLimit lm)"
    and "in64 (memoryUsage (St_fsm n) + CalculateSize NewSizeCalculator job)"
  shows "\<exists>new. Handler_CreateJob X h r n = Some (respond (JobBody job), new) \<and>
     took_in (X_env X) P job ts (CalculateSize NewSizeCalculator job) n new"
    "0 < CalculateSize NewSizeCalculator job"
    "memoryUsage (St_fsm n) + CalculateSize NewSizeCalculator job \<le> LM_memoryLimit lm"
    "jobCount (St_fsm n) < LM_jobLimit lm"
proof -
  show z: "0 < CalculateSize NewSizeCalculator job"
    using CalculateSize_eq [OF assms(15)] text_size_nonneg [of job] by (simp add: add_pos_nonneg)
  show "memoryUsage (St_fsm n) + CalculateSize NewSizeCalculator job \<le> LM_memoryLimit lm"
    and fits: "jobCount (St_fsm n) < LM_jobLimit lm"
    using admit_iff [OF assms(13), of n job] assms(9,14,19) by simp_all
  then have c: "in64 (jobCount (St_fsm n) + 1)" using assms(17,18) by (simp add: in64_def)
  have "Handler_CreateJob X h r n = create_and_record X h job n"
    using steady_raftApply(1) [OF assms(1,2)] assms(6-9) by (simp add: Handler_CreateJob_def)
  then show "\<exists>new. Handler_CreateJob X h r n = Some (respond (JobBody job), new) \<and>
     took_in (X_env X) P job ts (CalculateSize NewSizeCalculator job) n new"
    using create_and_record_steady [OF assms(1-5,10-13) refl _ assms(16,17) _ c] z assms(14,19) by auto
qed

section \<open>Properties\<close>


definition no_regexp :: regexp_lib where
  "no_regexp = \<lparr>ip_ReplaceFunc = (\<lambda>f s. s), path_Replace = (\<lambda>new s. s), raft_Replace = (\<lambda>new s. s),
     is_IP = (\<lambda>s. False)\<rparr>"

definition sample_api :: "(disk, solo) Api" where
  "sample_api = \<lparr>X_env = solo_env, X_order = sorted_list_of_set, X_states = sorted_list_of_set,
     X_time = (\<lambda>layout s. None), X_cron = (\<lambda>s. None), X_regexp = no_regexp, X_text = (\<lambda>e. ''''),
     X_Getenv = (\<lambda>key. ''''), X_NewRequest = (\<lambda>url. True), X_Do = (\<lambda>url r. None), X_uuid = ''u'',
     X_created = 90, X_validated = 95, X_event = 100, X_now = 100\<rparr>"

definition sample_handlers :: Handlers where
  "sample_handlers = NewHandlers (\<lambda>key. '''') (Some sample_limits) True (1 / 10)"

definition sample_create :: CreateJobRequest where
  "sample_create = \<lparr>Req_ID = ''a'', Req_Type = JobUnico, Req_Timestamp = ''105'', Req_CronExpr = '''',
     Req_LastDate = '''', Req_WebhookURL = '''', Req_Payload = None\<rparr>"

definition sample_request :: Request where
  "sample_request = \<lparr>RQ_Method = ''POST'', RQ_URI = ''/jobs'', RQ_ID = '''', RQ_Status = '''', RQ_Authorization = '''',
     RQ_Create = Some sample_create, RQ_Join = None, RQ_Reason = None\<rparr>"

lemma sample_ToJob: "ToJob (X_time sample_api) (X_created sample_api) (X_uuid sample_api) sample_create = Inr sample_job"
  by code_simp

lemma sample_facts [simp]:
  "X_env sample_api = solo_env" "X_event sample_api = 100" "RQ_Create sample_request = Some sample_create"
  "H_limitManager sample_handlers = Some sample_limits" "job_time sample_job = Some 105"
  "Validate (X_cron sample_api) (X_validated sample_api) sample_job = None"
  "LM_sizeCalculator sample_limits = NewSizeCalculator" "text_size sample_job < 9223372036854775616"
  by (simp_all add: sample_api_def sample_request_def sample_handlers_def NewHandlers_def sample_job_def job_time_def
      Validate_def sample_limits_def text_size_def)







text \<open>With a token configured, nobody joins without it: a join request whose header is not exactly the
  bearer token is answered with 401 and changes nothing; with the token it reaches the handler.\<close>
theorem join_needs_token:
  assumes "token \<noteq> ''''" "RQ_Method r \<noteq> ''OPTIONS''"
  shows "serve X h token EP_JoinCluster r n =
     (if RQ_Authorization r = ''Bearer '' @ token then Some (Handler_JoinCluster X r n)
      else Some (\<lparr>RS_Status = 401, RS_Body = ErrorBody ''unauthorized''\<rparr>, n))"
  using assms bearer_iff [of "RQ_Authorization r" "''Bearer ''" token]
  by (auto simp: serve_def corsMiddleware_def authMiddleware_def Let_def)

lemma join_needs_token_witness:
  "serve sample_api sample_handlers ''secret'' EP_JoinCluster sample_request (solo_manager True NewFSM) =
     Some (\<lparr>RS_Status = 401, RS_Body = ErrorBody ''unauthorized''\<rparr>, solo_manager True NewFSM)"
  using join_needs_token [of "''secret''" sample_request sample_api sample_handlers "solo_manager True NewFSM"]
  by (simp add: sample_request_def)



end
