(* ===== verification/Simulator.thy ===== *)
theory Simulator
  imports Slot_Worker
begin

text \<open>
  The simulator of \<open>internal/simulator\<close> (\<open>clock.go\<close>, \<open>executor.go\<close>, \<open>worker.go\<close>,
  \<open>simulator.go\<close>), which \<open>cmd/wasm\<close> exposes to a browser: a state machine without Raft, a clock
  that is moved by hand, a timing wheel, and an executor that draws its outcomes. The shared
  pointers of the Go structs are one record. Random numbers, the wall clock, the UUID and the
  cron parser are arguments; a float is an exact rational, and a conversion to \<open>int64\<close>
  truncates (the result out of range, which depends on the platform, is left out).
\<close>

section \<open>Clock\<close>

record SimulatedClock =
  CL_now :: int
  CL_speed :: rat

definition truncate_rat :: "rat \<Rightarrow> int" where
  "truncate_rat q = (if q \<ge> 0 then \<lfloor>q\<rfloor> else - \<lfloor>- q\<rfloor>)"

definition NewSimulatedClock :: "int \<Rightarrow> int \<Rightarrow> SimulatedClock" where
  "NewSimulatedClock wall startAt = \<lparr>CL_now = (if startAt = 0 then wall else startAt), CL_speed = 1\<rparr>"

definition Clock_SetSpeed :: "rat \<Rightarrow> SimulatedClock \<Rightarrow> SimulatedClock" where
  "Clock_SetSpeed speed c = c\<lparr>CL_speed := (if speed < 0 then 0 else speed)\<rparr>"

definition Clock_SetTime :: "int \<Rightarrow> SimulatedClock \<Rightarrow> SimulatedClock" where
  "Clock_SetTime t c = c\<lparr>CL_now := t\<rparr>"

definition Clock_Advance :: "rat \<Rightarrow> SimulatedClock \<Rightarrow> SimulatedClock" where
  "Clock_Advance seconds c = c\<lparr>CL_now := add64 (CL_now c) (truncate_rat (seconds * CL_speed c))\<rparr>"

definition Clock_Tick :: "rat \<Rightarrow> SimulatedClock \<Rightarrow> int \<times> SimulatedClock" where
  "Clock_Tick elapsed c =
     (let c = c\<lparr>CL_now := add64 (CL_now c) (truncate_rat (elapsed * CL_speed c))\<rparr> in (CL_now c, c))"

section \<open>Executor\<close>

record ExecutionResult =
  ER_JobID :: string
  ER_Success :: bool
  ER_ResponseTime :: int
  ER_Timestamp :: int

record SimulatedExecutor =
  SX_successRate :: rat
  SX_latencyMs :: int
  SX_execLog :: "ExecutionResult list"
  SX_logCapacity :: nat

definition clamp_rate :: "rat \<Rightarrow> rat" where
  "clamp_rate rate = (let rate = (if rate < 0 then 0 else rate) in if rate > 1 then 1 else rate)"

definition NewSimulatedExecutor :: "rat \<Rightarrow> int \<Rightarrow> SimulatedExecutor" where
  "NewSimulatedExecutor successRate latencyMs =
     \<lparr>SX_successRate = clamp_rate successRate, SX_latencyMs = (if latencyMs < 0 then 0 else latencyMs),
      SX_execLog = [], SX_logCapacity = 200\<rparr>"

definition Executor_SetSuccessRate :: "rat \<Rightarrow> SimulatedExecutor \<Rightarrow> SimulatedExecutor" where
  "Executor_SetSuccessRate rate e = e\<lparr>SX_successRate := clamp_rate rate\<rparr>"

definition appendLog :: "ExecutionResult \<Rightarrow> SimulatedExecutor \<Rightarrow> SimulatedExecutor" where
  "appendLog result e =
     (let log = SX_execLog e @ [result]
      in e\<lparr>SX_execLog := (if length log > SX_logCapacity e then drop (length log - SX_logCapacity e) log else log)\<rparr>)"

text \<open>\<open>draw\<close> is what \<open>rand.Int63n\<close> and \<open>rand.Float64\<close> return.\<close>

definition Executor_Execute ::
  "int \<times> rat \<Rightarrow> Job \<Rightarrow> int \<Rightarrow> SimulatedExecutor \<Rightarrow> ExecutionResult \<times> SimulatedExecutor" where
  "Executor_Execute draw job now e =
     (let jitter = (if SX_latencyMs e > 0 then fst draw else 0);
          success = snd draw < SX_successRate e;
          result = \<lparr>ER_JobID = Job_ID job, ER_Success = success, ER_ResponseTime = add64 (SX_latencyMs e) jitter,
                    ER_Timestamp = now\<rparr>
      in (result, appendLog result e))"

definition GetLog :: "SimulatedExecutor \<Rightarrow> ExecutionResult list" where
  "GetLog e = SX_execLog e"

definition GetLogSince :: "int \<Rightarrow> SimulatedExecutor \<Rightarrow> ExecutionResult list" where
  "GetLogSince since e = dropWhile (\<lambda>entry. \<not> ER_Timestamp entry \<ge> since) (SX_execLog e)"

definition ClearLog :: "SimulatedExecutor \<Rightarrow> SimulatedExecutor" where
  "ClearLog e = e\<lparr>SX_execLog := []\<rparr>"

section \<open>State\<close>

record TickResult =
  TR_ExecutedJobs :: "ExecutionResult list"
  TR_Rescheduled :: "string list"
  TR_ReadySlots :: int

record SimConfig =
  SimCfg_SlotGap :: Duration
  SimCfg_SuccessRate :: rat
  SimCfg_LatencyMs :: int
  SimCfg_WheelConfigs :: "WheelLevelConfig list"

definition DefaultConfig :: SimConfig where
  "DefaultConfig = \<lparr>SimCfg_SlotGap = DefaultSlotGap, SimCfg_SuccessRate = 95 / 100, SimCfg_LatencyMs = 100,
     SimCfg_WheelConfigs = []\<rparr>"

record 'c Simulator =
  SM_fsm :: "'c FSM"
  SM_clock :: SimulatedClock
  SM_wheel :: HierarchicalTimingWheel
  SM_executor :: SimulatedExecutor
  SM_slotGap :: Duration
  SM_tickLog :: "TickResult list"

definition NewSimulator :: "int \<Rightarrow> SimConfig \<Rightarrow> 'c Simulator option" where
  "NewSimulator now cfg =
     (let cfg = (if SimCfg_SlotGap cfg = 0 then cfg\<lparr>SimCfg_SlotGap := DefaultSlotGap\<rparr> else cfg);
          cfg = (if SimCfg_SuccessRate cfg = 0 then cfg\<lparr>SimCfg_SuccessRate := 95 / 100\<rparr> else cfg);
          configs = (if SimCfg_WheelConfigs cfg = [] then DefaultWheelConfigs (SimCfg_SlotGap cfg)
                     else SimCfg_WheelConfigs cfg)
      in do {
        wheel \<leftarrow> NewHierarchicalTimingWheel (SimCfg_SlotGap cfg) configs;
        wheel \<leftarrow> wheel_Init now wheel;
        Some \<lparr>SM_fsm = NewFSM, SM_clock = NewSimulatedClock now now, SM_wheel = wheel,
              SM_executor = NewSimulatedExecutor (SimCfg_SuccessRate cfg) (SimCfg_LatencyMs cfg),
              SM_slotGap = SimCfg_SlotGap cfg, SM_tickLog = []\<rparr>
      })"

definition gap_seconds :: "Duration \<Rightarrow> int" where
  "gap_seconds slotGap =
     (let slotGapSec = seconds64 slotGap in if slotGapSec = 0 then seconds64 DefaultSlotGap else slotGapSec)"

section \<open>Worker\<close>

definition sim_shouldExecute :: "Job \<Rightarrow> int \<Rightarrow> bool" where
  "sim_shouldExecute job now \<longleftrightarrow>
     (if Job_Type job = JobUnico \<and> Job_Timestamp job \<noteq> None then the (Job_Timestamp job) \<le> now
      else if Job_Type job = JobRecurrente then Job_CreatedAt job \<le> now
      else False)"

definition sim_calculateNextExecution :: "cron_parser \<Rightarrow> Job \<Rightarrow> int \<Rightarrow> int" where
  "sim_calculateNextExecution cron job now =
     (case cron (Job_CronExpr job) of
        None \<Rightarrow> 0
      | Some schedule \<Rightarrow>
          let nextTs = schedule now
          in case Job_LastDate job of
               Some lastDate \<Rightarrow> if nextTs > lastDate then 0 else nextTs
             | None \<Rightarrow> nextTs)"

definition worker_addToWheel :: "Job \<Rightarrow> 'c Simulator \<Rightarrow> 'c Simulator option" where
  "worker_addToWheel job s =
     (case job_time job of
        None \<Rightarrow> Some s
      | Some ts \<Rightarrow> do {
          key \<leftarrow> div64 ts (gap_seconds (SM_slotGap s));
          wheel \<leftarrow> wheel_Add key (SM_wheel s);
          Some (s\<lparr>SM_wheel := wheel\<rparr>)
        })"

text \<open>The body that \<open>updateSlotInFSM\<close> of the worker and \<open>addToWheel\<close> of the simulator share.\<close>

definition file_in_slot :: "'c ColdSlotStore \<Rightarrow> Job \<Rightarrow> 'c Simulator \<Rightarrow> 'c Simulator option" where
  "file_in_slot C job s =
     (case job_time job of
        None \<Rightarrow> Some s
      | Some ts \<Rightarrow> do {
          let slotGapSec = gap_seconds (SM_slotGap s);
          key \<leftarrow> div64 ts slotGapSec;
          let slotData = (case GetSlot C (SM_fsm s) key of
                            None \<Rightarrow> new_slot key slotGapSec (Job_ID job)
                          | Some slotData \<Rightarrow> slotData\<lparr>Slot_JobIDs := Slot_JobIDs slotData @ [Job_ID job]\<rparr>);
          Some (s\<lparr>SM_fsm := snd (ApplyCommand C
            (zero_Command\<lparr>Cmd_Type := CommandCreateSlot, Cmd_Slot := Some slotData\<rparr>) (SM_fsm s))\<rparr>)
        })"

definition updateSlotInFSM :: "'c ColdSlotStore \<Rightarrow> Job \<Rightarrow> 'c Simulator \<Rightarrow> 'c Simulator option" where
  "updateSlotInFSM C job s = file_in_slot C job s"

definition apply_sim :: "'c ColdSlotStore \<Rightarrow> Command \<Rightarrow> 'c Simulator \<Rightarrow> 'c Simulator" where
  "apply_sim C cmd s = s\<lparr>SM_fsm := snd (ApplyCommand C cmd (SM_fsm s))\<rparr>"

text \<open>The body of the loop over the jobs of a slot; the draws are numbered by the results so far.\<close>

definition simulate_job ::
  "'c ColdSlotStore \<Rightarrow> cron_parser \<Rightarrow> (nat \<Rightarrow> int \<times> rat) \<Rightarrow> int \<Rightarrow> string \<Rightarrow> TickResult \<times> 'c Simulator
     \<Rightarrow> (TickResult \<times> 'c Simulator) option" where
  "simulate_job C cron draw now jobID st =
     (let (result, s) = st
      in case GetJob (SM_fsm s) jobID of
           None \<Rightarrow> Some (result, s)
         | Some job \<Rightarrow>
             if \<not> sim_shouldExecute job now then Some (result, s)
             else do {
               let (execResult, e) = Executor_Execute (draw (length (TR_ExecutedJobs result))) job now (SM_executor s);
               let s = s\<lparr>SM_executor := e\<rparr>;
               let result = result\<lparr>TR_ExecutedJobs := TR_ExecutedJobs result @ [execResult]\<rparr>;
               let delete = zero_Command\<lparr>Cmd_Type := CommandDeleteJob, Cmd_ID := jobID\<rparr>;
               if Job_Type job = JobUnico then Some (result, apply_sim C delete s)
               else if Job_Type job = JobRecurrente then
                 let nextTs = sim_calculateNextExecution cron job now
                 in if nextTs > 0 then do {
                      let s = apply_sim C delete s;
                      let rescheduled = job\<lparr>Job_CreatedAt := nextTs\<rparr>;
                      let s = apply_sim C (zero_Command\<lparr>Cmd_Type := CommandCreateJob, Cmd_Job := Some rescheduled\<rparr>) s;
                      s \<leftarrow> worker_addToWheel rescheduled s;
                      s \<leftarrow> updateSlotInFSM C rescheduled s;
                      Some (result\<lparr>TR_Rescheduled := TR_Rescheduled result @ [jobID]\<rparr>, s)
                    }
                    else Some (result, apply_sim C delete s)
               else Some (result, s)
             })"

definition remove_key :: "int \<Rightarrow> 'c Simulator \<Rightarrow> 'c Simulator option" where
  "remove_key slotKey s = map_option (\<lambda>w. s\<lparr>SM_wheel := w\<rparr>) (wheel_Remove slotKey (SM_wheel s))"

definition simulate_slot ::
  "'c ColdSlotStore \<Rightarrow> cron_parser \<Rightarrow> (nat \<Rightarrow> int \<times> rat) \<Rightarrow> int \<Rightarrow> int \<Rightarrow> TickResult \<times> 'c Simulator
     \<Rightarrow> (TickResult \<times> 'c Simulator) option" where
  "simulate_slot C cron draw now slotKey st =
     (let (result, s) = st;
          ids = (case GetSlot C (SM_fsm s) slotKey of None \<Rightarrow> [] | Some slotData \<Rightarrow> Slot_JobIDs slotData)
      in do {
        (result, s) \<leftarrow> each (simulate_job C cron draw now) ids (result, s);
        s \<leftarrow> remove_key slotKey s;
        Some (result, s)
      })"

definition ProcessTick ::
  "'c ColdSlotStore \<Rightarrow> int key_order \<Rightarrow> cron_parser \<Rightarrow> (nat \<Rightarrow> int \<times> rat) \<Rightarrow> 'c Simulator
     \<Rightarrow> (TickResult \<times> 'c Simulator) option" where
  "ProcessTick C order cron draw s = do {
     let now = CL_now (SM_clock s);
     (readyKeys, wheel) \<leftarrow> wheel_Advance order now (SM_wheel s);
     each (simulate_slot C cron draw now) readyKeys
       (\<lparr>TR_ExecutedJobs = [], TR_Rescheduled = [], TR_ReadySlots = int (length readyKeys)\<rparr>, s\<lparr>SM_wheel := wheel\<rparr>)
   }"

section \<open>Operations\<close>

definition Sim_addToWheel :: "'c ColdSlotStore \<Rightarrow> Job \<Rightarrow> 'c Simulator \<Rightarrow> 'c Simulator option" where
  "Sim_addToWheel C job s = file_in_slot C job s"

datatype sim_error = InvalidRequest job_error | ApplyError fsm_error

definition Sim_CreateJob ::
  "'c ColdSlotStore \<Rightarrow> time_parser \<Rightarrow> int \<Rightarrow> string \<Rightarrow> CreateJobRequest \<Rightarrow> 'c Simulator
     \<Rightarrow> ((sim_error + Job) \<times> 'c Simulator) option" where
  "Sim_CreateJob C tp now uuid req s =
     (case ToJob tp now uuid req of
        Inl err \<Rightarrow> Some (Inl (InvalidRequest err), s)
      | Inr job \<Rightarrow>
          let cmd = zero_Command\<lparr>Cmd_Type := CommandCreateJob, Cmd_Job := Some job\<rparr>
          in case fst (ApplyCommand C cmd (SM_fsm s)) of
               RError err \<Rightarrow> Some (Inl (ApplyError err), apply_sim C cmd s)
             | _ \<Rightarrow> map_option (Pair (Inr job)) (Sim_addToWheel C job (apply_sim C cmd s)))"

definition Sim_DeleteJob :: "'c ColdSlotStore \<Rightarrow> string \<Rightarrow> 'c Simulator \<Rightarrow> sim_error option \<times> 'c Simulator" where
  "Sim_DeleteJob C i s =
     (let cmd = zero_Command\<lparr>Cmd_Type := CommandDeleteJob, Cmd_ID := i\<rparr>
      in (case fst (ApplyCommand C cmd (SM_fsm s)) of RError err \<Rightarrow> Some (ApplyError err) | _ \<Rightarrow> None,
          apply_sim C cmd s))"

definition Sim_Tick ::
  "'c ColdSlotStore \<Rightarrow> int key_order \<Rightarrow> cron_parser \<Rightarrow> (nat \<Rightarrow> int \<times> rat) \<Rightarrow> 'c Simulator
     \<Rightarrow> (TickResult \<times> 'c Simulator) option" where
  "Sim_Tick C order cron draw s = do {
     (result, s) \<leftarrow> ProcessTick C order cron draw s;
     let tickLog = SM_tickLog s @ [result];
     Some (result, s\<lparr>SM_tickLog := (if length tickLog > 200 then drop (length tickLog - 200) tickLog else tickLog)\<rparr>)
   }"

definition AdvanceTime :: "rat \<Rightarrow> 'c Simulator \<Rightarrow> int \<times> 'c Simulator" where
  "AdvanceTime seconds s = (let (now, c) = Clock_Tick seconds (SM_clock s) in (now, s\<lparr>SM_clock := c\<rparr>))"

definition SetClockSpeed :: "rat \<Rightarrow> 'c Simulator \<Rightarrow> 'c Simulator" where
  "SetClockSpeed speed s = s\<lparr>SM_clock := Clock_SetSpeed speed (SM_clock s)\<rparr>"

definition Sim_SetTime :: "int \<Rightarrow> 'c Simulator \<Rightarrow> 'c Simulator" where
  "Sim_SetTime t s = s\<lparr>SM_clock := Clock_SetTime t (SM_clock s)\<rparr>"

definition Sim_SetSuccessRate :: "rat \<Rightarrow> 'c Simulator \<Rightarrow> 'c Simulator" where
  "Sim_SetSuccessRate rate s = s\<lparr>SM_executor := Executor_SetSuccessRate rate (SM_executor s)\<rparr>"

record SimState =
  SS_Now :: int
  SS_ClockSpeed :: rat
  SS_Jobs :: "(string, Job) fmap"
  SS_Slots :: "(int, SlotData) fmap"
  SS_ExecutionStates :: "(string, JobExecutionState) fmap"
  SS_WheelSize :: int
  SS_ExecLog :: "ExecutionResult list"
  SS_TickCount :: int
  SS_TotalExecuted :: int
  SS_TotalRescheduled :: int

definition GetState :: "'c Simulator \<Rightarrow> SimState" where
  "GetState s =
     \<lparr>SS_Now = CL_now (SM_clock s), SS_ClockSpeed = CL_speed (SM_clock s),
      SS_Jobs = jobs (SM_fsm s), SS_Slots = slots (SM_fsm s), SS_ExecutionStates = executionStates (SM_fsm s),
      SS_WheelSize = wheel_Size (SM_wheel s), SS_ExecLog = GetLog (SM_executor s),
      SS_TickCount = int (length (SM_tickLog s)),
      SS_TotalExecuted = sum_list (map (\<lambda>tr. int (length (TR_ExecutedJobs tr))) (SM_tickLog s)),
      SS_TotalRescheduled = sum_list (map (\<lambda>tr. int (length (TR_Rescheduled tr))) (SM_tickLog s))\<rparr>"

definition Sim_Reset :: "int \<Rightarrow> 'c Simulator \<Rightarrow> 'c Simulator option" where
  "Sim_Reset now s = do {
     wheel \<leftarrow> wheel_Init now (wheel_Reset (SM_wheel s));
     Some (s\<lparr>SM_fsm := NewFSM, SM_clock := Clock_SetTime now (SM_clock s), SM_wheel := wheel,
            SM_executor := ClearLog (SM_executor s), SM_tickLog := []\<rparr>)
   }"


section \<open>Reachable simulators\<close>

text \<open>The operations in any order; the clock stays within the range of the wheel when it is used.\<close>

inductive sim_reachable :: "'c ColdSlotStore \<Rightarrow> int key_order \<Rightarrow> int \<Rightarrow> 'c Simulator \<Rightarrow> bool"
  for C :: "'c ColdSlotStore" and order :: "int key_order" and g :: int where
  new: "SimCfg_SlotGap cfg = g * Second \<Longrightarrow> SimCfg_WheelConfigs cfg = [] \<Longrightarrow> 0 \<le> now \<Longrightarrow> now < time_bound \<Longrightarrow>
    NewSimulator now cfg = Some s \<Longrightarrow> sim_reachable C order g s"
| create: "sim_reachable C order g s \<Longrightarrow> Sim_CreateJob C tp now uuid req s = Some (r, s') \<Longrightarrow> sim_reachable C order g s'"
| delete: "sim_reachable C order g s \<Longrightarrow> sim_reachable C order g (snd (Sim_DeleteJob C i s))"
| tick: "sim_reachable C order g s \<Longrightarrow> 0 \<le> CL_now (SM_clock s) \<Longrightarrow> CL_now (SM_clock s) < time_bound \<Longrightarrow>
    Sim_Tick C order cron draw s = Some (r, s') \<Longrightarrow> sim_reachable C order g s'"
| time: "sim_reachable C order g s \<Longrightarrow> sim_reachable C order g (snd (AdvanceTime x s))"
| speed: "sim_reachable C order g s \<Longrightarrow> sim_reachable C order g (SetClockSpeed x s)"
| set_time: "sim_reachable C order g s \<Longrightarrow> sim_reachable C order g (Sim_SetTime t s)"
| rate: "sim_reachable C order g s \<Longrightarrow> sim_reachable C order g (Sim_SetSuccessRate x s)"
| reset: "sim_reachable C order g s \<Longrightarrow> 0 \<le> now \<Longrightarrow> now < time_bound \<Longrightarrow> Sim_Reset now s = Some s' \<Longrightarrow>
    sim_reachable C order g s'"

definition idle :: "'c Simulator \<Rightarrow> bool" where
  "idle s \<longleftrightarrow> wheel_good (SM_wheel s) \<and> held (SM_wheel s) = {}"

lemma file_keeps_wheel: "file_in_slot C job s = Some s' \<Longrightarrow> SM_wheel s' = SM_wheel s"
  by (auto simp: file_in_slot_def Let_def bind_eq_Some_conv split: option.splits)

lemma apply_keeps_wheel [simp]: "SM_wheel (apply_sim C cmd s) = SM_wheel s"
  by (simp add: apply_sim_def)

lemma create_keeps_wheel:
  assumes "Sim_CreateJob C tp now uuid req s = Some (r, s')"
  shows "SM_wheel s' = SM_wheel s"
  using assms
  by (auto simp: Sim_CreateJob_def Sim_addToWheel_def Let_def dest: file_keeps_wheel split: sum.splits apply_result.splits)

lemma idle_tick:
  assumes "range_order order" "idle s" "0 \<le> CL_now (SM_clock s)" "CL_now (SM_clock s) < time_bound"
  shows "\<exists>s'. Sim_Tick C order cron draw s = Some (\<lparr>TR_ExecutedJobs = [], TR_Rescheduled = [], TR_ReadySlots = 0\<rparr>, s') \<and>
     idle s' \<and> SM_fsm s' = SM_fsm s \<and> SM_executor s' = SM_executor s"
proof -
  obtain ready w where w: "wheel_Advance order (CL_now (SM_clock s)) (SM_wheel s) = Some (ready, w)" "wheel_good w"
      "held (SM_wheel s) = held w \<union> set ready"
    using slot_index.advance_law [OF wheel_slot_index [OF assms(1)]] assms(2-4) unfolding idle_def by blast
  then have "ready = []" "held w = {}" using assms(2) by (auto simp: idle_def)
  then show ?thesis using w by (auto simp: Sim_Tick_def ProcessTick_def idle_def Let_def)
qed

lemma idle_new:
  assumes "SimCfg_SlotGap cfg = g * Second" "SimCfg_WheelConfigs cfg = []" "0 \<le> now" "now < time_bound"
    and "0 < g" "g * 3153600 < time_bound div 1000000000"
  shows "\<exists>s. NewSimulator now cfg = Some s"
    "NewSimulator now cfg = Some s \<Longrightarrow> idle s \<and> SM_clock s = NewSimulatedClock now now \<and> SM_fsm s = NewFSM \<and>
       SM_slotGap s = g * Second"
proof -
  obtain w where w: "NewHierarchicalTimingWheel (g * Second) (DefaultWheelConfigs (g * Second)) = Some w"
      "wheel_good w" "held w = {}" using default_wheel_good [OF assms(5,6)] by blast
  obtain w' where "wheel_Init now w = Some w'" "wheel_good w'" "held w' = {}"
    using wheel.init_law [OF w(2) assms(3,4)] w(3) by auto
  then show "\<exists>s. NewSimulator now cfg = Some s"
    "NewSimulator now cfg = Some s \<Longrightarrow> idle s \<and> SM_clock s = NewSimulatedClock now now \<and> SM_fsm s = NewFSM \<and>
       SM_slotGap s = g * Second"
    using w(1) assms(1,2,5)
    by (cases "SimCfg_SuccessRate cfg = 0"; auto simp: NewSimulator_def idle_def Second_def Let_def)+
qed

lemma reachable_idle:
  assumes "sim_reachable C order g s" "range_order order" "0 < g" "g * 3153600 < time_bound div 1000000000"
  shows "idle s"
  using assms(1)
proof (induction rule: sim_reachable.induct)
  case (new cfg now s)
  then show ?case using idle_new(2) [OF new(1-4) assms(3,4)] by blast
next
  case (create s tp now uuid req r s')
  then show ?case using create_keeps_wheel [OF create(2)] by (simp add: idle_def)
next
  case (tick s cron draw r s')
  then show ?case using idle_tick [OF assms(2), of s C cron draw] by auto
next
  case (reset s now s')
  note R = wheel_Reset_ok [of "SM_wheel s"]
  have good: "wheel_good (SM_wheel s)" using reset.IH by (simp add: idle_def)
  obtain w where "wheel_Init now (wheel_Reset (SM_wheel s)) = Some w" "wheel_good w" "held w = {}"
    using wheel.init_law [OF R(1) [OF good] reset(2,3)] R(2) [OF good] by auto
  then show ?case using reset(4) by (auto simp: Sim_Reset_def idle_def)
qed (simp_all add: idle_def Sim_DeleteJob_def AdvanceTime_def Clock_Tick_def SetClockSpeed_def Sim_SetTime_def
    Sim_SetSuccessRate_def Let_def)


section \<open>Properties\<close>

text \<open>A simulated job never runs: creating a job files it in its slot but does not add the slot to
  the wheel, so in every reachable state a tick finds no slot ready, executes nothing and leaves
  the jobs as they are, however far the clock has moved.\<close>
theorem simulated_jobs_never_run:
  assumes "sim_reachable C order g s" "range_order order" "0 < g" "g * 3153600 < time_bound div 1000000000"
    and "0 \<le> CL_now (SM_clock s)" "CL_now (SM_clock s) < time_bound"
  shows "\<exists>s'. Sim_Tick C order cron draw s =
      Some (\<lparr>TR_ExecutedJobs = [], TR_Rescheduled = [], TR_ReadySlots = 0\<rparr>, s') \<and>
     SM_fsm s' = SM_fsm s \<and> SM_executor s' = SM_executor s"
  using idle_tick [OF assms(2) reachable_idle [OF assms(1-4)] assms(5,6)] by blast

definition sim_request :: CreateJobRequest where
  "sim_request = \<lparr>Req_ID = ''a'', Req_Type = JobUnico, Req_Timestamp = ''105'', Req_CronExpr = '''',
     Req_LastDate = '''', Req_WebhookURL = '''', Req_Payload = None\<rparr>"

text \<open>A job for the second 105, and a tick at the second 200.\<close>

lemma simulated_jobs_never_run_witness:
  "\<exists>(s0 :: disk Simulator) s1 s'. NewSimulator 100 DefaultConfig = Some s0 \<and>
     Sim_CreateJob memory_archive (\<lambda>l t. None) 90 ''u'' sim_request s0 = Some (Inr sample_job, s1) \<and>
     Sim_Tick memory_archive sorted_list_of_set (\<lambda>c. None) (\<lambda>i. (0, 0)) (Sim_SetTime 200 s1) =
       Some (\<lparr>TR_ExecutedJobs = [], TR_Rescheduled = [], TR_ReadySlots = 0\<rparr>, s') \<and>
     GetJob (SM_fsm s') ''a'' = Some sample_job"
proof -
  have cfg: "SimCfg_SlotGap DefaultConfig = 10 * Second" "SimCfg_WheelConfigs DefaultConfig = []"
    by (simp_all add: DefaultConfig_def DefaultSlotGap_def)
  obtain s0 :: "disk Simulator" where s0: "NewSimulator 100 DefaultConfig = Some s0"
    using idle_new(1) [OF cfg, of 100] by auto
  have f0: "SM_fsm s0 = NewFSM" "SM_slotGap s0 = 10 * Second"
    using idle_new(2) [OF cfg _ _ _ _ s0] by auto
  have j: "ToJob (\<lambda>l t. None) 90 ''u'' sim_request = Inr sample_job" by code_simp
  have t: "job_time sample_job = Some 105" "div64 105 (gap_seconds (10 * Second)) = Some 10" by code_simp+
  obtain s1 where s1: "Sim_CreateJob memory_archive (\<lambda>l t. None) 90 ''u'' sim_request s0 = Some (Inr sample_job, s1)"
      "GetJob (SM_fsm s1) ''a'' = Some sample_job"
    using f0 t by (auto simp: Sim_CreateJob_def j Sim_addToWheel_def file_in_slot_def apply_sim_def ApplyCommand_def
        applyCommandInternal_def applyCreateJob_def applyCreateSlot_def GetJob_def NewFSM_def Let_def sample_job_def)
  have "sim_reachable memory_archive sorted_list_of_set 10 (Sim_SetTime 200 s1)"
    by (rule sim_reachable.set_time, rule sim_reachable.create [OF sim_reachable.new [OF cfg _ _ s0] s1(1)]) simp_all
  from simulated_jobs_never_run [OF this range_order_sorted, of "\<lambda>c. None" "\<lambda>i. (0, 0)"]
  show ?thesis using s0 s1 by (auto simp: Sim_SetTime_def Clock_SetTime_def)
qed

lemma drop_last:
  "drop (length (drop (length a - c) a @ b) - c) (drop (length a - c) a @ b) = drop (length (a @ b) - c) (a @ b)"
proof (cases "c \<le> length a")
  case True
  then have "drop (length b) (drop (length a - c) a @ b) = drop (length b) (drop (length a - c) (a @ b))" by simp
  also have "\<dots> = drop (length (a @ b) - c) (a @ b)" using True by (simp only: drop_drop) (simp add: add.commute)
  finally show ?thesis using True by simp
qed simp

text \<open>The log of the executor holds the latest results: after any number of executions it is the end
  of the whole sequence, of at most 200 entries.\<close>
theorem exec_log_keeps_latest:
  assumes "length (SX_execLog e) \<le> SX_logCapacity e"
  shows "GetLog (fold appendLog rs e) =
     drop (length (SX_execLog e @ rs) - SX_logCapacity e) (SX_execLog e @ rs)"
  using assms
proof (induction rs arbitrary: e)
  case Nil
  then show ?case by (simp add: GetLog_def)
next
  case (Cons r rs)
  let ?e = "appendLog r e"
  have c: "SX_logCapacity ?e = SX_logCapacity e" by (simp add: appendLog_def Let_def)
  have l: "SX_execLog ?e = drop (length (SX_execLog e @ [r]) - SX_logCapacity e) (SX_execLog e @ [r])"
    by (simp add: appendLog_def Let_def)
  then have "length (SX_execLog ?e) \<le> SX_logCapacity ?e" using c by simp
  from Cons.IH [OF this] show ?case
    using drop_last [of "SX_execLog e @ [r]" "SX_logCapacity e" rs] c l by (simp del: drop_append)
qed

text \<open>The simulator schedules as the worker does: the same jobs are due and the same next instances
  are computed.\<close>
theorem simulator_agrees_with_worker:
  "sim_shouldExecute job now = shouldExecuteJob job now \<and>
   sim_calculateNextExecution cron job now = calculateNextExecution cron job now"
  unfolding sim_shouldExecute_def shouldExecuteJob_def isTimeForRecurringJob_def sim_calculateNextExecution_def
    calculateNextExecution_def by simp




lemma exec_log_keeps_latest_witness:
  "GetLog (fold appendLog (map (\<lambda>i. \<lparr>ER_JobID = ''a'', ER_Success = True, ER_ResponseTime = i, ER_Timestamp = 0\<rparr>) [1, 2, 3])
     ((NewSimulatedExecutor 1 0)\<lparr>SX_logCapacity := 2\<rparr>)) =
   map (\<lambda>i. \<lparr>ER_JobID = ''a'', ER_Success = True, ER_ResponseTime = i, ER_Timestamp = 0\<rparr>) [2, 3]"
  using exec_log_keeps_latest [of "(NewSimulatedExecutor 1 0)\<lparr>SX_logCapacity := 2\<rparr>"
      "map (\<lambda>i. \<lparr>ER_JobID = ''a'', ER_Success = True, ER_ResponseTime = i, ER_Timestamp = 0\<rparr>) [1, 2, 3]"]
  by (simp add: NewSimulatedExecutor_def)

end
