(* ===== verification/Metrics.thy ===== *)
theory Metrics
  imports Job_Types
begin

text \<open>
  The metrics of \<open>internal/metrics\<close> (\<open>metrics.go\<close>, \<open>setup.go\<close>): the table of instruments that
  \<open>NewMetrics\<close> creates and the methods that add to them. OpenTelemetry is outside: creating an
  instrument is a parameter that may fail, and an instrument is the list of the measurements
  that were made on it, so the state is one log. A counter or an up-down counter reports the
  sum of its measurements per set of attributes. The receiver \<open>m\<close> is a pointer, \<open>None\<close> when it is
  nil; a method returns \<open>None\<close> when it panics, on a nil receiver or on an instrument that was
  never created. Seconds are exact rationals.
\<close>

section \<open>Instruments\<close>

datatype instrument_kind =
    Int64Counter | Int64UpDownCounter | Float64UpDownCounter | Int64Histogram | Float64Histogram |
    Float64ObservableGauge

datatype instrument =
    JobsTotal | JobsExecuted | JobsDeleted | JobsFailed | JobExecutionDuration | JobsActive |
    JobsScheduled | JobsByType | SlotsTotal | SlotsActive | SlotsProcessed |
    SlotProcessingDuration | JobsPerSlot | WorkerActive | WorkerProcessingTime |
    WorkerIdleTime | WorkerErrors | ClusterNodes | ClusterLeaderChanges | ClusterJoinEvents |
    ClusterLeaveEvents | RaftOperations | RaftErrors | RaftLeaderElections |
    ClusterSplitBrainEvents | HTTPRequests | HTTPRequestDuration | HTTPProxyRequests |
    HTTPErrors | DiscoveryEvents | DiscoveryErrors | DiscoveryOperations | NodesDiscovered |
    WebhookRequests | WebhookErrors | WebhookDuration | JobsByStatus | ExecutionFailures |
    RetryCount | StatusQueryLatency | SystemStartTime | SystemUptime | QueueMemoryUsage |
    QueueMemoryLimit | QueueJobCount | QueueJobLimit | JobRejections | QueueMemoryUtilization

text \<open>The arguments of one call of the meter, without the description.\<close>

datatype instrument_spec =
  Spec (spec_field: instrument) (spec_kind: instrument_kind) (spec_name: string) (spec_unit: string)
    (spec_boundaries: "rat list")

definition job_instruments :: "instrument_spec list" where
  "job_instruments =
     [Spec JobsTotal Int64Counter ''jobs_total'' ''{job}'' [],
      Spec JobsExecuted Int64Counter ''jobs_executed_total'' ''{job}'' [],
      Spec JobsDeleted Int64Counter ''jobs_deleted_total'' ''{job}'' [],
      Spec JobsFailed Int64Counter ''jobs_failed_total'' ''{job}'' [],
      Spec JobExecutionDuration Float64Histogram ''job_execution_duration_seconds'' ''s''
        [1 / 100, 1 / 10, 5 / 10, 1, 5, 10, 30, 60, 300],
      Spec JobsActive Int64UpDownCounter ''jobs_active'' ''{job}'' [],
      Spec JobsScheduled Int64UpDownCounter ''jobs_scheduled'' ''{job}'' [],
      Spec JobsByType Int64UpDownCounter ''jobs_by_type'' ''{job}'' []]"

definition slot_instruments :: "instrument_spec list" where
  "slot_instruments =
     [Spec SlotsTotal Int64UpDownCounter ''slots_total'' ''{slot}'' [],
      Spec SlotsActive Int64UpDownCounter ''slots_active'' ''{slot}'' [],
      Spec SlotsProcessed Int64Counter ''slots_processed_total'' ''{slot}'' [],
      Spec SlotProcessingDuration Float64Histogram ''slot_processing_duration_seconds'' ''s''
        [1 / 1000, 1 / 100, 1 / 10, 5 / 10, 1, 5, 10],
      Spec JobsPerSlot Int64Histogram ''jobs_per_slot'' ''{job}'' [1, 2, 5, 10, 20, 50, 100]]"

definition worker_instruments :: "instrument_spec list" where
  "worker_instruments =
     [Spec WorkerActive Int64UpDownCounter ''worker_active'' ''{worker}'' [],
      Spec WorkerProcessingTime Float64Histogram ''worker_processing_time_seconds'' ''s''
        [1 / 1000, 1 / 100, 1 / 10, 1, 5, 10, 30],
      Spec WorkerIdleTime Float64Histogram ''worker_idle_time_seconds'' ''s''
        [1 / 10, 5 / 10, 1, 5, 10, 30, 60],
      Spec WorkerErrors Int64Counter ''worker_errors_total'' ''{error}'' []]"

definition cluster_instruments :: "instrument_spec list" where
  "cluster_instruments =
     [Spec ClusterNodes Int64UpDownCounter ''cluster_nodes'' ''{node}'' [],
      Spec ClusterLeaderChanges Int64Counter ''cluster_leader_changes_total'' ''{change}'' [],
      Spec ClusterJoinEvents Int64Counter ''cluster_join_events_total'' ''{event}'' [],
      Spec ClusterLeaveEvents Int64Counter ''cluster_leave_events_total'' ''{event}'' [],
      Spec RaftOperations Int64Counter ''raft_operations_total'' ''{operation}'' [],
      Spec RaftErrors Int64Counter ''raft_errors_total'' ''{error}'' [],
      Spec RaftLeaderElections Int64Counter ''raft_leader_elections_total'' ''{election}'' [],
      Spec ClusterSplitBrainEvents Int64Counter ''cluster_split_brain_events_total'' ''{event}''
        []]"

definition http_instruments :: "instrument_spec list" where
  "http_instruments =
     [Spec HTTPRequests Int64Counter ''http_requests_total'' ''{request}'' [],
      Spec HTTPRequestDuration Float64Histogram ''http_request_duration_seconds'' ''s''
        [1 / 1000, 1 / 100, 1 / 10, 5 / 10, 1, 5, 10, 30],
      Spec HTTPProxyRequests Int64Counter ''http_proxy_requests_total'' ''{request}'' [],
      Spec HTTPErrors Int64Counter ''http_errors_total'' ''{error}'' []]"

definition discovery_instruments :: "instrument_spec list" where
  "discovery_instruments =
     [Spec DiscoveryEvents Int64Counter ''discovery_events_total'' ''{event}'' [],
      Spec DiscoveryErrors Int64Counter ''discovery_errors_total'' ''{error}'' [],
      Spec DiscoveryOperations Int64Counter ''discovery_operations_total'' ''{operation}'' [],
      Spec NodesDiscovered Int64UpDownCounter ''nodes_discovered'' ''{node}'' []]"

definition webhook_instruments :: "instrument_spec list" where
  "webhook_instruments =
     [Spec WebhookRequests Int64Counter ''webhook_requests_total'' ''{request}'' [],
      Spec WebhookErrors Int64Counter ''webhook_errors_total'' ''{error}'' [],
      Spec WebhookDuration Float64Histogram ''webhook_duration_seconds'' ''s''
        [1 / 10, 5 / 10, 1, 5, 10, 30, 60]]"

definition status_instruments :: "instrument_spec list" where
  "status_instruments =
     [Spec JobsByStatus Int64UpDownCounter ''jobs_by_status'' ''{job}'' [],
      Spec ExecutionFailures Int64Counter ''execution_failures_total'' ''{failure}'' [],
      Spec RetryCount Int64Histogram ''retry_count'' ''{retry}'' [0, 1, 2, 3, 5, 10],
      Spec StatusQueryLatency Float64Histogram ''status_query_duration_seconds'' ''s''
        [1 / 1000, 1 / 100, 1 / 10, 5 / 10, 1, 5, 10]]"

definition system_instruments :: "instrument_spec list" where
  "system_instruments =
     [Spec SystemStartTime Float64ObservableGauge ''system_start_time_seconds'' ''s'' [],
      Spec SystemUptime Float64ObservableGauge ''system_uptime_seconds'' ''s'' []]"

definition queue_instruments :: "instrument_spec list" where
  "queue_instruments =
     [Spec QueueMemoryUsage Int64UpDownCounter ''queue_memory_usage_bytes'' ''By'' [],
      Spec QueueMemoryLimit Int64UpDownCounter ''queue_memory_limit_bytes'' ''By'' [],
      Spec QueueJobCount Int64UpDownCounter ''queue_job_count'' ''{job}'' [],
      Spec QueueJobLimit Int64UpDownCounter ''queue_job_limit'' ''{job}'' [],
      Spec JobRejections Int64Counter ''job_rejections_total'' ''{rejection}'' [],
      Spec QueueMemoryUtilization Float64UpDownCounter ''queue_memory_utilization_percent'' ''%''
        []]"

definition all_instruments :: "instrument_spec list" where
  "all_instruments = job_instruments @ slot_instruments @ worker_instruments @ cluster_instruments @
     http_instruments @ discovery_instruments @ webhook_instruments @ status_instruments @
     system_instruments @ queue_instruments"

section \<open>State\<close>

datatype attribute = AString string | AInt int

type_synonym attributes = "(string \<times> attribute) list"

record measurement =
  M_instrument :: instrument
  M_value :: rat
  M_attributes :: attributes

text \<open>\<open>M_fields\<close> are the fields of the struct that hold an instrument.\<close>

record Metrics =
  M_fields :: "instrument set"
  M_log :: "measurement list"

type_synonym metrics = "Metrics option"

text \<open>\<open>meter\<close> creates an instrument or returns an error.\<close>

fun create_instruments ::
  "(instrument_spec \<Rightarrow> string option) \<Rightarrow> instrument_spec list \<Rightarrow> Metrics \<Rightarrow> string + Metrics" where
  "create_instruments meter [] m = Inr m"
| "create_instruments meter (spec # specs) m =
     (case meter spec of
        Some err \<Rightarrow> Inl err
      | None \<Rightarrow> create_instruments meter specs (m\<lparr>M_fields := insert (spec_field spec) (M_fields m)\<rparr>))"

definition NewMetrics :: "(instrument_spec \<Rightarrow> string option) \<Rightarrow> string + metrics" where
  "NewMetrics meter =
     (case create_instruments meter all_instruments \<lparr>M_fields = {}, M_log = []\<rparr> of
        Inl err \<Rightarrow> Inl err | Inr m \<Rightarrow> Inr (Some m))"

text \<open>\<open>m.I.Add(ctx, v, attributes)\<close> or \<open>m.I.Record(ctx, v, attributes)\<close>.\<close>

definition observe :: "instrument \<Rightarrow> rat \<Rightarrow> attributes \<Rightarrow> metrics \<Rightarrow> metrics option" where
  "observe i v as m =
     (case m of
        None \<Rightarrow> None
      | Some mt \<Rightarrow>
          if i \<in> M_fields mt
          then Some (Some (mt\<lparr>M_log := M_log mt @ [\<lparr>M_instrument = i, M_value = v, M_attributes = as\<rparr>]\<rparr>))
          else None)"

definition Seconds :: "Duration \<Rightarrow> rat" where
  "Seconds d = of_int d / 1000000000"

section \<open>Methods\<close>

definition IncrementJobsCreated :: "string \<Rightarrow> metrics \<Rightarrow> metrics option" where
  "IncrementJobsCreated jobType m = do {
     m \<leftarrow> observe JobsTotal 1 [(''job_type'', AString jobType)] m;
     observe JobsByType 1 [(''job_type'', AString jobType)] m
   }"

definition IncrementJobsExecuted :: "string \<Rightarrow> bool \<Rightarrow> metrics \<Rightarrow> metrics option" where
  "IncrementJobsExecuted jobType success m =
     (if success then observe JobsExecuted 1 [(''job_type'', AString jobType)] m
      else observe JobsFailed 1 [(''job_type'', AString jobType)] m)"

definition RecordJobExecutionDuration :: "Duration \<Rightarrow> string \<Rightarrow> metrics \<Rightarrow> metrics option" where
  "RecordJobExecutionDuration duration jobType m = observe JobExecutionDuration (Seconds duration) [(''job_type'', AString jobType)] m"

definition IncrementJobsDeleted :: "string \<Rightarrow> metrics \<Rightarrow> metrics option" where
  "IncrementJobsDeleted jobType m = do {
     m \<leftarrow> observe JobsDeleted 1 [(''job_type'', AString jobType)] m;
     observe JobsByType (- 1) [(''job_type'', AString jobType)] m
   }"

definition SetActiveJobs :: "int \<Rightarrow> metrics \<Rightarrow> metrics option" where
  "SetActiveJobs count m = observe JobsActive (of_int count) [] m"

definition IncrementSlotsCreated :: "metrics \<Rightarrow> metrics option" where
  "IncrementSlotsCreated m = observe SlotsTotal 1 [] m"

definition IncrementSlotsDeleted :: "metrics \<Rightarrow> metrics option" where
  "IncrementSlotsDeleted m = observe SlotsTotal (- 1) [] m"

definition IncrementSlotsProcessed :: "int \<Rightarrow> metrics \<Rightarrow> metrics option" where
  "IncrementSlotsProcessed jobCount m = do {
     m \<leftarrow> observe SlotsProcessed 1 [] m;
     observe JobsPerSlot (of_int jobCount) [] m
   }"

definition RecordSlotProcessingDuration :: "Duration \<Rightarrow> metrics \<Rightarrow> metrics option" where
  "RecordSlotProcessingDuration duration m = observe SlotProcessingDuration (Seconds duration) [] m"

definition SetActiveSlots :: "int \<Rightarrow> metrics \<Rightarrow> metrics option" where
  "SetActiveSlots count m = observe SlotsActive (of_int count) [] m"

definition SetWorkerActive :: "bool \<Rightarrow> metrics \<Rightarrow> metrics option" where
  "SetWorkerActive active m =
     (let value = (if active then 1 else 0) in observe WorkerActive value [] m)"

definition RecordWorkerProcessingTime :: "Duration \<Rightarrow> metrics \<Rightarrow> metrics option" where
  "RecordWorkerProcessingTime duration m = observe WorkerProcessingTime (Seconds duration) [] m"

definition RecordWorkerIdleTime :: "Duration \<Rightarrow> metrics \<Rightarrow> metrics option" where
  "RecordWorkerIdleTime duration m = observe WorkerIdleTime (Seconds duration) [] m"

definition IncrementWorkerErrors :: "string \<Rightarrow> metrics \<Rightarrow> metrics option" where
  "IncrementWorkerErrors errorType m = observe WorkerErrors 1 [(''error_type'', AString errorType)] m"

definition SetClusterNodes :: "int \<Rightarrow> metrics \<Rightarrow> metrics option" where
  "SetClusterNodes count m = observe ClusterNodes (of_int count) [] m"

definition IncrementLeaderChanges :: "string \<Rightarrow> string \<Rightarrow> metrics \<Rightarrow> metrics option" where
  "IncrementLeaderChanges oldLeader newLeader m =
     observe ClusterLeaderChanges 1 [(''old_leader'', AString oldLeader), (''new_leader'', AString newLeader)] m"

definition IncrementClusterJoin :: "string \<Rightarrow> metrics \<Rightarrow> metrics option" where
  "IncrementClusterJoin nodeID m = observe ClusterJoinEvents 1 [(''node_id'', AString nodeID)] m"

definition IncrementClusterLeave :: "string \<Rightarrow> metrics \<Rightarrow> metrics option" where
  "IncrementClusterLeave nodeID m = observe ClusterLeaveEvents 1 [(''node_id'', AString nodeID)] m"

definition outcome_name :: "bool \<Rightarrow> string" where
  "outcome_name success = (if success then ''success'' else ''error'')"

definition IncrementRaftOperation :: "string \<Rightarrow> bool \<Rightarrow> metrics \<Rightarrow> metrics option" where
  "IncrementRaftOperation operation success m = do {
     m \<leftarrow> (if success then Some m else observe RaftErrors 1 [(''operation'', AString operation)] m);
     observe RaftOperations 1 [(''operation'', AString operation), (''status'', AString (outcome_name success))] m
   }"

definition IncrementLeaderElections :: "metrics \<Rightarrow> metrics option" where
  "IncrementLeaderElections m = observe RaftLeaderElections 1 [] m"

definition IncrementSplitBrainEvents :: "metrics \<Rightarrow> metrics option" where
  "IncrementSplitBrainEvents m = observe ClusterSplitBrainEvents 1 [] m"

definition IncrementHTTPRequests :: "string \<Rightarrow> string \<Rightarrow> int \<Rightarrow> metrics \<Rightarrow> metrics option" where
  "IncrementHTTPRequests method endpoint statusCode m = do {
     m \<leftarrow> observe HTTPRequests 1 [(''method'', AString method), (''endpoint'', AString endpoint), (''status_code'', AInt statusCode)] m;
     if statusCode \<ge> 400
       then observe HTTPErrors 1 [(''method'', AString method), (''endpoint'', AString endpoint), (''status_code'', AInt statusCode)] m
       else Some m
   }"

definition RecordHTTPRequestDuration :: "Duration \<Rightarrow> string \<Rightarrow> string \<Rightarrow> metrics \<Rightarrow> metrics option" where
  "RecordHTTPRequestDuration duration method endpoint m =
     observe HTTPRequestDuration (Seconds duration) [(''method'', AString method), (''endpoint'', AString endpoint)] m"

definition IncrementHTTPProxyRequests :: "string \<Rightarrow> string \<Rightarrow> metrics \<Rightarrow> metrics option" where
  "IncrementHTTPProxyRequests method endpoint m =
     observe HTTPProxyRequests 1 [(''method'', AString method), (''endpoint'', AString endpoint)] m"

definition IncrementDiscoveryEvent :: "string \<Rightarrow> string \<Rightarrow> metrics \<Rightarrow> metrics option" where
  "IncrementDiscoveryEvent strategy eventType m =
     observe DiscoveryEvents 1 [(''strategy'', AString strategy), (''event_type'', AString eventType)] m"

definition IncrementDiscoveryError :: "string \<Rightarrow> string \<Rightarrow> metrics \<Rightarrow> metrics option" where
  "IncrementDiscoveryError strategy errorType m =
     observe DiscoveryErrors 1 [(''strategy'', AString strategy), (''error_type'', AString errorType)] m"

definition IncrementDiscoveryOperation :: "string \<Rightarrow> string \<Rightarrow> bool \<Rightarrow> metrics \<Rightarrow> metrics option" where
  "IncrementDiscoveryOperation strategy operation success m =
     observe DiscoveryOperations 1
       [(''strategy'', AString strategy), (''operation'', AString operation), (''status'', AString (outcome_name success))] m"

definition SetNodesDiscovered :: "int \<Rightarrow> string \<Rightarrow> metrics \<Rightarrow> metrics option" where
  "SetNodesDiscovered count strategy m = observe NodesDiscovered (of_int count) [(''strategy'', AString strategy)] m"

definition IncrementWebhookRequests :: "bool \<Rightarrow> metrics \<Rightarrow> metrics option" where
  "IncrementWebhookRequests success m = do {
     m \<leftarrow> (if success then Some m else observe WebhookErrors 1 [] m);
     observe WebhookRequests 1 [(''status'', AString (outcome_name success))] m
   }"

definition RecordWebhookDuration :: "Duration \<Rightarrow> bool \<Rightarrow> metrics \<Rightarrow> metrics option" where
  "RecordWebhookDuration duration success m =
     observe WebhookDuration (Seconds duration) [(''status'', AString (outcome_name success))] m"

text \<open>The methods below return at once on a nil receiver.\<close>

definition UpdateJobsByStatus :: "string \<Rightarrow> int \<Rightarrow> metrics \<Rightarrow> metrics option" where
  "UpdateJobsByStatus status delta m =
     (if m = None then Some m else observe JobsByStatus (of_int delta) [(''status'', AString status)] m)"

definition IncrementExecutionFailures :: "string \<Rightarrow> metrics \<Rightarrow> metrics option" where
  "IncrementExecutionFailures errorType m =
     (if m = None then Some m else observe ExecutionFailures 1 [(''error_type'', AString errorType)] m)"

definition RecordRetryCount :: "int \<Rightarrow> metrics \<Rightarrow> metrics option" where
  "RecordRetryCount retryCount m =
     (if m = None then Some m else observe RetryCount (of_int retryCount) [] m)"

definition RecordStatusQueryLatency :: "Duration \<Rightarrow> string \<Rightarrow> metrics \<Rightarrow> metrics option" where
  "RecordStatusQueryLatency duration endpoint m =
     (if m = None then Some m else observe StatusQueryLatency (Seconds duration) [(''endpoint'', AString endpoint)] m)"

definition SetSystemStartTime :: "int \<Rightarrow> metrics \<Rightarrow> metrics option" where
  "SetSystemStartTime startTime m = Some m"

definition UpdateSystemUptime :: "int \<Rightarrow> metrics \<Rightarrow> metrics option" where
  "UpdateSystemUptime startTime m = Some m"

definition UpdateQueueMemoryUsage :: "int \<Rightarrow> metrics \<Rightarrow> metrics option" where
  "UpdateQueueMemoryUsage delta m =
     (if m = None then Some m else observe QueueMemoryUsage (of_int delta) [] m)"

definition SetQueueMemoryLimit :: "int \<Rightarrow> metrics \<Rightarrow> metrics option" where
  "SetQueueMemoryLimit limit m =
     (if m = None then Some m else observe QueueMemoryLimit (of_int limit) [] m)"

definition UpdateQueueJobCount :: "int \<Rightarrow> metrics \<Rightarrow> metrics option" where
  "UpdateQueueJobCount delta m =
     (if m = None then Some m else observe QueueJobCount (of_int delta) [] m)"

definition SetQueueJobLimit :: "int \<Rightarrow> metrics \<Rightarrow> metrics option" where
  "SetQueueJobLimit limit m =
     (if m = None then Some m else observe QueueJobLimit (of_int limit) [] m)"

definition IncrementJobRejections :: "string \<Rightarrow> metrics \<Rightarrow> metrics option" where
  "IncrementJobRejections reason m =
     (if m = None then Some m else observe JobRejections 1 [(''reason'', AString reason)] m)"

definition SetQueueMemoryUtilization :: "rat \<Rightarrow> metrics \<Rightarrow> metrics option" where
  "SetQueueMemoryUtilization utilization m = Some m"

section \<open>Runs\<close>

text \<open>Any call of any method.\<close>

inductive metrics_step :: "metrics \<Rightarrow> metrics \<Rightarrow> bool" where
  "IncrementJobsCreated jobType m = Some m' \<Longrightarrow> metrics_step m m'"
| "IncrementJobsExecuted jobType success m = Some m' \<Longrightarrow> metrics_step m m'"
| "RecordJobExecutionDuration duration jobType m = Some m' \<Longrightarrow> metrics_step m m'"
| "IncrementJobsDeleted jobType m = Some m' \<Longrightarrow> metrics_step m m'"
| "SetActiveJobs count m = Some m' \<Longrightarrow> metrics_step m m'"
| "IncrementSlotsCreated m = Some m' \<Longrightarrow> metrics_step m m'"
| "IncrementSlotsDeleted m = Some m' \<Longrightarrow> metrics_step m m'"
| "IncrementSlotsProcessed jobCount m = Some m' \<Longrightarrow> metrics_step m m'"
| "RecordSlotProcessingDuration duration m = Some m' \<Longrightarrow> metrics_step m m'"
| "SetActiveSlots count m = Some m' \<Longrightarrow> metrics_step m m'"
| "SetWorkerActive active m = Some m' \<Longrightarrow> metrics_step m m'"
| "RecordWorkerProcessingTime duration m = Some m' \<Longrightarrow> metrics_step m m'"
| "RecordWorkerIdleTime duration m = Some m' \<Longrightarrow> metrics_step m m'"
| "IncrementWorkerErrors errorType m = Some m' \<Longrightarrow> metrics_step m m'"
| "SetClusterNodes count m = Some m' \<Longrightarrow> metrics_step m m'"
| "IncrementLeaderChanges oldLeader newLeader m = Some m' \<Longrightarrow> metrics_step m m'"
| "IncrementClusterJoin nodeID m = Some m' \<Longrightarrow> metrics_step m m'"
| "IncrementClusterLeave nodeID m = Some m' \<Longrightarrow> metrics_step m m'"
| "IncrementRaftOperation operation success m = Some m' \<Longrightarrow> metrics_step m m'"
| "IncrementLeaderElections m = Some m' \<Longrightarrow> metrics_step m m'"
| "IncrementSplitBrainEvents m = Some m' \<Longrightarrow> metrics_step m m'"
| "IncrementHTTPRequests method endpoint statusCode m = Some m' \<Longrightarrow> metrics_step m m'"
| "RecordHTTPRequestDuration duration method endpoint m = Some m' \<Longrightarrow> metrics_step m m'"
| "IncrementHTTPProxyRequests method endpoint m = Some m' \<Longrightarrow> metrics_step m m'"
| "IncrementDiscoveryEvent strategy eventType m = Some m' \<Longrightarrow> metrics_step m m'"
| "IncrementDiscoveryError strategy errorType m = Some m' \<Longrightarrow> metrics_step m m'"
| "IncrementDiscoveryOperation strategy operation success m = Some m' \<Longrightarrow> metrics_step m m'"
| "SetNodesDiscovered count strategy m = Some m' \<Longrightarrow> metrics_step m m'"
| "IncrementWebhookRequests success m = Some m' \<Longrightarrow> metrics_step m m'"
| "RecordWebhookDuration duration success m = Some m' \<Longrightarrow> metrics_step m m'"
| "UpdateJobsByStatus status delta m = Some m' \<Longrightarrow> metrics_step m m'"
| "IncrementExecutionFailures errorType m = Some m' \<Longrightarrow> metrics_step m m'"
| "RecordRetryCount retryCount m = Some m' \<Longrightarrow> metrics_step m m'"
| "RecordStatusQueryLatency duration endpoint m = Some m' \<Longrightarrow> metrics_step m m'"
| "SetSystemStartTime startTime m = Some m' \<Longrightarrow> metrics_step m m'"
| "UpdateSystemUptime startTime m = Some m' \<Longrightarrow> metrics_step m m'"
| "UpdateQueueMemoryUsage delta m = Some m' \<Longrightarrow> metrics_step m m'"
| "SetQueueMemoryLimit limit m = Some m' \<Longrightarrow> metrics_step m m'"
| "UpdateQueueJobCount delta m = Some m' \<Longrightarrow> metrics_step m m'"
| "SetQueueJobLimit limit m = Some m' \<Longrightarrow> metrics_step m m'"
| "IncrementJobRejections reason m = Some m' \<Longrightarrow> metrics_step m m'"
| "SetQueueMemoryUtilization utilization m = Some m' \<Longrightarrow> metrics_step m m'"

lemmas metrics_methods =
  IncrementJobsCreated_def IncrementJobsExecuted_def RecordJobExecutionDuration_def IncrementJobsDeleted_def
  SetActiveJobs_def IncrementSlotsCreated_def IncrementSlotsDeleted_def IncrementSlotsProcessed_def
  RecordSlotProcessingDuration_def SetActiveSlots_def SetWorkerActive_def RecordWorkerProcessingTime_def
  RecordWorkerIdleTime_def IncrementWorkerErrors_def SetClusterNodes_def IncrementLeaderChanges_def
  IncrementClusterJoin_def IncrementClusterLeave_def IncrementRaftOperation_def IncrementLeaderElections_def
  IncrementSplitBrainEvents_def IncrementHTTPRequests_def RecordHTTPRequestDuration_def IncrementHTTPProxyRequests_def
  IncrementDiscoveryEvent_def IncrementDiscoveryError_def IncrementDiscoveryOperation_def SetNodesDiscovered_def
  IncrementWebhookRequests_def RecordWebhookDuration_def UpdateJobsByStatus_def IncrementExecutionFailures_def
  RecordRetryCount_def RecordStatusQueryLatency_def SetSystemStartTime_def UpdateSystemUptime_def
  UpdateQueueMemoryUsage_def SetQueueMemoryLimit_def UpdateQueueJobCount_def SetQueueJobLimit_def
  IncrementJobRejections_def SetQueueMemoryUtilization_def

section \<open>What is reported\<close>

definition kind_of :: "instrument \<Rightarrow> instrument_kind" where
  "kind_of i = spec_kind (the (List.find (\<lambda>spec. spec_field spec = i) all_instruments))"

lemmas instrument_tables =
  all_instruments_def job_instruments_def slot_instruments_def worker_instruments_def
  cluster_instruments_def http_instruments_def discovery_instruments_def webhook_instruments_def
  status_instruments_def system_instruments_def queue_instruments_def

text \<open>The instruments whose measurements may be negative.\<close>

lemma kind_of_gauges [simp]:
  "kind_of JobsByType = Int64UpDownCounter" "kind_of JobsActive = Int64UpDownCounter"
  "kind_of SlotsTotal = Int64UpDownCounter" "kind_of SlotsActive = Int64UpDownCounter"
  "kind_of WorkerActive = Int64UpDownCounter" "kind_of ClusterNodes = Int64UpDownCounter"
  "kind_of NodesDiscovered = Int64UpDownCounter" "kind_of JobsByStatus = Int64UpDownCounter"
  "kind_of QueueMemoryUsage = Int64UpDownCounter" "kind_of QueueMemoryLimit = Int64UpDownCounter"
  "kind_of QueueJobCount = Int64UpDownCounter" "kind_of QueueJobLimit = Int64UpDownCounter"
  by (simp_all add: kind_of_def instrument_tables)

lemma kind_of_histograms [simp]:
  "kind_of JobExecutionDuration = Float64Histogram" "kind_of SlotProcessingDuration = Float64Histogram"
  "kind_of JobsPerSlot = Int64Histogram" "kind_of WorkerProcessingTime = Float64Histogram"
  "kind_of WorkerIdleTime = Float64Histogram" "kind_of HTTPRequestDuration = Float64Histogram"
  "kind_of WebhookDuration = Float64Histogram" "kind_of RetryCount = Int64Histogram"
  "kind_of StatusQueryLatency = Float64Histogram"
  by (simp_all add: kind_of_def instrument_tables)

text \<open>The sum that an instrument reports for the attributes that satisfy \<open>p\<close>.\<close>

definition log_sum :: "instrument \<Rightarrow> (attributes \<Rightarrow> bool) \<Rightarrow> measurement list \<Rightarrow> rat" where
  "log_sum i p xs = (\<Sum>x \<leftarrow> filter (\<lambda>x. M_instrument x = i \<and> p (M_attributes x)) xs. M_value x)"

definition reported :: "instrument \<Rightarrow> (attributes \<Rightarrow> bool) \<Rightarrow> metrics \<Rightarrow> rat" where
  "reported i p m = (case m of None \<Rightarrow> 0 | Some mt \<Rightarrow> log_sum i p (M_log mt))"

lemma log_sum_append [simp]: "log_sum i p (xs @ ys) = log_sum i p xs + log_sum i p ys"
  by (simp add: log_sum_def)

lemma log_sum_Cons [simp]:
  "log_sum i p (x # xs) = (if M_instrument x = i \<and> p (M_attributes x) then M_value x else 0) + log_sum i p xs"
  by (simp add: log_sum_def)

lemma log_sum_Nil [simp]: "log_sum i p [] = 0"
  by (simp add: log_sum_def)

lemma log_sum_nonneg: "(\<And>x. x \<in> set xs \<Longrightarrow> M_instrument x = i \<Longrightarrow> 0 \<le> M_value x) \<Longrightarrow> 0 \<le> log_sum i p xs"
  by (induction xs) auto

lemma observe_Some [simp]:
  "observe i v as (Some mt) =
     (if i \<in> M_fields mt
      then Some (Some (mt\<lparr>M_log := M_log mt @ [\<lparr>M_instrument = i, M_value = v, M_attributes = as\<rparr>]\<rparr>)) else None)"
  "observe i v as None = None"
  by (simp_all add: observe_def)

text \<open>A method appends measurements, and none on a counter is negative.\<close>

definition extends :: "metrics \<Rightarrow> metrics \<Rightarrow> bool" where
  "extends m m' \<longleftrightarrow> (\<exists>ms. m' = map_option (\<lambda>mt. mt\<lparr>M_log := M_log mt @ ms\<rparr>) m \<and>
     (\<forall>x \<in> set ms. kind_of (M_instrument x) = Int64Counter \<longrightarrow> 0 \<le> M_value x))"

lemma extends_refl [simp]: "extends m m"
  unfolding extends_def by (intro exI [of _ "[]"]) (cases m; simp)

lemma extends_trans: "extends a b \<Longrightarrow> extends b c \<Longrightarrow> extends a c"
proof -
  assume "extends a b" "extends b c"
  then obtain xs ys where "b = map_option (\<lambda>mt. mt\<lparr>M_log := M_log mt @ xs\<rparr>) a"
      "c = map_option (\<lambda>mt. mt\<lparr>M_log := M_log mt @ ys\<rparr>) b"
      "\<forall>x \<in> set (xs @ ys). kind_of (M_instrument x) = Int64Counter \<longrightarrow> 0 \<le> M_value x"
    by (auto simp: extends_def)
  then show "extends a c" unfolding extends_def by (intro exI [of _ "xs @ ys"]) (cases a; simp)
qed

lemma observe_extends:
  "observe i v as m = Some m' \<Longrightarrow> (kind_of i = Int64Counter \<Longrightarrow> 0 \<le> v) \<Longrightarrow> extends m m'"
  unfolding extends_def
  by (intro exI [of _ "[\<lparr>M_instrument = i, M_value = v, M_attributes = as\<rparr>]"]) (auto simp: observe_def split: option.splits if_splits)

lemma step_extends: "metrics_step m m' \<Longrightarrow> extends m m'"
  by (induction rule: metrics_step.induct)
    (auto simp: metrics_methods Let_def split: if_splits bind_splits intro: observe_extends extends_trans [OF observe_extends observe_extends])

lemma steps_extend: "metrics_step\<^sup>*\<^sup>* m m' \<Longrightarrow> extends m m'"
  by (induction rule: rtranclp_induct) (auto intro: extends_trans step_extends)

section \<open>Properties\<close>

text \<open>Counters never fall: whatever methods are called with whatever arguments, the value that
  a counter reports for any attributes only grows.\<close>
theorem counters_never_fall:
  assumes "metrics_step\<^sup>*\<^sup>* m m'" "kind_of i = Int64Counter"
  shows "reported i p m \<le> reported i p m'"
proof -
  obtain ms where "m' = map_option (\<lambda>mt. mt\<lparr>M_log := M_log mt @ ms\<rparr>) m"
      "\<forall>x \<in> set ms. kind_of (M_instrument x) = Int64Counter \<longrightarrow> 0 \<le> M_value x"
    using steps_extend [OF assms(1)] by (auto simp: extends_def)
  with assms(2) log_sum_nonneg [of ms i p] show ?thesis by (cases m) (auto simp: reported_def)
qed

section \<open>Set-up\<close>

record MetricsConfig =
  MC_ServiceName :: string
  MC_ServiceVersion :: string
  MC_NodeID :: string
  MC_Environment :: string
  MC_MetricsPort :: int
  MC_MetricsPath :: string

definition DefaultConfig_metrics :: MetricsConfig where
  "DefaultConfig_metrics = \<lparr>MC_ServiceName = ''scheduled-db'', MC_ServiceVersion = ''1.0.0'', MC_NodeID = '''',
     MC_Environment = ''production'', MC_MetricsPort = 9090, MC_MetricsPath = ''/metrics''\<rparr>"

text \<open>The constructors of OpenTelemetry: each may return an error.\<close>

record otel_lib =
  otel_resource :: "(string \<times> string) list \<Rightarrow> string option"
  otel_prometheus :: "string option"
  otel_otlp :: "string \<Rightarrow> string option"
  otel_meter :: "instrument_spec \<Rightarrow> string option"

datatype metric_reader = PrometheusReader | PeriodicReader string Duration

definition metric_views :: "(string \<times> rat list) list" where
  "metric_views =
     [(''job_execution_duration_seconds'', [1 / 100, 1 / 10, 5 / 10, 1, 5, 10, 30, 60, 300]),
      (''http_request_duration_seconds'', [1 / 1000, 1 / 100, 1 / 10, 5 / 10, 1, 5, 10, 30]),
      (''slot_processing_duration_seconds'', [1 / 1000, 1 / 100, 1 / 10, 5 / 10, 1, 5, 10]),
      (''status_query_duration_seconds'', [1 / 1000, 1 / 100, 1 / 10, 5 / 10, 1, 5, 10]),
      (''retry_count'', [0, 1, 2, 3, 5, 10])]"

text \<open>The meter provider is the list of its readers; its views are \<open>metric_views\<close>.\<close>

definition Setup :: "otel_lib \<Rightarrow> (string \<Rightarrow> string) \<Rightarrow> MetricsConfig \<Rightarrow> string + metric_reader list" where
  "Setup L Getenv config =
     (case otel_resource L [(''service.name'', MC_ServiceName config), (''service.version'', MC_ServiceVersion config),
             (''service.instance.id'', MC_NodeID config), (''deployment.environment'', MC_Environment config)] of
        Some err \<Rightarrow> Inl (''failed to create resource: '' @ err)
      | None \<Rightarrow>
          let otlpEndpoint = Getenv ''OTEL_EXPORTER_OTLP_ENDPOINT'';
              otlpDisabled = otlpEndpoint = ''disabled''
          in case otel_prometheus L of
               Some err \<Rightarrow> Inl (''failed to create Prometheus exporter: '' @ err)
             | None \<Rightarrow>
                 if otlpDisabled then Inr [PrometheusReader]
                 else let otlpEndpoint = (if otlpEndpoint = '''' then ''otel-collector:4317'' else otlpEndpoint)
                   in case otel_otlp L otlpEndpoint of
                        Some err \<Rightarrow> Inl (''failed to create OTLP exporter: '' @ err)
                      | None \<Rightarrow> Inr [PrometheusReader, PeriodicReader otlpEndpoint (15 * Second)])"

text \<open>
  \<open>g\<close> is the pointer that \<open>SetGlobalMetrics\<close> writes. The result is the provider or the error, the
  pointer, and whether the provider was shut down again.
\<close>

definition InitializeWithOTLP ::
  "otel_lib \<Rightarrow> (string \<Rightarrow> string) \<Rightarrow> MetricsConfig \<Rightarrow> metrics
     \<Rightarrow> (string + metric_reader list) \<times> metrics \<times> bool" where
  "InitializeWithOTLP L Getenv config g =
     (case Setup L Getenv config of
        Inl err \<Rightarrow> (Inl (''failed to setup OpenTelemetry: '' @ err), g, False)
      | Inr provider \<Rightarrow>
          (case NewMetrics (otel_meter L) of
             Inl err \<Rightarrow> (Inl (''failed to create metrics: '' @ err), g, True)
           | Inr m \<Rightarrow> (Inr provider, m, False)))"

section \<open>Completeness\<close>

lemma field_list:
  "map spec_field all_instruments =
     [JobsTotal, JobsExecuted, JobsDeleted, JobsFailed, JobExecutionDuration, JobsActive,
      JobsScheduled, JobsByType, SlotsTotal, SlotsActive, SlotsProcessed,
      SlotProcessingDuration, JobsPerSlot, WorkerActive, WorkerProcessingTime, WorkerIdleTime,
      WorkerErrors, ClusterNodes, ClusterLeaderChanges, ClusterJoinEvents, ClusterLeaveEvents,
      RaftOperations, RaftErrors, RaftLeaderElections, ClusterSplitBrainEvents, HTTPRequests,
      HTTPRequestDuration, HTTPProxyRequests, HTTPErrors, DiscoveryEvents, DiscoveryErrors,
      DiscoveryOperations, NodesDiscovered, WebhookRequests, WebhookErrors, WebhookDuration,
      JobsByStatus, ExecutionFailures, RetryCount, StatusQueryLatency, SystemStartTime,
      SystemUptime, QueueMemoryUsage, QueueMemoryLimit, QueueJobCount, QueueJobLimit,
      JobRejections, QueueMemoryUtilization]"
  by code_simp

lemma distinct_names: "distinct (map spec_name all_instruments)"
  by code_simp

lemma all_fields: "spec_field ` set all_instruments = UNIV"
proof -
  have "i \<in> set (map spec_field all_instruments)" for i unfolding field_list by (cases i) simp_all
  then show ?thesis by auto
qed

lemma create_instruments_ok:
  "(\<forall>spec \<in> set specs. meter spec = None) \<Longrightarrow>
     create_instruments meter specs m = Inr (m\<lparr>M_fields := M_fields m \<union> spec_field ` set specs\<rparr>)"
  by (induction specs arbitrary: m) (simp_all add: Un_commute insert_commute)

lemma create_instruments_error:
  "spec \<in> set specs \<Longrightarrow> meter spec = Some e \<Longrightarrow> \<exists>err. create_instruments meter specs m = Inl err"
  by (induction specs arbitrary: m) (auto split: option.splits)

definition fresh_metrics :: metrics where
  "fresh_metrics = Some \<lparr>M_fields = UNIV, M_log = []\<rparr>"

lemma NewMetrics_iff: "NewMetrics meter = Inr m \<longleftrightarrow> (\<forall>spec \<in> set all_instruments. meter spec = None) \<and> m = fresh_metrics"
proof (cases "\<forall>spec \<in> set all_instruments. meter spec = None")
  case True
  with create_instruments_ok [OF True, of "\<lparr>M_fields = {}, M_log = []\<rparr>"] show ?thesis
    by (auto simp: NewMetrics_def fresh_metrics_def all_fields)
next
  case False
  then obtain spec e where "spec \<in> set all_instruments" "meter spec = Some e" by auto
  from create_instruments_error [of spec all_instruments meter e, OF this, of "\<lparr>M_fields = {}, M_log = []\<rparr>"] False show ?thesis
    by (auto simp: NewMetrics_def)
qed

text \<open>The buckets of the views are those of the instruments with the same names.\<close>

lemma views_match_instruments:
  "(name, boundaries) \<in> set metric_views \<Longrightarrow>
     \<exists>spec \<in> set all_instruments. spec_name spec = name \<and> spec_boundaries spec = boundaries"
proof -
  have "list_all (\<lambda>(n, b). list_ex (\<lambda>spec. spec_name spec = n \<and> spec_boundaries spec = b) all_instruments) metric_views"
    by code_simp
  then show "(name, boundaries) \<in> set metric_views \<Longrightarrow>
     \<exists>spec \<in> set all_instruments. spec_name spec = name \<and> spec_boundaries spec = boundaries"
    by (auto simp: list_all_iff list_ex_iff)
qed

text \<open>The set-up is all or nothing: when it succeeds every instrument exists under a name of its own
  and nothing has been measured, so that no later measurement panics; when it fails the global
  pointer is as before.\<close>
theorem metrics_ready_or_untouched:
  assumes "InitializeWithOTLP L Getenv config g = (r, m, down)"
  shows "case r of
      Inr provider \<Rightarrow> PrometheusReader \<in> set provider \<and> distinct (map spec_name all_instruments) \<and>
        (\<forall>i p. reported i p m = 0) \<and>
        (\<forall>m' i v as. metrics_step\<^sup>*\<^sup>* m m' \<longrightarrow> observe i v as m' \<noteq> None)
    | Inl err \<Rightarrow> m = g"
proof (cases r)
  case (Inl err)
  then show ?thesis using assms by (auto simp: InitializeWithOTLP_def split: sum.splits)
next
  case (Inr provider)
  then have s: "Setup L Getenv config = Inr provider" "m = fresh_metrics"
    using assms by (auto simp: InitializeWithOTLP_def NewMetrics_iff split: sum.splits)
  note distinct_names
  moreover have "PrometheusReader \<in> set provider" using s(1) by (auto simp: Setup_def Let_def split: option.splits if_splits)
  moreover have "observe i v as m' \<noteq> None" if "metrics_step\<^sup>*\<^sup>* m m'" for m' i v as
    using steps_extend [OF that] by (auto simp: s(2) extends_def fresh_metrics_def)
  ultimately show ?thesis by (simp add: Inr s(2) fresh_metrics_def reported_def)
qed

lemma counters_never_fall_witness:
  "reported JobsTotal (\<lambda>as. True) fresh_metrics \<le> reported JobsTotal (\<lambda>as. True) (the (IncrementJobsCreated ''unico'' fresh_metrics))"
proof (rule counters_never_fall)
  obtain m where m: "IncrementJobsCreated ''unico'' fresh_metrics = Some m"
    by (simp add: IncrementJobsCreated_def fresh_metrics_def)
  then have "metrics_step fresh_metrics m" by (rule metrics_step.intros)
  with m show "metrics_step\<^sup>*\<^sup>* fresh_metrics (the (IncrementJobsCreated ''unico'' fresh_metrics))" by simp
  show "kind_of JobsTotal = Int64Counter" by (simp add: kind_of_def instrument_tables)
qed

definition quiet_otel :: otel_lib where
  "quiet_otel = \<lparr>otel_resource = (\<lambda>as. None), otel_prometheus = None, otel_otlp = (\<lambda>e. None), otel_meter = (\<lambda>spec. None)\<rparr>"

lemma metrics_ready_or_untouched_witness:
  "\<exists>m. InitializeWithOTLP quiet_otel (\<lambda>key. ''disabled'') DefaultConfig_metrics None = (Inr [PrometheusReader], m, False) \<and>
     observe JobsTotal 1 [] m \<noteq> None"
proof -
  have i: "InitializeWithOTLP quiet_otel (\<lambda>key. ''disabled'') DefaultConfig_metrics None = (Inr [PrometheusReader], fresh_metrics, False)"
  proof -
    have "NewMetrics (\<lambda>spec. None) = Inr fresh_metrics" by (simp add: NewMetrics_iff)
    then show ?thesis by (simp add: InitializeWithOTLP_def Setup_def quiet_otel_def)
  qed
  from metrics_ready_or_untouched [OF this] show ?thesis unfolding i by simp
qed

end
