(* ===== verification/Instrumentation.thy ===== *)
theory Instrumentation
  imports Metrics Settings Peer_Discovery
begin

text \<open>
  The helpers of \<open>internal/metrics/instrumentation.go\<close>, the HTTP
  middleware of \<open>internal/metrics/middleware.go\<close> and of \<open>internal/api/router.go\<close> with the response
  writers that capture the status. The helpers have no effect on the program, so each is a
  function of the metrics and of its own fields. The contract of a writer that captures the
  status is the locale \<open>status_capture\<close>.
\<close>

section \<open>Helpers\<close>

text \<open>A helper holds the pointer \<open>m\<close> to the metrics and does nothing when it is nil.\<close>

definition unless_nil :: "(metrics \<Rightarrow> metrics option) \<Rightarrow> metrics \<Rightarrow> metrics option" where
  "unless_nil f m = (if m = None then Some m else f m)"

definition RecordJobCreated :: "Job \<Rightarrow> metrics \<Rightarrow> metrics option" where
  "RecordJobCreated job = unless_nil (IncrementJobsCreated (job_type_string (Job_Type job)))"

definition RecordJobDeleted :: "Job \<Rightarrow> metrics \<Rightarrow> metrics option" where
  "RecordJobDeleted job = unless_nil (IncrementJobsDeleted (job_type_string (Job_Type job)))"

definition RecordJobExecution :: "Job \<Rightarrow> Duration \<Rightarrow> bool \<Rightarrow> metrics \<Rightarrow> metrics option" where
  "RecordJobExecution job duration success = unless_nil (\<lambda>m. do {
     m \<leftarrow> IncrementJobsExecuted (job_type_string (Job_Type job)) success m;
     RecordJobExecutionDuration duration (job_type_string (Job_Type job)) m
   })"

text \<open>The loop over the map counts the jobs and those of either type; a nil map is \<open>None\<close>.\<close>

fun count_types :: "Job list \<Rightarrow> int \<times> int \<times> int \<Rightarrow> int \<times> int \<times> int" where
  "count_types [] counts = counts"
| "count_types (job # js) (totalActive, uniqueCount, recurrentCount) =
     count_types js (totalActive + 1,
       if Job_Type job = JobUnico then uniqueCount + 1 else uniqueCount,
       if Job_Type job = JobRecurrente then recurrentCount + 1 else recurrentCount)"

definition UpdateJobCounts :: "string key_order \<Rightarrow> (string, Job) fmap option \<Rightarrow> metrics \<Rightarrow> metrics option" where
  "UpdateJobCounts order js = unless_nil (\<lambda>m.
     case js of
       None \<Rightarrow> Some m
     | Some js \<Rightarrow>
         (case count_types (map (\<lambda>k. the (fmlookup js k)) (order (fmdom' js))) (0, 0, 0) of
            (totalActive, uniqueCount, recurrentCount) \<Rightarrow> do {
              m \<leftarrow> SetActiveJobs totalActive m;
              m \<leftarrow> observe JobsByType (of_int uniqueCount) [(''job_type'', AString ''unico'')] m;
              observe JobsByType (of_int recurrentCount) [(''job_type'', AString ''recurrente'')] m
            }))"

definition RecordSlotCreated :: "metrics \<Rightarrow> metrics option" where
  "RecordSlotCreated = unless_nil IncrementSlotsCreated"

definition RecordSlotDeleted :: "metrics \<Rightarrow> metrics option" where
  "RecordSlotDeleted = unless_nil IncrementSlotsDeleted"

definition RecordSlotProcessed :: "int \<Rightarrow> Duration \<Rightarrow> metrics \<Rightarrow> metrics option" where
  "RecordSlotProcessed n duration = unless_nil (\<lambda>m. do {
     m \<leftarrow> IncrementSlotsProcessed n m;
     RecordSlotProcessingDuration duration m
   })"

definition UpdateSlotCounts :: "int \<Rightarrow> metrics \<Rightarrow> metrics option" where
  "UpdateSlotCounts activeSlots = unless_nil (SetActiveSlots activeSlots)"

record WorkerInstrumentation =
  WI_startTime :: int
  WI_isActive :: bool

definition NewWorkerInstrumentation :: WorkerInstrumentation where
  "NewWorkerInstrumentation = \<lparr>WI_startTime = 0, WI_isActive = False\<rparr>"

definition RecordWorkerStarted ::
  "int \<Rightarrow> WorkerInstrumentation \<times> metrics \<Rightarrow> (WorkerInstrumentation \<times> metrics) option" where
  "RecordWorkerStarted now wm = (case wm of (wi, m) \<Rightarrow>
     if m = None then Some (wi, m)
     else map_option (Pair (wi\<lparr>WI_startTime := now, WI_isActive := True\<rparr>)) (SetWorkerActive True m))"

definition RecordWorkerStopped ::
  "WorkerInstrumentation \<times> metrics \<Rightarrow> (WorkerInstrumentation \<times> metrics) option" where
  "RecordWorkerStopped wm = (case wm of (wi, m) \<Rightarrow>
     if m = None then Some (wi, m)
     else if WI_isActive wi then map_option (Pair (wi\<lparr>WI_isActive := False\<rparr>)) (SetWorkerActive False m)
     else Some (wi, m))"

definition RecordProcessingCycle :: "Duration \<Rightarrow> Duration \<Rightarrow> metrics \<Rightarrow> metrics option" where
  "RecordProcessingCycle processingDuration idleDuration = unless_nil (\<lambda>m. do {
     m \<leftarrow> RecordWorkerProcessingTime processingDuration m;
     RecordWorkerIdleTime idleDuration m
   })"

definition RecordWorkerError :: "string \<Rightarrow> metrics \<Rightarrow> metrics option" where
  "RecordWorkerError errorType = unless_nil (IncrementWorkerErrors errorType)"

record ClusterInstrumentation =
  CI_currentLeader :: string
  CI_currentNodes :: int
  CI_nodeID :: string

definition NewClusterInstrumentation :: "string \<Rightarrow> ClusterInstrumentation" where
  "NewClusterInstrumentation nodeID = \<lparr>CI_currentLeader = '''', CI_currentNodes = 0, CI_nodeID = nodeID\<rparr>"

definition RecordLeaderChange ::
  "string \<Rightarrow> string \<Rightarrow> ClusterInstrumentation \<times> metrics \<Rightarrow> (ClusterInstrumentation \<times> metrics) option" where
  "RecordLeaderChange oldLeader newLeader cm = (case cm of (ci, m) \<Rightarrow>
     if m = None then Some (ci, m)
     else do {
       m \<leftarrow> IncrementLeaderChanges oldLeader newLeader m;
       m \<leftarrow> IncrementLeaderElections m;
       Some (ci\<lparr>CI_currentLeader := newLeader\<rparr>, m)
     })"

definition RecordNodeJoin ::
  "string \<Rightarrow> ClusterInstrumentation \<times> metrics \<Rightarrow> (ClusterInstrumentation \<times> metrics) option" where
  "RecordNodeJoin nodeID cm = (case cm of (ci, m) \<Rightarrow>
     if m = None then Some (ci, m)
     else do {
       m \<leftarrow> IncrementClusterJoin nodeID m;
       let ci = ci\<lparr>CI_currentNodes := add64 (CI_currentNodes ci) 1\<rparr>;
       m \<leftarrow> SetClusterNodes (CI_currentNodes ci) m;
       Some (ci, m)
     })"

definition RecordNodeLeave ::
  "string \<Rightarrow> ClusterInstrumentation \<times> metrics \<Rightarrow> (ClusterInstrumentation \<times> metrics) option" where
  "RecordNodeLeave nodeID cm = (case cm of (ci, m) \<Rightarrow>
     if m = None then Some (ci, m)
     else do {
       m \<leftarrow> IncrementClusterLeave nodeID m;
       let ci = (if CI_currentNodes ci > 0 then ci\<lparr>CI_currentNodes := CI_currentNodes ci - 1\<rparr> else ci);
       m \<leftarrow> SetClusterNodes (CI_currentNodes ci) m;
       Some (ci, m)
     })"

definition RecordRaftOperation :: "string \<Rightarrow> bool \<Rightarrow> metrics \<Rightarrow> metrics option" where
  "RecordRaftOperation operation success = unless_nil (IncrementRaftOperation operation success)"

definition RecordSplitBrainEvent :: "metrics \<Rightarrow> metrics option" where
  "RecordSplitBrainEvent = unless_nil IncrementSplitBrainEvents"

definition UpdateClusterState ::
  "int \<Rightarrow> string \<Rightarrow> ClusterInstrumentation \<times> metrics \<Rightarrow> (ClusterInstrumentation \<times> metrics) option" where
  "UpdateClusterState nodeCount leader cm = (case cm of (ci, m) \<Rightarrow>
     if m = None then Some (ci, m)
     else do {
       (ci, m) \<leftarrow> (if CI_currentLeader ci \<noteq> leader \<and> leader \<noteq> ''''
                  then RecordLeaderChange (CI_currentLeader ci) leader (ci, m) else Some (ci, m));
       let ci = ci\<lparr>CI_currentNodes := nodeCount\<rparr>;
       m \<leftarrow> SetClusterNodes nodeCount m;
       Some (ci, m)
     })"

definition RecordDiscoveryEvent :: "string \<Rightarrow> string \<Rightarrow> metrics \<Rightarrow> metrics option" where
  "RecordDiscoveryEvent strategy eventType = unless_nil (IncrementDiscoveryEvent strategy eventType)"

definition RecordDiscoveryError :: "string \<Rightarrow> string \<Rightarrow> metrics \<Rightarrow> metrics option" where
  "RecordDiscoveryError strategy errorType = unless_nil (IncrementDiscoveryError strategy errorType)"

definition RecordDiscoveryOperation :: "string \<Rightarrow> string \<Rightarrow> bool \<Rightarrow> metrics \<Rightarrow> metrics option" where
  "RecordDiscoveryOperation strategy operation success =
     unless_nil (IncrementDiscoveryOperation strategy operation success)"

definition UpdateNodesDiscovered :: "string \<Rightarrow> int \<Rightarrow> metrics \<Rightarrow> metrics option" where
  "UpdateNodesDiscovered strategy count = unless_nil (SetNodesDiscovered count strategy)"

definition RecordWebhookRequest :: "Duration \<Rightarrow> bool \<Rightarrow> metrics \<Rightarrow> metrics option" where
  "RecordWebhookRequest duration success = unless_nil (\<lambda>m. do {
     m \<leftarrow> IncrementWebhookRequests success m;
     RecordWebhookDuration duration success m
   })"

text \<open>The system helper holds its start time only.\<close>

definition NewSystemInstrumentation :: "int \<Rightarrow> metrics \<Rightarrow> (int \<times> metrics) option" where
  "NewSystemInstrumentation startTime m =
     map_option (Pair startTime) (if m \<noteq> None then SetSystemStartTime startTime m else Some m)"

definition UpdateUptime :: "int \<Rightarrow> metrics \<Rightarrow> metrics option" where
  "UpdateUptime startTime = unless_nil (UpdateSystemUptime startTime)"


section \<open>Endpoints\<close>

definition is_id_char :: "char \<Rightarrow> bool" where
  "is_id_char r \<longleftrightarrow> (CHR ''a'' \<le> r \<and> r \<le> CHR ''z'') \<or> (CHR ''A'' \<le> r \<and> r \<le> CHR ''Z'') \<or>
     (CHR ''0'' \<le> r \<and> r \<le> CHR ''9'') \<or> r = CHR ''-'' \<or> r = CHR ''_''"

text \<open>\<open>isID\<close>. A rune outside ASCII is no character of an ID, and neither is a byte of its encoding.\<close>

definition isID :: "string \<Rightarrow> bool" where
  "isID s \<longleftrightarrow>
     (if s = '''' then False
      else if ParseInt s \<noteq> None then True
      else if length s = 36 \<and> length (filter (\<lambda>c. c = CHR ''-'') s) = 4 then True
      else length s > 10 \<and> list_all is_id_char s)"

text \<open>\<open>strings.Join(parts, "/")\<close>.\<close>

fun join_on :: "char \<Rightarrow> string list \<Rightarrow> string" where
  "join_on c [] = []"
| "join_on c [w] = w"
| "join_on c (w # ws) = w @ c # join_on c ws"

definition cleanEndpoint :: "string \<Rightarrow> string" where
  "cleanEndpoint endpoint =
     (let endpoint = (case IndexByte endpoint (CHR ''?'') of None \<Rightarrow> endpoint | Some i \<Rightarrow> take i endpoint);
          parts = split_on (CHR ''/'') endpoint;
          parts = map (\<lambda>part. if isID part then ''{id}'' else part) parts
      in join_on (CHR ''/'') parts)"

lemma split_on_not_Nil [simp]: "split_on c s \<noteq> []"
  by (induction s) (auto split: list.splits)

lemma split_on_parts: "w \<in> set (split_on c s) \<Longrightarrow> c \<notin> set w \<and> set w \<subseteq> set s"
  by (induction s arbitrary: w) (fastforce split: list.splits if_splits)+

lemma split_on_word: "c \<notin> set w \<Longrightarrow> split_on c w = [w]"
  by (induction w) auto

lemma split_on_append: "c \<notin> set w \<Longrightarrow> split_on c (w @ c # s) = w # split_on c s"
  by (induction w) auto

lemma split_join: "ws \<noteq> [] \<Longrightarrow> \<forall>w \<in> set ws. c \<notin> set w \<Longrightarrow> split_on c (join_on c ws) = ws"
  by (induction c ws rule: join_on.induct) (simp_all add: split_on_word split_on_append)

lemma join_on_chars: "d \<in> set (join_on c ws) \<Longrightarrow> d = c \<or> (\<exists>w \<in> set ws. d \<in> set w)"
  by (induction c ws rule: join_on.induct) auto

lemma IndexByte_take: "IndexByte s c = Some i \<Longrightarrow> c \<notin> set (take i s)"
  by (induction s arbitrary: i) (auto split: if_splits)

lemma placeholder: "\<not> isID ''{id}''" "CHR ''/'' \<notin> set ''{id}''" "CHR ''?'' \<notin> set ''{id}''"
  by code_simp+

lemma query_not_slash: "CHR ''?'' \<noteq> CHR ''/''"
  by simp

lemma cleanEndpoint_parts:
  "\<exists>s. CHR ''?'' \<notin> set s \<and>
     split_on (CHR ''/'') (cleanEndpoint e) = map (\<lambda>w. if isID w then ''{id}'' else w) (split_on (CHR ''/'') s) \<and>
     cleanEndpoint e = join_on (CHR ''/'') (map (\<lambda>w. if isID w then ''{id}'' else w) (split_on (CHR ''/'') s))"
proof -
  define s where "s = (case IndexByte e (CHR ''?'') of None \<Rightarrow> e | Some i \<Rightarrow> take i e)"
  have q: "CHR ''?'' \<notin> set s" by (auto simp: s_def IndexByte_None IndexByte_take split: option.splits)
  have c: "cleanEndpoint e = join_on (CHR ''/'') (map (\<lambda>w. if isID w then ''{id}'' else w) (split_on (CHR ''/'') s))"
    by (simp add: cleanEndpoint_def s_def)
  have "\<forall>w \<in> set (map (\<lambda>w. if isID w then ''{id}'' else w) (split_on (CHR ''/'') s)). CHR ''/'' \<notin> set w"
    using split_on_parts [of _ "CHR ''/''" s] placeholder(2) by auto
  with q c show ?thesis by (intro exI [of _ s]) (simp add: split_join)
qed

lemma join_on_avoids: "d \<noteq> c \<Longrightarrow> (\<And>w. w \<in> set ws \<Longrightarrow> d \<notin> set w) \<Longrightarrow> d \<notin> set (join_on c ws)"
  using join_on_chars by blast

lemma cleanEndpoint_no_query: "CHR ''?'' \<notin> set (cleanEndpoint e)"
proof -
  obtain s where s: "CHR ''?'' \<notin> set s"
      "cleanEndpoint e = join_on (CHR ''/'') (map (\<lambda>w. if isID w then ''{id}'' else w) (split_on (CHR ''/'') s))"
    using cleanEndpoint_parts [of e] by blast
  have "CHR ''?'' \<notin> set (if isID w then ''{id}'' else w)" if "w \<in> set (split_on (CHR ''/'') s)" for w
    using that split_on_parts [of w "CHR ''/''" s] s(1) placeholder(3) by auto
  then show ?thesis unfolding s(2) by (intro join_on_avoids) (simp, unfold set_map, blast)
qed

lemma cleanEndpoint_no_id: "part \<in> set (split_on (CHR ''/'') (cleanEndpoint e)) \<Longrightarrow> \<not> isID part"
  using cleanEndpoint_parts [of e] placeholder(1) by auto

lemma join_split: "join_on c (split_on c s) = s"
proof (induction s)
  case (Cons x s)
  obtain w ws where "split_on c s = w # ws" by (cases "split_on c s") auto
  with Cons show ?case by (cases ws) auto
qed simp

lemma cleanEndpoint_query: "CHR ''?'' \<notin> set path \<Longrightarrow> cleanEndpoint (path @ ''?'' @ query) = cleanEndpoint path"
  by (simp add: cleanEndpoint_def IndexByte_append IndexByte_None [THEN iffD2])

text \<open>The endpoint under which a request is counted names a route: it is the path without its
  query, part by part, with a placeholder for every part that looks like an ID. No ID and no query
  is left, and cleaning it again changes nothing.\<close>
theorem clean_endpoint_is_route:
  assumes "CHR ''?'' \<notin> set path"
  shows "cleanEndpoint (path @ ''?'' @ query) = cleanEndpoint path \<and>
     split_on (CHR ''/'') (cleanEndpoint path) =
       map (\<lambda>w. if isID w then ''{id}'' else w) (split_on (CHR ''/'') path) \<and>
     filter isID (split_on (CHR ''/'') (cleanEndpoint path)) = [] \<and> CHR ''?'' \<notin> set (cleanEndpoint path) \<and>
     cleanEndpoint (cleanEndpoint path) = cleanEndpoint path"
proof -
  let ?c = "cleanEndpoint path" and ?repl = "map (\<lambda>w. if isID w then ''{id}'' else w)"
  have "\<forall>w \<in> set (?repl (split_on (CHR ''/'') path)). CHR ''/'' \<notin> set w"
    using split_on_parts [of _ "CHR ''/''" path] placeholder(2) by auto
  then have parts: "split_on (CHR ''/'') ?c = ?repl (split_on (CHR ''/'') path)"
    using assms by (simp add: cleanEndpoint_def IndexByte_None [THEN iffD2] split_join)
  have "?repl (split_on (CHR ''/'') ?c) = split_on (CHR ''/'') ?c"
    using cleanEndpoint_no_id by (intro map_idI) auto
  then have "cleanEndpoint ?c = ?c"
    using cleanEndpoint_no_query [of path] by (simp add: cleanEndpoint_def [of "cleanEndpoint path"] IndexByte_None [THEN iffD2] join_split)
  moreover have "filter isID (split_on (CHR ''/'') ?c) = []" using cleanEndpoint_no_id by (auto simp: filter_empty_conv)
  ultimately show ?thesis using parts cleanEndpoint_query [OF assms] cleanEndpoint_no_query [of path] by simp
qed

lemma clean_endpoint_is_route_witness:
  "cleanEndpoint ''/jobs/42/status?x=1'' = ''/jobs/{id}/status'' \<and>
   cleanEndpoint (cleanEndpoint ''/jobs/42/status'') = ''/jobs/{id}/status''"
proof -
  have "CHR ''?'' \<notin> set ''/jobs/42/status''" by code_simp
  note r = clean_endpoint_is_route [OF this, of "''x=1''"]
  have "cleanEndpoint ''/jobs/42/status'' = ''/jobs/{id}/status''" by code_simp
  with r show ?thesis by simp
qed


section \<open>Capturing the status\<close>

text \<open>
  What the writer of \<open>net/http\<close> keeps of an answer: whether the header is out, and its status. A
  second header is ignored, one outside 100..999 panics, an informational one is sent at once
  and is not the answer's, and a body without a header sends 200 first.
\<close>

record http_writer =
  HW_wroteHeader :: bool
  HW_status :: int

definition fresh_writer :: http_writer where
  "fresh_writer = \<lparr>HW_wroteHeader = False, HW_status = 0\<rparr>"

definition final_status :: "int \<Rightarrow> bool" where
  "final_status code \<longleftrightarrow> code = 101 \<or> (200 \<le> code \<and> code \<le> 999)"

definition http_WriteHeader :: "int \<Rightarrow> http_writer \<Rightarrow> http_writer option" where
  "http_WriteHeader code w =
     (if HW_wroteHeader w then Some w
      else if code < 100 \<or> 999 < code then None
      else if \<not> final_status code then Some w
      else Some (w\<lparr>HW_wroteHeader := True, HW_status := code\<rparr>))"

definition http_Write :: "string \<Rightarrow> http_writer \<Rightarrow> http_writer option" where
  "http_Write b w = (if HW_wroteHeader w then Some w else http_WriteHeader 200 w)"

text \<open>The server sends 200 for a handler that wrote nothing.\<close>

definition sent_status :: "http_writer \<Rightarrow> int" where
  "sent_status w = (if HW_wroteHeader w then HW_status w else 200)"

text \<open>What a handler does to its writer.\<close>

datatype write_event = EvHeader int | EvBody string

fun run_events ::
  "(int \<Rightarrow> 'w \<Rightarrow> 'w option) \<Rightarrow> (string \<Rightarrow> 'w \<Rightarrow> 'w option) \<Rightarrow> write_event list \<Rightarrow> 'w \<Rightarrow> 'w option" where
  "run_events header body [] w = Some w"
| "run_events header body (EvHeader code # evs) w = do { w \<leftarrow> header code w; run_events header body evs w }"
| "run_events header body (EvBody b # evs) w = do { w \<leftarrow> body b w; run_events header body evs w }"

definition is_body :: "write_event \<Rightarrow> bool" where
  "is_body ev = (case ev of EvBody b \<Rightarrow> True | EvHeader code \<Rightarrow> False)"

text \<open>At most one header, and it comes first: what every handler of the API does.\<close>

fun well_behaved :: "write_event list \<Rightarrow> bool" where
  "well_behaved (EvHeader code # evs) \<longleftrightarrow> final_status code \<and> list_all is_body evs"
| "well_behaved evs \<longleftrightarrow> list_all is_body evs"

record responseWriter =
  RW_ResponseWriter :: http_writer
  RW_statusCode :: int
  RW_written :: bool

definition responseWriter_WriteHeader :: "int \<Rightarrow> responseWriter \<Rightarrow> responseWriter option" where
  "responseWriter_WriteHeader code rw =
     (let rw = (if \<not> RW_written rw then rw\<lparr>RW_statusCode := code, RW_written := True\<rparr> else rw)
      in map_option (\<lambda>w. rw\<lparr>RW_ResponseWriter := w\<rparr>) (http_WriteHeader code (RW_ResponseWriter rw)))"

definition responseWriter_Write :: "string \<Rightarrow> responseWriter \<Rightarrow> responseWriter option" where
  "responseWriter_Write b rw = do {
     rw \<leftarrow> (if \<not> RW_written rw then responseWriter_WriteHeader 200 rw else Some rw);
     map_option (\<lambda>w. rw\<lparr>RW_ResponseWriter := w\<rparr>) (http_Write b (RW_ResponseWriter rw))
   }"

text \<open>The wrapper of the API's router: the body goes straight to the writer inside.\<close>

record statusRecorder =
  SR_ResponseWriter :: http_writer
  SR_status :: int

definition statusRecorder_WriteHeader :: "int \<Rightarrow> statusRecorder \<Rightarrow> statusRecorder option" where
  "statusRecorder_WriteHeader status r =
     (let r = r\<lparr>SR_status := status\<rparr>
      in map_option (\<lambda>w. r\<lparr>SR_ResponseWriter := w\<rparr>) (http_WriteHeader status (SR_ResponseWriter r)))"

definition statusRecorder_Write :: "string \<Rightarrow> statusRecorder \<Rightarrow> statusRecorder option" where
  "statusRecorder_Write b r = map_option (\<lambda>w. r\<lparr>SR_ResponseWriter := w\<rparr>) (http_Write b (SR_ResponseWriter r))"

lemma http_bodies_run: "list_all is_body evs \<Longrightarrow> \<exists>w'. run_events http_WriteHeader http_Write evs w = Some w'"
proof (induction evs arbitrary: w)
  case (Cons ev evs)
  then obtain b where "ev = EvBody b" by (auto simp: is_body_def split: write_event.splits)
  moreover have "\<exists>w1. http_Write b w = Some w1" by (simp add: http_Write_def http_WriteHeader_def final_status_def)
  ultimately show ?case using Cons by auto
qed simp

lemma http_runs: "well_behaved evs \<Longrightarrow> \<exists>w'. run_events http_WriteHeader http_Write evs w = Some w'"
proof (cases "list_all is_body evs")
  case False
  assume "well_behaved evs"
  with False obtain code evs' where e: "evs = EvHeader code # evs'" "final_status code" "list_all is_body evs'"
    by (cases evs rule: well_behaved.cases) auto
  then have "\<exists>w1. http_WriteHeader code w = Some w1" by (auto simp: http_WriteHeader_def final_status_def)
  with e http_bodies_run show ?thesis by auto
qed (rule http_bodies_run)

text \<open>
  The contract of a writer that captures the status: it passes everything on, and as long as it
  is \<open>faithful\<close> what it holds is what is sent.
\<close>

locale status_capture =
  fixes wrap :: "http_writer \<Rightarrow> 'w"
    and header :: "int \<Rightarrow> 'w \<Rightarrow> 'w option"
    and body :: "string \<Rightarrow> 'w \<Rightarrow> 'w option"
    and inner :: "'w \<Rightarrow> http_writer"
    and captured :: "'w \<Rightarrow> int"
    and faithful :: "'w \<Rightarrow> bool"
  assumes wrap_inner: "inner (wrap w) = w"
    and wrap_faithful: "\<not> HW_wroteHeader w \<Longrightarrow> faithful (wrap w)"
    and header_inner: "map_option inner (header code x) = http_WriteHeader code (inner x)"
    and body_inner: "map_option inner (body b x) = http_Write b (inner x)"
    and header_faithful:
      "faithful x \<Longrightarrow> \<not> HW_wroteHeader (inner x) \<Longrightarrow> final_status code \<Longrightarrow> header code x = Some y \<Longrightarrow> faithful y"
    and body_faithful: "faithful x \<Longrightarrow> body b x = Some y \<Longrightarrow> faithful y"
    and faithful_captured: "faithful x \<Longrightarrow> captured x = sent_status (inner x)"
begin

lemma run_inner: "map_option inner (run_events header body evs x) = run_events http_WriteHeader http_Write evs (inner x)"
proof (induction evs arbitrary: x)
  case (Cons ev evs)
  show ?case
  proof (cases ev)
    case (EvHeader code)
    then show ?thesis using Cons [of "the (header code x)"] header_inner [of code x, symmetric] by (cases "header code x") simp_all
  next
    case (EvBody b)
    then show ?thesis using Cons [of "the (body b x)"] body_inner [of b x, symmetric] by (cases "body b x") simp_all
  qed
qed simp

lemma bodies_faithful: "faithful x \<Longrightarrow> list_all is_body evs \<Longrightarrow> run_events header body evs x = Some y \<Longrightarrow> faithful y"
proof (induction evs arbitrary: x)
  case (Cons ev evs)
  then obtain b x1 where "body b x = Some x1" "run_events header body evs x1 = Some y"
    by (auto simp: is_body_def split: write_event.splits bind_splits)
  with Cons body_faithful show ?case by auto
qed simp

lemma run_faithful:
  assumes "\<not> HW_wroteHeader w" "well_behaved evs" "run_events header body evs (wrap w) = Some y"
  shows "faithful y"
proof (cases "list_all is_body evs")
  case True
  with bodies_faithful [OF wrap_faithful [OF assms(1)]] assms(3) show ?thesis by blast
next
  case False
  with assms(2) obtain code evs' where e: "evs = EvHeader code # evs'" "final_status code" "list_all is_body evs'"
    by (cases evs rule: well_behaved.cases) auto
  with assms(3) obtain x where x: "header code (wrap w) = Some x" "run_events header body evs' x = Some y"
    by (auto split: bind_splits)
  have "faithful x" using header_faithful [OF wrap_faithful [OF assms(1)]] assms(1) e(2) x(1) by (simp add: wrap_inner)
  with bodies_faithful e(3) x(2) show ?thesis by blast
qed

text \<open>A well-behaved handler runs to its end, the client gets the same answer, and the status is captured.\<close>

lemma captures:
  assumes "well_behaved evs"
  shows "\<exists>x. run_events header body evs (wrap fresh_writer) = Some x \<and>
     run_events http_WriteHeader http_Write evs fresh_writer = Some (inner x) \<and> captured x = sent_status (inner x)"
proof -
  obtain w where w: "run_events http_WriteHeader http_Write evs fresh_writer = Some w" using http_runs [OF assms] by blast
  with run_inner [of evs "wrap fresh_writer"] obtain x where
    x: "run_events header body evs (wrap fresh_writer) = Some x" "w = inner x" by (auto simp: wrap_inner)
  with run_faithful [OF _ assms x(1)] faithful_captured w show ?thesis by (auto simp: fresh_writer_def)
qed

end

definition rw_faithful :: "responseWriter \<Rightarrow> bool" where
  "rw_faithful x \<longleftrightarrow> RW_written x = HW_wroteHeader (RW_ResponseWriter x) \<and> RW_statusCode x = sent_status (RW_ResponseWriter x)"

definition sr_faithful :: "statusRecorder \<Rightarrow> bool" where
  "sr_faithful x \<longleftrightarrow> SR_status x = sent_status (SR_ResponseWriter x)"

lemmas writer_defs = responseWriter_WriteHeader_def responseWriter_Write_def statusRecorder_WriteHeader_def
  statusRecorder_Write_def http_WriteHeader_def http_Write_def rw_faithful_def sr_faithful_def sent_status_def
  final_status_def

interpretation rw: status_capture "\<lambda>w. \<lparr>RW_ResponseWriter = w, RW_statusCode = 200, RW_written = False\<rparr>"
  responseWriter_WriteHeader responseWriter_Write RW_ResponseWriter RW_statusCode rw_faithful
  by unfold_locales (auto simp: writer_defs Let_def split: if_splits)

interpretation sr: status_capture "\<lambda>w. \<lparr>SR_ResponseWriter = w, SR_status = 200\<rparr>"
  statusRecorder_WriteHeader statusRecorder_Write SR_ResponseWriter SR_status sr_faithful
  by unfold_locales (auto simp: writer_defs Let_def split: if_splits)


text \<open>
  The middleware of the metrics package: \<open>route\<close> is what the router knows of the request, with
  the error of \<open>GetPathTemplate\<close>, and the handler is what it writes and does to the state.
\<close>

definition route_endpoint :: "(string + string) option \<Rightarrow> string \<Rightarrow> string" where
  "route_endpoint route path =
     (let endpoint = (case route of Some (Inr pathTemplate) \<Rightarrow> pathTemplate | _ \<Rightarrow> '''')
      in if endpoint = '''' then path else endpoint)"

definition HTTPMiddleware ::
  "(string + string) option \<Rightarrow> string \<Rightarrow> string \<Rightarrow> Duration
     \<Rightarrow> ('s \<times> metrics \<Rightarrow> (write_event list \<times> 's \<times> metrics) option) \<Rightarrow> 's \<times> metrics
     \<Rightarrow> (http_writer \<times> 's \<times> metrics) option" where
  "HTTPMiddleware route path method duration handler s = do {
     let rw = \<lparr>RW_ResponseWriter = fresh_writer, RW_statusCode = 200, RW_written = False\<rparr>;
     let endpoint = cleanEndpoint (route_endpoint route path);
     (evs, s, m) \<leftarrow> handler s;
     rw \<leftarrow> run_events responseWriter_WriteHeader responseWriter_Write evs rw;
     m \<leftarrow> IncrementHTTPRequests method endpoint (RW_statusCode rw) m;
     m \<leftarrow> RecordHTTPRequestDuration duration method endpoint m;
     Some (RW_ResponseWriter rw, s, m)
   }"

section \<open>Measuring on complete metrics\<close>

definition ready :: "metrics \<Rightarrow> bool" where
  "ready m \<longleftrightarrow> (\<exists>mt. m = Some mt \<and> M_fields mt = UNIV)"

lemma fresh_ready [simp]: "ready fresh_metrics"
  by (simp add: ready_def fresh_metrics_def)

lemma ready_not_None: "ready m \<Longrightarrow> m \<noteq> None"
  by (auto simp: ready_def)

text \<open>On complete metrics a measurement always succeeds; its effect as a simplification rule.\<close>

definition logged :: "instrument \<Rightarrow> rat \<Rightarrow> attributes \<Rightarrow> metrics \<Rightarrow> metrics" where
  "logged i v as m = map_option (\<lambda>mt. mt\<lparr>M_log := M_log mt @ [\<lparr>M_instrument = i, M_value = v, M_attributes = as\<rparr>]\<rparr>) m"

lemma observe_ready [simp]: "ready m \<Longrightarrow> observe i v as m = Some (logged i v as m)"
  by (auto simp: ready_def logged_def)

lemma ready_logged [simp]: "ready (logged i v as m) = ready m"
  by (auto simp: ready_def logged_def)

lemma logged_None [simp]: "logged i v as m = None \<longleftrightarrow> m = None"
  by (simp add: logged_def)

lemma not_ready_None [simp]: "\<not> ready None"
  by (simp add: ready_def)

lemma reported_logged [simp]:
  "ready m \<Longrightarrow> reported j p (logged i v as m) = reported j p m + (if i = j \<and> p as then v else 0)"
  by (auto simp: ready_def logged_def reported_def)

lemma HTTP_methods_ready:
  assumes "ready m"
  shows "\<exists>m'. (do { m \<leftarrow> IncrementHTTPRequests method endpoint status m; RecordHTTPRequestDuration duration method endpoint m }) = Some m' \<and>
    ready m' \<and>
    (\<forall>p. reported HTTPRequests p m' = reported HTTPRequests p m +
       (if p [(''method'', AString method), (''endpoint'', AString endpoint), (''status_code'', AInt status)] then 1 else 0)) \<and>
    (\<forall>p. reported HTTPErrors p m' = reported HTTPErrors p m +
       (if 400 \<le> status \<and> p [(''method'', AString method), (''endpoint'', AString endpoint), (''status_code'', AInt status)] then 1 else 0))"
  using assms by (simp add: IncrementHTTPRequests_def RecordHTTPRequestDuration_def)

text \<open>The middleware counts one request, under the cleaned route and the status that was sent.\<close>

lemma HTTPMiddleware_counts:
  assumes "handler s = Some (evs, s', m)" "ready m" "well_behaved evs"
  shows "\<exists>w m'. HTTPMiddleware route path method duration handler s = Some (w, s', m') \<and> ready m' \<and>
     run_events http_WriteHeader http_Write evs fresh_writer = Some w \<and>
     reported HTTPRequests (\<lambda>as. (''status_code'', AInt (sent_status w)) \<in> set as) m' =
       reported HTTPRequests (\<lambda>as. (''status_code'', AInt (sent_status w)) \<in> set as) m + 1"
proof -
  obtain x where x: "run_events responseWriter_WriteHeader responseWriter_Write evs
        \<lparr>RW_ResponseWriter = fresh_writer, RW_statusCode = 200, RW_written = False\<rparr> = Some x"
      "run_events http_WriteHeader http_Write evs fresh_writer = Some (RW_ResponseWriter x)"
      "RW_statusCode x = sent_status (RW_ResponseWriter x)"
    using rw.captures [OF assms(3)] by blast
  let ?ep = "cleanEndpoint (route_endpoint route path)"
  obtain m' where m': "(do { m \<leftarrow> IncrementHTTPRequests method ?ep (RW_statusCode x) m; RecordHTTPRequestDuration duration method ?ep m }) = Some m'"
      "ready m'"
      "\<And>p. reported HTTPRequests p m' = reported HTTPRequests p m +
         (if p [(''method'', AString method), (''endpoint'', AString ?ep), (''status_code'', AInt (RW_statusCode x))] then 1 else 0)"
    using HTTP_methods_ready [OF assms(2)] by blast
  have "HTTPMiddleware route path method duration handler s = Some (RW_ResponseWriter x, s', m')"
    using assms(1) x(1) m'(1) by (auto simp: HTTPMiddleware_def Let_def split: bind_splits)
  with m' x show ?thesis by auto
qed

section \<open>What the helpers report\<close>

text \<open>The counts of \<open>UpdateJobCounts\<close>, whatever the order of the map; and that a second update adds
  to the first instead of replacing it.\<close>

lemma count_types_eq:
  "count_types js (a, u, r) = (a + int (length js), u + int (length (filter (\<lambda>j. Job_Type j = JobUnico) js)),
     r + int (length (filter (\<lambda>j. Job_Type j = JobRecurrente) js)))"
  by (induction js arbitrary: a u r) simp_all

lemma job_counts_accumulate:
  assumes "range_order order" "ready m"
  shows "\<exists>m'. UpdateJobCounts order (Some js) m = Some m' \<and> ready m' \<and>
     reported JobsActive (\<lambda>as. True) m' = reported JobsActive (\<lambda>as. True) m + of_nat (card (fmdom' js))"
proof -
  have "distinct (order (fmdom' js))" "set (order (fmdom' js)) = fmdom' js"
    using range_order_distinct [OF assms(1)] range_order_set [OF assms(1)] by simp_all
  then have "length (order (fmdom' js)) = card (fmdom' js)" using distinct_card by fastforce
  with assms(2) show ?thesis
    by (simp add: UpdateJobCounts_def unless_nil_def ready_not_None count_types_eq SetActiveJobs_def)
qed

text \<open>A leader change is counted when the leader is a new one, and once.\<close>

lemma UpdateClusterState_ready:
  assumes "ready m" "changed \<longleftrightarrow> CI_currentLeader ci \<noteq> leader \<and> leader \<noteq> ''''"
  shows "UpdateClusterState k leader (ci, m) =
     Some ((if changed then ci\<lparr>CI_currentLeader := leader\<rparr> else ci)\<lparr>CI_currentNodes := k\<rparr>,
       logged ClusterNodes (of_int k) []
         (if changed
          then logged RaftLeaderElections 1 [] (logged ClusterLeaderChanges 1
                 [(''old_leader'', AString (CI_currentLeader ci)), (''new_leader'', AString leader)] m)
          else m))"
  using assms
  by (simp add: ready_not_None UpdateClusterState_def RecordLeaderChange_def IncrementLeaderChanges_def IncrementLeaderElections_def SetClusterNodes_def)

lemma leader_change_counted_once:
  assumes "ready m" "UpdateClusterState k leader (ci, m) = Some (ci', m')" "leader \<noteq> ''''"
  shows "CI_currentLeader ci' = leader \<and> CI_currentNodes ci' = k \<and> ready m' \<and>
     reported ClusterLeaderChanges (\<lambda>as. True) m' =
       reported ClusterLeaderChanges (\<lambda>as. True) m + (if CI_currentLeader ci = leader then 0 else 1) \<and>
     (\<exists>ci'' m''. UpdateClusterState k leader (ci', m') = Some (ci'', m'') \<and>
        reported ClusterLeaderChanges (\<lambda>as. True) m'' = reported ClusterLeaderChanges (\<lambda>as. True) m')"
proof -
  have first: "ready m'" "CI_currentLeader ci' = leader" "CI_currentNodes ci' = k"
      "reported ClusterLeaderChanges (\<lambda>as. True) m' =
         reported ClusterLeaderChanges (\<lambda>as. True) m + (if CI_currentLeader ci = leader then 0 else 1)"
    using assms UpdateClusterState_ready [OF assms(1) refl, of k leader ci] by (auto split: if_splits)
  with UpdateClusterState_ready [OF first(1) refl, of k leader ci'] show ?thesis by simp
qed

text \<open>The gauges are set by adding: the one of the nodes grows by the whole number of nodes with every
  report, and the one of the worker counts the starts and never shows a stop.\<close>

lemma node_gauge_accumulates:
  assumes "ready m" "RecordNodeJoin x (ci, m) = Some (ci', m') \<or> RecordNodeLeave x (ci, m) = Some (ci', m') \<or>
      UpdateClusterState k leader (ci, m) = Some (ci', m')"
  shows "ready m' \<and> reported ClusterNodes (\<lambda>as. True) m' = reported ClusterNodes (\<lambda>as. True) m + of_int (CI_currentNodes ci')"
  using assms(2)
proof (elim disjE)
  assume "UpdateClusterState k leader (ci, m) = Some (ci', m')"
  with UpdateClusterState_ready [OF assms(1) refl, of k leader ci] assms(1) show ?thesis by (auto split: if_splits)
qed (use assms(1) in \<open>auto simp: ready_not_None RecordNodeJoin_def RecordNodeLeave_def SetClusterNodes_def
    IncrementClusterJoin_def IncrementClusterLeave_def Let_def split: if_splits\<close>)

lemma worker_gauge_never_falls:
  assumes "ready m" "RecordWorkerStarted now (wi, m) = Some (wi1, m1)" "RecordWorkerStopped (wi1, m1) = Some (wi2, m2)"
  shows "\<not> WI_isActive wi2 \<and> reported WorkerActive (\<lambda>as. True) m2 = reported WorkerActive (\<lambda>as. True) m + 1"
proof -
  have one: "wi1 = wi\<lparr>WI_startTime := now, WI_isActive := True\<rparr>" "m1 = logged WorkerActive 1 [] m"
    using assms(1,2) by (auto simp: RecordWorkerStarted_def SetWorkerActive_def ready_not_None)
  then have "wi2 = wi1\<lparr>WI_isActive := False\<rparr>" "m2 = logged WorkerActive 0 [] m1"
    using assms(1,3) by (simp_all add: RecordWorkerStopped_def SetWorkerActive_def ready_not_None)
  with one assms(1) show ?thesis by simp
qed

end
