(* ===== verification/Measurements.thy ===== *)
theory Measurements
  imports Instrumentation Api
begin

text \<open>
  Where the running node measures: the event handler of the application, the limit manager,
  the job handlers and the middleware of the router (the worker is in \<open>Run_Measurements\<close>). The node
  is extended with the global metrics, so every operation of the earlier theories runs on it as
  it is; what is added here are the calls on the metrics. The lemmas show that measuring never
  changes what the program does, that the gauges of the queue follow the replicated counters,
  and what the counters count.
\<close>

section \<open>The node with its metrics\<close>

record ('c, 'r) MeteredNode = "('c, 'r) Manager" +
  Met_global :: metrics

text \<open>\<open>if m := metrics.GetGlobalMetrics(); m != nil { f(m) }\<close>.\<close>

definition with_metrics ::
  "(metrics \<Rightarrow> metrics option) \<Rightarrow> ('c, 'r, 'z) MeteredNode_scheme \<Rightarrow> ('c, 'r, 'z) MeteredNode_scheme option" where
  "with_metrics f n =
     (if Met_global n = None then Some n else map_option (\<lambda>m. n\<lparr>Met_global := m\<rparr>) (f (Met_global n)))"

definition metered_eventHandler ::
  "('c, 'r) Env \<Rightarrow> int key_order \<Rightarrow> int \<Rightarrow> ('c, 'r, 'z) MeteredNode_scheme JobEventHandler" where
  "metered_eventHandler E order now event job n =
     (if IsLeader E n
      then if event = ''created''
           then (case job of None \<Rightarrow> Some n
                 | Some job \<Rightarrow> do { n \<leftarrow> AddJob E now job n; with_metrics (IncrementJobsCreated (job_type_string (Job_Type job))) n })
           else if event = ''deleted''
           then (case job of None \<Rightarrow> Some n
                 | Some job \<Rightarrow> do { n \<leftarrow> RemoveJob E order (Job_ID job) n; with_metrics (IncrementJobsDeleted (job_type_string (Job_Type job))) n })
           else Some n
      else Some n)"

definition metered_RecordJobAdded ::
  "('c, 'r) Env \<Rightarrow> LimitManager \<Rightarrow> Job \<Rightarrow> ('c, 'r, 'z) MeteredNode_scheme
     \<Rightarrow> (store_error option \<times> ('c, 'r, 'z) MeteredNode_scheme) option" where
  "metered_RecordJobAdded E lm job n =
     (let sz = CalculateSize (LM_sizeCalculator lm) job
      in case RecordJobAdded E lm job n of
           (Some err, n) \<Rightarrow> Some (Some err, n)
         | (None, n) \<Rightarrow>
             map_option (Pair None)
               (with_metrics (\<lambda>m. do { m \<leftarrow> UpdateQueueMemoryUsage sz m; UpdateQueueJobCount 1 m }) n))"

definition metered_RecordJobRemoved ::
  "('c, 'r) Env \<Rightarrow> LimitManager \<Rightarrow> Job \<Rightarrow> ('c, 'r, 'z) MeteredNode_scheme
     \<Rightarrow> (store_error option \<times> ('c, 'r, 'z) MeteredNode_scheme) option" where
  "metered_RecordJobRemoved E lm job n =
     (let sz = CalculateSize (LM_sizeCalculator lm) job
      in case RecordJobRemoved E lm job n of
           (Some err, n) \<Rightarrow> Some (Some err, n)
         | (None, n) \<Rightarrow>
             map_option (Pair None)
               (with_metrics (\<lambda>m. do { m \<leftarrow> UpdateQueueMemoryUsage (neg64 sz) m; UpdateQueueJobCount (- 1) m }) n))"

section \<open>The handlers\<close>

definition metered_writeError ::
  "int \<Rightarrow> string \<Rightarrow> ('c, 'r, 'z) MeteredNode_scheme \<Rightarrow> (Response \<times> ('c, 'r, 'z) MeteredNode_scheme) option" where
  "metered_writeError status message n =
     map_option (Pair (writeError status message))
       (if status \<ge> 400 then with_metrics (IncrementHTTPRequests ''ERROR'' ''error'' status) n else Some n)"

definition metered_proxyToLeader ::
  "('c, 'r) Api \<Rightarrow> Handlers \<Rightarrow> Request \<Rightarrow> ('c, 'r, 'z) MeteredNode_scheme
     \<Rightarrow> (Response \<times> ('c, 'r, 'z) MeteredNode_scheme) option" where
  "metered_proxyToLeader X h r n =
     (let leader = GetLeader (X_env X) n
      in if leader = '''' then metered_writeError 503 ''No leader available'' n
         else case getHTTPAddressForRaft (X_Getenv X) h leader of
           None \<Rightarrow> metered_writeError 503 ''Leader unavailable'' n
         | Some httpAddr \<Rightarrow>
             let url = httpAddr @ RQ_URI r
             in if \<not> X_NewRequest X url then metered_writeError 500 ''Internal error'' n
                else case X_Do X url r of
                  None \<Rightarrow> metered_writeError 502 ''Unable to reach leader'' n
                | Some resp \<Rightarrow> Some (resp, n))"

fun capacity_type_string :: "CapacityErrorType \<Rightarrow> string" where
  "capacity_type_string MemoryError = ''memory''"
| "capacity_type_string JobCountError = ''job_count''"
| "capacity_type_string (OtherCapacityError s) = s"

definition metered_create_and_record ::
  "('c, 'r) Api \<Rightarrow> Handlers \<Rightarrow> Job \<Rightarrow> ('c, 'r, 'z) MeteredNode_scheme
     \<Rightarrow> (Response \<times> ('c, 'r, 'z) MeteredNode_scheme) option" where
  "metered_create_and_record X h job n = do {
     (err, n) \<leftarrow> CreateJob (X_env X) (Some (metered_eventHandler (X_env X) (X_order X) (X_event X))) job n;
     if err \<noteq> None then metered_writeError 500 ''Failed to create job'' n
     else do {
       n \<leftarrow> (case H_limitManager h of None \<Rightarrow> Some n | Some lm \<Rightarrow> map_option snd (metered_RecordJobAdded (X_env X) lm job n));
       n \<leftarrow> with_metrics (IncrementJobsCreated (job_type_string (Job_Type job))) n;
       Some (respond (JobBody job), n)
     }
   }"

definition metered_CreateJob ::
  "('c, 'r) Api \<Rightarrow> Handlers \<Rightarrow> Request \<Rightarrow> ('c, 'r, 'z) MeteredNode_scheme
     \<Rightarrow> (Response \<times> ('c, 'r, 'z) MeteredNode_scheme) option" where
  "metered_CreateJob X h r n =
     (if \<not> IsLeader (X_env X) n then metered_proxyToLeader X h r n
      else case RQ_Create r of
        None \<Rightarrow> metered_writeError 400 ''Invalid request body'' n
      | Some req \<Rightarrow>
          (case ToJob (X_time X) (X_created X) (X_uuid X) req of
             Inl err \<Rightarrow>
               metered_writeError 400 (safeErrorMessage (X_regexp X) ''Invalid job data'' (Some (X_text X err)) True) n
           | Inr job \<Rightarrow>
               (case Validate (X_cron X) (X_validated X) job of
                  Some err \<Rightarrow>
                    metered_writeError 400
                      (safeErrorMessage (X_regexp X) ''Job validation failed'' (Some (X_text X err)) True) n
                | None \<Rightarrow>
                    (case admit h job n of
                       Some capErr \<Rightarrow>
                         map_option (Pair \<lparr>RS_Status = CapacityError_HTTPStatus capErr, RS_Body = CapacityBody capErr\<rparr>)
                           (with_metrics (IncrementJobRejections (capacity_type_string (CE_Type capErr))) n)
                     | None \<Rightarrow> metered_create_and_record X h job n))))"

definition metered_DeleteJob ::
  "('c, 'r) Api \<Rightarrow> Handlers \<Rightarrow> Request \<Rightarrow> ('c, 'r, 'z) MeteredNode_scheme
     \<Rightarrow> (Response \<times> ('c, 'r, 'z) MeteredNode_scheme) option" where
  "metered_DeleteJob X h r n =
     (if \<not> IsLeader (X_env X) n then metered_proxyToLeader X h r n
      else if RQ_ID r = '''' then metered_writeError 400 ''Job ID is required'' n
      else case Store_GetJob n (RQ_ID r) of
        None \<Rightarrow> metered_writeError 404 ''Job not found'' n
      | Some job \<Rightarrow> do {
          (err, n) \<leftarrow> DeleteJob (X_env X) (Some (metered_eventHandler (X_env X) (X_order X) (X_event X))) (RQ_ID r) n;
          if err \<noteq> None then metered_writeError 500 ''Failed to delete job'' n
          else do {
            n \<leftarrow> (case H_limitManager h of None \<Rightarrow> Some n | Some lm \<Rightarrow> map_option snd (metered_RecordJobRemoved (X_env X) lm job n));
            n \<leftarrow> with_metrics (IncrementJobsDeleted (job_type_string (Job_Type job))) n;
            Some (\<lparr>RS_Status = 204, RS_Body = NoBody\<rparr>, n)
          }
        })"


text \<open>A handler that measures nothing but its errors: all of them go through \<open>writeError\<close>.\<close>

definition metered_reply ::
  "Response \<times> ('c, 'r, 'z) MeteredNode_scheme \<Rightarrow> (Response \<times> ('c, 'r, 'z) MeteredNode_scheme) option" where
  "metered_reply rn = (case rn of (resp, n) \<Rightarrow>
     (case RS_Body resp of ErrorBody message \<Rightarrow> metered_writeError (RS_Status resp) message n | _ \<Rightarrow> Some (resp, n)))"

text \<open>The deferred measurement of the status queries.\<close>

definition with_latency ::
  "Duration \<Rightarrow> string \<Rightarrow> (Response \<times> ('c, 'r, 'z) MeteredNode_scheme) option
     \<Rightarrow> (Response \<times> ('c, 'r, 'z) MeteredNode_scheme) option" where
  "with_latency duration name result = do {
     (resp, n) \<leftarrow> result;
     n \<leftarrow> with_metrics (RecordStatusQueryLatency duration name) n;
     Some (resp, n)
   }"

fun metered_endpoint ::
  "('c, 'r) Api \<Rightarrow> Handlers \<Rightarrow> string \<Rightarrow> Duration \<Rightarrow> endpoint \<Rightarrow> Request \<Rightarrow> ('c, 'r, 'z) MeteredNode_scheme
     \<Rightarrow> (Response \<times> ('c, 'r, 'z) MeteredNode_scheme) option" where
  "metered_endpoint X h authToken d EP_CreateJob r n = metered_CreateJob X h r n"
| "metered_endpoint X h authToken d EP_ListJobsByStatus r n =
     with_latency d ''list_jobs_by_status'' (metered_reply (Handler_ListJobsByStatus X r n, n))"
| "metered_endpoint X h authToken d EP_GetJob r n = metered_reply (Handler_GetJob r n, n)"
| "metered_endpoint X h authToken d EP_DeleteJob r n = metered_DeleteJob X h r n"
| "metered_endpoint X h authToken d EP_GetJobStatus r n =
     with_latency d ''get_job_status'' (metered_reply (Handler_GetJobStatus X r n, n))"
| "metered_endpoint X h authToken d EP_GetJobExecutions r n =
     with_latency d ''get_job_executions'' (metered_reply (Handler_GetJobExecutions X r n, n))"
| "metered_endpoint X h authToken d EP_CancelJob r n =
     (if \<not> IsLeader (X_env X) n then metered_proxyToLeader X h r n else metered_reply (Handler_CancelJob X h r n))"
| "metered_endpoint X h authToken d EP_Health r n = Some (Handler_Health X h n, n)"
| "metered_endpoint X h authToken d EP_JoinCluster r n =
     (if authToken = '''' \<or> RQ_Authorization r = ''Bearer '' @ authToken
      then metered_reply (Handler_JoinCluster X r n)
      else Some (authMiddleware authToken (Handler_JoinCluster X) r n))"
| "metered_endpoint X h authToken d EP_ClusterDebug r n = Some (Handler_ClusterDebug X n, n)"

section \<open>The middleware of the router\<close>

text \<open>
  What an answer writes; an answer of 200 with a body may leave the header to the writer.
  \<open>encode\<close> is the JSON encoder.
\<close>

definition response_events :: "(body \<Rightarrow> string) \<Rightarrow> Response \<Rightarrow> write_event list" where
  "response_events encode resp =
     (if RS_Body resp = NoBody then [EvHeader (RS_Status resp)]
      else if RS_Status resp = 200 then [EvBody (encode (RS_Body resp))]
      else [EvHeader (RS_Status resp), EvBody (encode (RS_Body resp))])"

definition write_response ::
  "(body \<Rightarrow> string) \<Rightarrow> (Request \<Rightarrow> 's \<Rightarrow> (Response \<times> 's) option)
     \<Rightarrow> Request \<Rightarrow> statusRecorder \<Rightarrow> 's \<Rightarrow> (statusRecorder \<times> 's) option" where
  "write_response encode handler r w s = do {
     (resp, s) \<leftarrow> handler r s;
     w \<leftarrow> run_events statusRecorder_WriteHeader statusRecorder_Write (response_events encode resp) w;
     Some (w, s)
   }"

text \<open>The logging middleware reuses a recorder that it is given; the third part of its result is the line.\<close>

definition loggingMiddleware ::
  "(Request \<Rightarrow> statusRecorder \<Rightarrow> 's \<Rightarrow> (statusRecorder \<times> 's) option)
     \<Rightarrow> Request \<Rightarrow> statusRecorder + http_writer \<Rightarrow> 's \<Rightarrow> (statusRecorder \<times> 's \<times> string \<times> string \<times> int) option" where
  "loggingMiddleware next r w s = do {
     let rec = (case w of Inl rec \<Rightarrow> rec | Inr inner \<Rightarrow> \<lparr>SR_ResponseWriter = inner, SR_status = 200\<rparr>);
     (rec, s) \<leftarrow> next r rec s;
     Some (rec, s, RQ_Method r, RQ_URI r, SR_status rec)
   }"

definition metricsMiddleware ::
  "(Request \<Rightarrow> string) \<Rightarrow> Duration
     \<Rightarrow> (Request \<Rightarrow> statusRecorder \<Rightarrow> ('c, 'r, 'z) MeteredNode_scheme \<Rightarrow> (statusRecorder \<times> ('c, 'r, 'z) MeteredNode_scheme \<times> 'l) option)
     \<Rightarrow> Request \<Rightarrow> http_writer \<Rightarrow> ('c, 'r, 'z) MeteredNode_scheme \<Rightarrow> (http_writer \<times> ('c, 'r, 'z) MeteredNode_scheme \<times> 'l) option" where
  "metricsMiddleware URL_Path duration next r w n = do {
     (rec, n, l) \<leftarrow> next r \<lparr>SR_ResponseWriter = w, SR_status = 200\<rparr> n;
     n \<leftarrow> with_metrics (\<lambda>m. do {
            m \<leftarrow> IncrementHTTPRequests (RQ_Method r) (URL_Path r) (SR_status rec) m;
            RecordHTTPRequestDuration duration (RQ_Method r) (URL_Path r) m }) n;
     Some (SR_ResponseWriter rec, n, l)
   }"

text \<open>The chain of \<open>NewRouter\<close> inside the CORS middleware, which answers OPTIONS itself.\<close>

definition metered_serve ::
  "(Request \<Rightarrow> string) \<Rightarrow> (body \<Rightarrow> string) \<Rightarrow> Duration \<Rightarrow> ('c, 'r) Api \<Rightarrow> Handlers \<Rightarrow> string \<Rightarrow> endpoint \<Rightarrow> Request
     \<Rightarrow> ('c, 'r, 'z) MeteredNode_scheme \<Rightarrow> (http_writer \<times> ('c, 'r, 'z) MeteredNode_scheme \<times> (string \<times> string \<times> int)) option" where
  "metered_serve URL_Path encode d X h authToken e r n =
     metricsMiddleware URL_Path d
       (\<lambda>r rec. loggingMiddleware (write_response encode (metered_endpoint X h authToken d e)) r (Inl rec))
       r fresh_writer n"

section \<open>Measuring is transparent\<close>

text \<open>The operations of the node do not look at the metrics and do not change them.\<close>

lemma raftApply_global:
  "raftApply E cmd (n\<lparr>Met_global := g\<rparr>) = apsnd (\<lambda>n. n\<lparr>Met_global := g\<rparr>) (raftApply E cmd n)"
  by (simp add: raftApply_def Let_def split: prod.splits apply_outcome.splits)

lemma raftApply_keeps_global [simp]: "Met_global (snd (raftApply E cmd n)) = Met_global n"
  by (simp add: raftApply_def Let_def split: prod.splits apply_outcome.splits)


lemma raftApply_global_eq: "raftApply E cmd n = (e, n') \<Longrightarrow> Met_global n' = Met_global n"
  using raftApply_keeps_global [of E cmd n] by simp

lemma if_leader_keeps_global [simp]:
  "Met_global (if_leader E (CreateSlot E d) n) = Met_global n" "Met_global (if_leader E (DeleteSlot E k) n) = Met_global n"
  by (simp_all add: if_leader_def CreateSlot_def DeleteSlot_def)

lemma on_wheel_keeps_global: "on_wheel f n = Some n' \<Longrightarrow> Met_global n' = Met_global n"
  by (auto simp: on_wheel_Some)

lemma AddJob_keeps_global: "AddJob E now job n = Some n' \<Longrightarrow> Met_global n' = Met_global n"
  by (auto simp: AddJob_def Let_def split: option.splits if_splits bind_splits dest!: on_wheel_keeps_global)

lemma drop_from_slot_keeps_global: "drop_from_slot E key d i n = Some n' \<Longrightarrow> Met_global n' = Met_global n"
  by (auto simp: drop_from_slot_def Let_def split: if_splits dest!: on_wheel_keeps_global)

lemma fallback_keeps_global: "fallback_search E i load keys n = Some (b, n') \<Longrightarrow> Met_global n' = Met_global n"
  by (induction E i load keys n rule: fallback_search.induct)
    (auto split: option.splits if_splits bind_splits dest!: drop_from_slot_keeps_global)

lemma RemoveJob_keeps_global: "RemoveJob E order i n = Some n' \<Longrightarrow> Met_global n' = Met_global n"
  by (auto simp: RemoveJob_def removeJobFallback_def Let_def split: option.splits if_splits bind_splits
      dest!: drop_from_slot_keeps_global fallback_keeps_global)

lemma IsLeader_global [simp]: "IsLeader E (n\<lparr>Met_global := g\<rparr>) = IsLeader E n"
  by (simp add: IsLeader_def)

lemmas counter_defs = IncrementUsage_def DecrementUsage_def Counter_Increment_def Counter_Decrement_def
  UpdateMemoryUsage_def UpdateJobCount_def Store_Apply_def

lemma counters_global:
  "UpdateMemoryUsage E d (n\<lparr>Met_global := g\<rparr>) = apsnd (\<lambda>n. n\<lparr>Met_global := g\<rparr>) (UpdateMemoryUsage E d n)"
  "UpdateJobCount E d (n\<lparr>Met_global := g\<rparr>) = apsnd (\<lambda>n. n\<lparr>Met_global := g\<rparr>) (UpdateJobCount E d n)"
  "Met_global (snd (UpdateMemoryUsage E d n)) = Met_global n" "Met_global (snd (UpdateJobCount E d n)) = Met_global n"
  by (simp_all add: counter_defs raftApply_global)

lemma RecordJobAdded_global:
  "RecordJobAdded E lm job (n\<lparr>Met_global := g\<rparr>) = apsnd (\<lambda>n. n\<lparr>Met_global := g\<rparr>) (RecordJobAdded E lm job n)"
  "RecordJobRemoved E lm job (n\<lparr>Met_global := g\<rparr>) = apsnd (\<lambda>n. n\<lparr>Met_global := g\<rparr>) (RecordJobRemoved E lm job n)"
  by (auto simp: RecordJobAdded_def RecordJobRemoved_def IncrementUsage_def DecrementUsage_def Counter_Increment_def
      Counter_Decrement_def counters_global Let_def split: prod.splits option.splits)


definition metrics_ok :: "metrics \<Rightarrow> bool" where
  "metrics_ok g \<longleftrightarrow> g = None \<or> ready g"

definition total_method :: "(metrics \<Rightarrow> metrics option) \<Rightarrow> bool" where
  "total_method f \<longleftrightarrow> (\<forall>m. ready m \<longrightarrow> (\<exists>m'. f m = Some m' \<and> ready m'))"

lemma with_metrics_ok:
  assumes "total_method f" "metrics_ok (Met_global n)"
  shows "\<exists>g. metrics_ok g \<and> with_metrics f n = Some (n\<lparr>Met_global := g\<rparr>)"
proof (cases "Met_global n")
  case None
  then have "with_metrics f n = Some (n\<lparr>Met_global := None\<rparr>)" by (simp add: with_metrics_def)
  then show ?thesis by (auto simp: metrics_ok_def)
next
  case (Some mt)
  then have "ready (Met_global n)" using assms(2) by (simp add: metrics_ok_def)
  with assms(1) obtain m' where "f (Met_global n) = Some m'" "ready m'" by (auto simp: total_method_def)
  with Some have "metrics_ok m'" "with_metrics f n = Some (n\<lparr>Met_global := m'\<rparr>)" by (simp_all add: with_metrics_def metrics_ok_def)
  then show ?thesis by blast
qed

lemma total_methods [simp]:
  "total_method (IncrementJobsCreated ty)" "total_method (IncrementJobsDeleted ty)"
  "total_method (\<lambda>m. UpdateQueueMemoryUsage d m \<bind> UpdateQueueJobCount c)"
  "total_method (IncrementHTTPRequests meth ep st)" "total_method (IncrementJobRejections s)"
  "total_method (RecordStatusQueryLatency dur name)"
  by (auto simp: total_method_def metrics_methods metrics_ok_def)

text \<open>The second result is the first but for the metrics.\<close>

definition measured ::
  "('a \<times> ('c, 'r, 'z) MeteredNode_scheme) option \<Rightarrow> ('a \<times> ('c, 'r, 'z) MeteredNode_scheme) option \<Rightarrow> bool" where
  "measured p m \<longleftrightarrow>
     (case p of None \<Rightarrow> m = None
      | Some (x, n) \<Rightarrow> \<exists>g. metrics_ok g \<and> m = Some (x, n\<lparr>Met_global := g\<rparr>))"

lemma measured_bind:
  assumes "measured p m" "\<And>x n g. p = Some (x, n) \<Longrightarrow> metrics_ok g \<Longrightarrow> measured (f (x, n)) (k (x, n\<lparr>Met_global := g\<rparr>))"
  shows "measured (p \<bind> f) (m \<bind> k)"
proof (cases p)
  case (Some xn)
  obtain x n where xn: "xn = (x, n)" by (cases xn)
  with Some assms(1) obtain g where "metrics_ok g" "m = Some (x, n\<lparr>Met_global := g\<rparr>)" by (auto simp: measured_def)
  with assms(2) [of x n g] Some xn show ?thesis by simp
qed (use assms in \<open>simp add: measured_def\<close>)

lemma measured_Some: "metrics_ok (Met_global n) \<Longrightarrow> measured (Some (x, n)) (Some (x, n))"
  by (auto simp: measured_def intro: exI [of _ "Met_global n"])

lemma measured_step:
  assumes "total_method f" "metrics_ok (Met_global n)"
  shows "measured (Some (x, n)) (map_option (Pair x) (with_metrics f n))"
  using with_metrics_ok [OF assms] by (auto simp: measured_def)

lemma measured_error: "metrics_ok (Met_global n) \<Longrightarrow> measured (Some (writeError status message, n)) (metered_writeError status message n)"
  by (auto simp: metered_writeError_def intro: measured_step measured_Some)

lemma measured_reply: "metrics_ok (Met_global n) \<Longrightarrow> measured (Some (resp, n)) (metered_reply (resp, n))"
proof (cases "RS_Body resp")
  case (ErrorBody message)
  then have "writeError (RS_Status resp) message = resp" by (cases resp) (simp add: writeError_def)
  moreover assume "metrics_ok (Met_global n)"
  ultimately show ?thesis using measured_error [of n "RS_Status resp" message] ErrorBody by (simp add: metered_reply_def)
qed (simp_all add: metered_reply_def measured_Some)


lemma measured_event:
  assumes "metrics_ok (Met_global n)"
  shows "measured (map_option (Pair x) (eventHandler E order now event job n))
     (map_option (Pair x) (metered_eventHandler E order now event job n))"
proof -
  have step: "measured (map_option (Pair x) p) (map_option (Pair x) (p \<bind> with_metrics f))"
    if "total_method f" "\<And>n'. p = Some n' \<Longrightarrow> Met_global n' = Met_global n" for p f
  proof (cases p)
    case (Some n')
    with that(2) assms measured_step [OF that(1), of n' x] show ?thesis by simp
  qed (simp add: measured_def)
  show ?thesis
    using assms by (auto simp: eventHandler_def metered_eventHandler_def split: option.splits
        intro: measured_Some step AddJob_keeps_global RemoveJob_keeps_global)
qed

lemma measured_CreateJob:
  assumes "metrics_ok (Met_global n)"
  shows "measured (CreateJob E (Some (eventHandler E order now)) job n)
     (CreateJob E (Some (metered_eventHandler E order now)) job n)"
  unfolding CreateJob_def using assms
  by (auto intro: measured_Some measured_event split: prod.splits option.splits dest!: raftApply_global_eq)

lemma measured_DeleteJob:
  assumes "metrics_ok (Met_global n)"
  shows "measured (DeleteJob E (Some (eventHandler E order now)) i n)
     (DeleteJob E (Some (metered_eventHandler E order now)) i n)"
  unfolding DeleteJob_def using assms
  by (auto simp: Let_def intro: measured_Some measured_event split: prod.splits option.splits dest!: raftApply_global_eq)

lemma RecordJob_keeps_global:
  "Met_global (snd (RecordJobAdded E lm job n)) = Met_global n" "Met_global (snd (RecordJobRemoved E lm job n)) = Met_global n"
proof -
  have *: "UpdateMemoryUsage E d n = (e, n') \<Longrightarrow> Met_global n' = Met_global n"
    "UpdateJobCount E d n = (e, n') \<Longrightarrow> Met_global n' = Met_global n" for d e and n n' :: "('a, 'b, 'c) MeteredNode_scheme"
    using counters_global(3,4) [of E d n] by simp_all
  show "Met_global (snd (RecordJobAdded E lm job n)) = Met_global n" "Met_global (snd (RecordJobRemoved E lm job n)) = Met_global n"
    by (auto simp: RecordJobAdded_def RecordJobRemoved_def IncrementUsage_def DecrementUsage_def Counter_Increment_def
        Counter_Decrement_def counters_global Let_def split: prod.splits option.splits dest!: *)
qed

text \<open>The limit manager on the node with other metrics, and on a node whose metrics were written before.\<close>

lemma measured_RecordJobAdded:
  assumes "metrics_ok g"
  shows "measured (Some (RecordJobAdded E lm job n)) (metered_RecordJobAdded E lm job (n\<lparr>Met_global := g\<rparr>))"
    "measured (Some (RecordJobRemoved E lm job n)) (metered_RecordJobRemoved E lm job (n\<lparr>Met_global := g\<rparr>))"
proof -
  have step: "measured (Some (None, n')) (map_option (Pair None) (with_metrics f (n'\<lparr>Met_global := g\<rparr>)))"
    if "total_method f" for f and n' :: "('a, 'b, 'c) MeteredNode_scheme"
    using measured_step [OF that, of "n'\<lparr>Met_global := g\<rparr>" None] assms by (auto simp: measured_def)
  have keep: "measured (Some (e, n')) (Some (e, n'\<lparr>Met_global := g\<rparr>))" for e and n' :: "('a, 'b, 'c) MeteredNode_scheme"
    using assms by (auto simp: measured_def)
  show "measured (Some (RecordJobAdded E lm job n)) (metered_RecordJobAdded E lm job (n\<lparr>Met_global := g\<rparr>))"
    unfolding metered_RecordJobAdded_def RecordJobAdded_global Let_def
    by (cases "RecordJobAdded E lm job n"; cases "fst (RecordJobAdded E lm job n)") (simp_all add: step keep)
  show "measured (Some (RecordJobRemoved E lm job n)) (metered_RecordJobRemoved E lm job (n\<lparr>Met_global := g\<rparr>))"
    unfolding metered_RecordJobRemoved_def RecordJobAdded_global Let_def
    by (cases "RecordJobRemoved E lm job n"; cases "fst (RecordJobRemoved E lm job n)") (simp_all add: step keep)
qed


lemma measured_proxy: "metrics_ok (Met_global n) \<Longrightarrow> measured (Some (proxyToLeader X h r n, n)) (metered_proxyToLeader X h r n)"
  by (auto simp: proxyToLeader_def metered_proxyToLeader_def Let_def intro: measured_error measured_Some split: option.splits)

text \<open>A measurement at the last moment of a handler, and one made by the limit manager before it.\<close>

lemma measured_last:
  assumes "metrics_ok g" "total_method f"
  shows "measured (Some (x, n)) (with_metrics f (n\<lparr>Met_global := g\<rparr>) \<bind> (\<lambda>n. Some (x, n)))"
  using with_metrics_ok [OF assms(2), of "n\<lparr>Met_global := g\<rparr>"] assms(1) by (auto simp: measured_def)

lemma measured_recorded:
  assumes "measured (Some en) recorded" "total_method f"
  shows "measured (Some (x, snd en)) (map_option snd recorded \<bind> (\<lambda>n. with_metrics f n \<bind> (\<lambda>n. Some (x, n))))"
proof -
  obtain e n' where en: "en = (e, n')" by (cases en)
  with assms(1) obtain g where "metrics_ok g" "recorded = Some (e, n'\<lparr>Met_global := g\<rparr>)" by (auto simp: measured_def)
  with measured_last [OF _ assms(2), of g x n'] en show ?thesis by simp
qed

lemma measured_tracked:
  assumes "metrics_ok g" "total_method f"
    and "\<And>lm. measured (Some (track lm n)) (metered_track lm (n\<lparr>Met_global := g\<rparr>))"
  shows "measured (Some (x, case H_limitManager h of None \<Rightarrow> n | Some lm \<Rightarrow> snd (track lm n)))
     ((case H_limitManager h of None \<Rightarrow> Some (n\<lparr>Met_global := g\<rparr>)
       | Some lm \<Rightarrow> map_option snd (metered_track lm (n\<lparr>Met_global := g\<rparr>))) \<bind>
      (\<lambda>n. with_metrics f n \<bind> (\<lambda>n. Some (x, n))))"
  using measured_last [OF assms(1,2)] measured_recorded [OF assms(3) assms(2)]
  by (cases "H_limitManager h") simp_all

lemma measured_error_after:
  "metrics_ok g \<Longrightarrow> measured (Some (writeError status message, n)) (metered_writeError status message (n\<lparr>Met_global := g\<rparr>))"
  using measured_error [of "n\<lparr>Met_global := g\<rparr>" status message] by (auto simp: measured_def)

lemma measured_create:
  assumes "metrics_ok (Met_global n)"
  shows "measured (create_and_record X h job n) (metered_create_and_record X h job n)"
  unfolding create_and_record_def metered_create_and_record_def Let_def
  by (rule measured_bind [OF measured_CreateJob [OF assms]])
    (auto intro: measured_tracked measured_RecordJobAdded measured_error_after)

lemma measured_Handler_CreateJob:
  assumes "metrics_ok (Met_global n)"
  shows "measured (Handler_CreateJob X h r n) (metered_CreateJob X h r n)"
  unfolding Handler_CreateJob_def metered_CreateJob_def
  using assms by (auto intro: measured_proxy measured_error measured_create measured_step
      split: option.splits sum.splits)

lemma measured_Handler_DeleteJob:
  assumes "metrics_ok (Met_global n)"
  shows "measured (Handler_DeleteJob X h r n) (metered_DeleteJob X h r n)"
proof -
  have "measured
     (DeleteJob (X_env X) (Some (eventHandler (X_env X) (X_order X) (X_event X))) (RQ_ID r) n \<bind>
       (\<lambda>(err, n). if err \<noteq> None then Some (writeError 500 ''Failed to delete job'', n)
          else Some (\<lparr>RS_Status = 204, RS_Body = NoBody\<rparr>,
            case H_limitManager h of None \<Rightarrow> n | Some lm \<Rightarrow> snd (RecordJobRemoved (X_env X) lm job n))))
     (DeleteJob (X_env X) (Some (metered_eventHandler (X_env X) (X_order X) (X_event X))) (RQ_ID r) n \<bind>
       (\<lambda>(err, n). if err \<noteq> None then metered_writeError 500 ''Failed to delete job'' n
          else (case H_limitManager h of None \<Rightarrow> Some n | Some lm \<Rightarrow> map_option snd (metered_RecordJobRemoved (X_env X) lm job n)) \<bind>
            (\<lambda>n. with_metrics (IncrementJobsDeleted (job_type_string (Job_Type job))) n \<bind>
              (\<lambda>n. Some (\<lparr>RS_Status = 204, RS_Body = NoBody\<rparr>, n)))))" for job
    by (rule measured_bind [OF measured_DeleteJob [OF assms]])
      (auto intro: measured_tracked measured_RecordJobAdded measured_error_after)
  then show ?thesis unfolding Handler_DeleteJob_def metered_DeleteJob_def Let_def
    using assms by (auto intro: measured_proxy measured_error split: option.splits)
qed


lemma wrote_global:
  assumes "wrote n n'"
  shows "Met_global n' = Met_global n"
  by (subst assms [unfolded wrote_def]) simp

lemma MarkCancelled_keeps_global:
  "MarkCancelled (Store_StatusStore E) None t i reason n = (e, n') \<Longrightarrow> Met_global n' = Met_global n"
  by (auto simp: MarkCancelled_def Let_def notify_def split: prod.splits option.splits if_splits dest!: wrote_status_command wrote_global)

lemma Handler_CancelJob_keeps_global: "Met_global (snd (Handler_CancelJob X h r n)) = Met_global n"
  by (auto simp: Handler_CancelJob_def CancelJob_def Let_def split: prod.splits option.splits sum.splits if_splits
      dest!: MarkCancelled_keeps_global)

lemma Handler_JoinCluster_keeps_global: "Met_global (snd (Handler_JoinCluster X r n)) = Met_global n"
  by (auto simp: Handler_JoinCluster_def AddPeer_def Let_def split: prod.splits option.splits sum.splits if_splits)


lemma measured_latency:
  assumes "measured (Some (resp, n)) result"
  shows "measured (Some (resp, n)) (with_latency d name result)"
proof -
  obtain g where "metrics_ok g" "result = Some (resp, n\<lparr>Met_global := g\<rparr>)" using assms by (auto simp: measured_def)
  with measured_last [of g "RecordStatusQueryLatency d name" resp n] show ?thesis by (simp add: with_latency_def)
qed

lemma authMiddleware_open:
  "authToken = '''' \<or> RQ_Authorization r = ''Bearer '' @ authToken \<Longrightarrow> authMiddleware authToken handler r s = handler r s"
  "\<not> (authToken = '''' \<or> RQ_Authorization r = ''Bearer '' @ authToken) \<Longrightarrow> snd (authMiddleware authToken handler r s) = s"
  using bearer_iff [of "RQ_Authorization r" "''Bearer ''" authToken]
  by (auto simp: authMiddleware_def Let_def)

lemma measured_join:
  assumes "metrics_ok (Met_global n)"
  shows "measured (endpoint_handler X h authToken EP_JoinCluster r n) (metered_endpoint X h authToken d EP_JoinCluster r n)"
proof (cases "authToken = '''' \<or> RQ_Authorization r = ''Bearer '' @ authToken")
  case True
  with measured_reply [of "snd (Handler_JoinCluster X r n)" "fst (Handler_JoinCluster X r n)"] assms
  show ?thesis by (simp add: authMiddleware_open(1) Handler_JoinCluster_keeps_global)
next
  case False
  then have "snd (authMiddleware authToken (Handler_JoinCluster X) r n) = n" by (rule authMiddleware_open(2))
  with False measured_Some [of n "fst (authMiddleware authToken (Handler_JoinCluster X) r n)"] assms
  show ?thesis by (cases "authMiddleware authToken (Handler_JoinCluster X) r n") auto
qed

section \<open>Properties\<close>

text \<open>C33: Measuring is transparent: with complete metrics, or with none, every endpoint gives the
  same answer and leaves the node in the same state as without any measurement, and it panics
  only where it would panic without.\<close>
theorem measuring_is_transparent:
  assumes "metrics_ok (Met_global n)"
  shows "measured (endpoint_handler X h authToken e r n) (metered_endpoint X h authToken d e r n)"
proof (cases e)
  case EP_CancelJob
  with assms measured_proxy [OF assms, of X h r] measured_reply [of "snd (Handler_CancelJob X h r n)" "fst (Handler_CancelJob X h r n)"]
  show ?thesis by (auto simp: Handler_CancelJob_keeps_global) (simp add: Handler_CancelJob_def Let_def)
next
  case EP_JoinCluster
  with measured_join [OF assms] show ?thesis by simp
qed (use assms in \<open>auto intro: measured_Handler_CreateJob measured_Handler_DeleteJob measured_reply measured_latency measured_Some\<close>)


section \<open>What the counters count\<close>

lemma with_metrics_ready [simp]:
  "ready (Met_global n) \<Longrightarrow> with_metrics f n = map_option (\<lambda>m. n\<lparr>Met_global := m\<rparr>) (f (Met_global n))"
  by (auto simp: with_metrics_def)

lemma response_well_behaved: "final_status (RS_Status resp) \<Longrightarrow> well_behaved (response_events encode resp)"
  by (simp add: response_events_def is_body_def)

lemma response_sent:
  assumes "final_status (RS_Status resp)"
  shows "\<exists>w. run_events http_WriteHeader http_Write (response_events encode resp) fresh_writer = Some w \<and>
    sent_status w = RS_Status resp"
proof -
  have "\<not> RS_Status resp < 100 \<and> \<not> 999 < RS_Status resp" using assms by (auto simp: final_status_def)
  then show ?thesis using assms
    by (simp add: response_events_def http_WriteHeader_def http_Write_def fresh_writer_def sent_status_def)
qed

text \<open>What the chain of middleware adds to an endpoint.\<close>

lemma metered_serve_eq:
  assumes "metered_endpoint X h authToken d e r n = Some (resp, n1)" "ready (Met_global n1)" "final_status (RS_Status resp)"
  shows "\<exists>w. sent_status w = RS_Status resp \<and> metered_serve URL_Path encode d X h authToken e r n =
     map_option (\<lambda>m. (w, n1\<lparr>Met_global := m\<rparr>, RQ_Method r, RQ_URI r, RS_Status resp))
       (do { m \<leftarrow> IncrementHTTPRequests (RQ_Method r) (URL_Path r) (RS_Status resp) (Met_global n1);
             RecordHTTPRequestDuration d (RQ_Method r) (URL_Path r) m })"
proof -
  obtain x where x: "run_events statusRecorder_WriteHeader statusRecorder_Write (response_events encode resp)
        \<lparr>SR_ResponseWriter = fresh_writer, SR_status = 200\<rparr> = Some x"
      "run_events http_WriteHeader http_Write (response_events encode resp) fresh_writer = Some (SR_ResponseWriter x)"
      "SR_status x = sent_status (SR_ResponseWriter x)"
    using sr.captures [OF response_well_behaved [OF assms(3)]] by blast
  have s: "sent_status (SR_ResponseWriter x) = RS_Status resp" "SR_status x = RS_Status resp"
    using x(2,3) response_sent [OF assms(3), of encode] by auto
  show ?thesis
    by (intro exI [of _ "SR_ResponseWriter x"] conjI s(1))
      (use assms(1,2) x(1) s(2) in \<open>simp add: metered_serve_def metricsMiddleware_def loggingMiddleware_def write_response_def
        map_conv_bind_option comp_def\<close>)
qed

text \<open>C34: Every answer is counted and logged with the status that the client got: once in
  \<open>http_requests_total\<close> under the method and the path of the request, once more in
  \<open>http_errors_total\<close> when it is an error, and nothing else of the node changes.\<close>
theorem answer_is_counted:
  assumes "metered_endpoint X h authToken d e r n = Some (resp, n1)" "ready (Met_global n1)" "final_status (RS_Status resp)"
    and "labels = [(''method'', AString (RQ_Method r)), (''endpoint'', AString (URL_Path r)), (''status_code'', AInt (RS_Status resp))]"
  shows "\<exists>w m. metered_serve URL_Path encode d X h authToken e r n =
       Some (w, n1\<lparr>Met_global := m\<rparr>, RQ_Method r, RQ_URI r, RS_Status resp) \<and> sent_status w = RS_Status resp \<and>
     reported HTTPRequests p m = reported HTTPRequests p (Met_global n1) + (if p labels then 1 else 0) \<and>
     reported HTTPErrors p m = reported HTTPErrors p (Met_global n1) + (if 400 \<le> RS_Status resp \<and> p labels then 1 else 0)"
proof -
  obtain m where m: "(do { m \<leftarrow> IncrementHTTPRequests (RQ_Method r) (URL_Path r) (RS_Status resp) (Met_global n1);
        RecordHTTPRequestDuration d (RQ_Method r) (URL_Path r) m }) = Some m"
      "reported HTTPRequests p m = reported HTTPRequests p (Met_global n1) + (if p labels then 1 else 0)"
      "reported HTTPErrors p m = reported HTTPErrors p (Met_global n1) + (if 400 \<le> RS_Status resp \<and> p labels then 1 else 0)"
    using HTTP_methods_ready [OF assms(2), of "RQ_Method r" "URL_Path r" "RS_Status resp" d] unfolding assms(4) by blast
  with metered_serve_eq [OF assms(1-3), of URL_Path encode] show ?thesis by auto
qed

text \<open>An error that a handler writes is counted twice: by \<open>writeError\<close> under the names ERROR and error,
  and by the middleware under its method and path.\<close>

lemma error_counted_by_writeError:
  assumes "ready (Met_global n)" "400 \<le> status"
  shows "\<exists>n1. metered_writeError status message n = Some (writeError status message, n1) \<and> ready (Met_global n1) \<and>
     reported HTTPErrors p (Met_global n1) = reported HTTPErrors p (Met_global n) +
       (if p [(''method'', AString ''ERROR''), (''endpoint'', AString ''error''), (''status_code'', AInt status)] then 1 else 0)"
  using assms by (simp add: metered_writeError_def IncrementHTTPRequests_def)


lemma missing_job_counted_twice:
  assumes "ready (Met_global n)" "RQ_ID r \<noteq> ''''" "Store_GetJob n (RQ_ID r) = None"
  shows "\<exists>w n' l. metered_serve URL_Path encode d X h authToken EP_GetJob r n = Some (w, n', l) \<and> sent_status w = 404 \<and>
     reported HTTPErrors (\<lambda>as. True) (Met_global n') = reported HTTPErrors (\<lambda>as. True) (Met_global n) + 2"
proof -
  obtain n1 where n1: "metered_writeError 404 ''Job not found'' n = Some (writeError 404 ''Job not found'', n1)" "ready (Met_global n1)"
      "reported HTTPErrors (\<lambda>as. True) (Met_global n1) = reported HTTPErrors (\<lambda>as. True) (Met_global n) + 1"
    using error_counted_by_writeError [OF assms(1), of 404 "''Job not found''" "\<lambda>as. True"] by auto
  have "metered_endpoint X h authToken d EP_GetJob r n = Some (writeError 404 ''Job not found'', n1)"
    using n1(1) assms(2,3) by (simp add: Handler_GetJob_def metered_reply_def writeError_def)
  from metered_serve_eq [OF this n1(2), of URL_Path encode] n1(2,3) show ?thesis
    by (auto simp: writeError_def final_status_def IncrementHTTPRequests_def RecordHTTPRequestDuration_def)
qed

section \<open>Gauges of the queue\<close>

definition shown :: "instrument \<Rightarrow> ('c, 'r, 'z) MeteredNode_scheme \<Rightarrow> rat" where
  "shown i n = reported i (\<lambda>as. True) (Met_global n)"

definition gauges_agree :: "('c, 'r, 'z) MeteredNode_scheme \<Rightarrow> bool" where
  "gauges_agree n \<longleftrightarrow> shown QueueMemoryUsage n = of_int (memoryUsage (St_fsm n)) \<and>
     shown QueueJobCount n = of_int (jobCount (St_fsm n))"

lemma metered_RecordJobAdded_ready:
  assumes "ready (Met_global n)" "metered_RecordJobAdded E lm job n = Some (None, n')"
  shows "\<exists>n1. RecordJobAdded E lm job n = (None, n1) \<and> St_fsm n' = St_fsm n1 \<and> ready (Met_global n') \<and>
     (\<forall>i. shown i n' = shown i n + (if i = QueueMemoryUsage then of_int (CalculateSize (LM_sizeCalculator lm) job)
        else if i = QueueJobCount then 1 else 0))"
proof -
  obtain n1 where n1: "RecordJobAdded E lm job n = (None, n1)"
    using assms(2) by (auto simp: metered_RecordJobAdded_def Let_def split: prod.splits option.splits)
  have "Met_global n1 = Met_global n" using RecordJob_keeps_global(1) [of E lm job n] n1 by simp
  then show ?thesis using assms n1
    by (auto simp: metered_RecordJobAdded_def shown_def metrics_methods Let_def ready_not_None)
qed

lemma metered_RecordJobRemoved_ready:
  assumes "ready (Met_global n)" "metered_RecordJobRemoved E lm job n = Some (None, n')"
  shows "\<exists>n1. RecordJobRemoved E lm job n = (None, n1) \<and> St_fsm n' = St_fsm n1 \<and> ready (Met_global n') \<and>
     (\<forall>i. shown i n' = shown i n + (if i = QueueMemoryUsage then of_int (neg64 (CalculateSize (LM_sizeCalculator lm) job))
        else if i = QueueJobCount then - 1 else 0))"
proof -
  obtain n1 where n1: "RecordJobRemoved E lm job n = (None, n1)"
    using assms(2) by (auto simp: metered_RecordJobRemoved_def Let_def split: prod.splits option.splits)
  have "Met_global n1 = Met_global n" using RecordJob_keeps_global(2) [of E lm job n] n1 by simp
  then show ?thesis using assms n1
    by (auto simp: metered_RecordJobRemoved_def shown_def metrics_methods Let_def ready_not_None)
qed



section \<open>Counters that miscount\<close>

lemma IncrementJobsCreated_ready:
  "ready m \<Longrightarrow> \<exists>m'. IncrementJobsCreated ty m = Some m' \<and> ready m' \<and>
     reported JobsTotal (\<lambda>as. True) m' = reported JobsTotal (\<lambda>as. True) m + 1"
  by (simp add: IncrementJobsCreated_def)

text \<open>A job that is created through the API is counted twice, by the event handler and by the handler.\<close>

lemma created_event_counts:
  assumes "steady_raft (raft_lib E) P" "P (St_raft n)" "ready (Met_global n)"
    and "CreateJob E (Some (metered_eventHandler E order now)) job n = Some (None, n1)"
  shows "ready (Met_global n1)" "shown JobsTotal n1 = shown JobsTotal n + 1"
proof -
  let ?cmd = "zero_Command\<lparr>Cmd_Type := CommandCreateJob, Cmd_Job := Some job\<rparr>"
  obtain k where k: "raftApply E ?cmd n = (None, k)" "P (St_raft k)" using steady_write [OF assms(1,2)] by metis
  have l: "IsLeader E n" "IsLeader E k" using steady_raftApply(1) [OF assms(1)] assms(2) k(2) by blast+
  obtain k' where k': "AddJob E now job k = Some k'" "with_metrics (IncrementJobsCreated (job_type_string (Job_Type job))) k' = Some n1"
    using assms(4) k(1) l by (auto simp: CreateJob_def metered_eventHandler_def split: bind_splits)
  have "Met_global k' = Met_global n" using AddJob_keeps_global [OF k'(1)] raftApply_global_eq [OF k(1)] by simp
  with k'(2) IncrementJobsCreated_ready [of "Met_global n" "job_type_string (Job_Type job)"] assms(3)
  show "ready (Met_global n1)" "shown JobsTotal n1 = shown JobsTotal n + 1" by (auto simp: shown_def)
qed

text \<open>A job created through the API is counted twice in \<open>jobs_total\<close>: the event handler of the store
  counts it and the handler counts it again.\<close>
theorem created_job_counted_twice:
  assumes "steady_raft (raft_lib (X_env X)) P" "P (St_raft n)" "ready (Met_global n)"
    and "metered_create_and_record X h job n = Some (respond (JobBody job), n')"
  shows "shown JobsTotal n' = shown JobsTotal n + 2"
proof -
  obtain err n1 where c: "CreateJob (X_env X) (Some (metered_eventHandler (X_env X) (X_order X) (X_event X))) job n = Some (err, n1)"
    using assms(4) by (auto simp: metered_create_and_record_def split: bind_splits)
  have "err = None" using assms(4) c by (auto simp: metered_create_and_record_def metered_writeError_def writeError_def respond_def split: if_splits)
  with c have c: "CreateJob (X_env X) (Some (metered_eventHandler (X_env X) (X_order X) (X_event X))) job n = Some (None, n1)" by simp
  note e = created_event_counts [OF assms(1-3) c]
  obtain n2 where n2: "(case H_limitManager h of None \<Rightarrow> Some n1
        | Some lm \<Rightarrow> map_option snd (metered_RecordJobAdded (X_env X) lm job n1)) = Some n2"
      "with_metrics (IncrementJobsCreated (job_type_string (Job_Type job))) n2 = Some n'"
    using assms(4) c by (auto simp: metered_create_and_record_def split: bind_splits)
  have r: "ready (Met_global n2) \<and> shown JobsTotal n2 = shown JobsTotal n1"
  proof (cases "H_limitManager h")
    case (Some lm)
    then obtain err' where m: "metered_RecordJobAdded (X_env X) lm job n1 = Some (err', n2)" using n2(1) by auto
    show ?thesis
    proof (cases err')
      case None
      with metered_RecordJobAdded_ready [OF e(1), of "X_env X" lm job n2] m show ?thesis by auto
    next
      case (Some x)
      with m have "RecordJobAdded (X_env X) lm job n1 = (Some x, n2)"
        by (auto simp: metered_RecordJobAdded_def Let_def split: prod.splits option.splits)
      then have "Met_global n2 = Met_global n1" using RecordJob_keeps_global(1) [of "X_env X" lm job n1] by simp
      with e(1) show ?thesis by (simp add: shown_def)
    qed
  qed (use n2(1) e(1) in auto)
  with n2(2) IncrementJobsCreated_ready [of "Met_global n2" "job_type_string (Job_Type job)"] e(2)
  show ?thesis by (auto simp: shown_def)
qed

section \<open>Witnesses\<close>

definition metered_solo :: "bool \<Rightarrow> disk FSM \<Rightarrow> metrics \<Rightarrow> (disk, solo) MeteredNode" where
  "metered_solo leader f g = Manager.extend (solo_manager leader f) (MeteredNode.fields g)"

lemma metered_solo_simps [simp]:
  "Met_global (metered_solo leader f g) = g" "St_fsm (metered_solo leader f g) = f"
  "St_raft (metered_solo leader f g) = St_raft (solo_manager leader f)"
  "Q_wheel (metered_solo leader f g) = Q_wheel (solo_manager leader f)"
  "Q_slotGap (metered_solo leader f g) = Q_slotGap (solo_manager leader f)"
  "Q_jobToSlot (metered_solo leader f g) = Q_jobToSlot (solo_manager leader f)"
  by (simp_all add: metered_solo_def Manager.defs MeteredNode.defs)

lemma metered_solo_queue_ok [simp]: "queue_ok (metered_solo leader f g)"
proof -
  have "queue_ok (solo_manager leader f)" by simp
  then show ?thesis by (simp add: queue_ok_def)
qed

lemma measuring_is_transparent_witness:
  "measured (endpoint_handler sample_api sample_handlers '''' EP_CreateJob sample_request (metered_solo True NewFSM fresh_metrics))
     (metered_endpoint sample_api sample_handlers '''' 0 EP_CreateJob sample_request (metered_solo True NewFSM fresh_metrics))"
  by (rule measuring_is_transparent) (simp add: metrics_ok_def)

definition missing_request :: Request where
  "missing_request = sample_request\<lparr>RQ_Method := ''GET'', RQ_ID := ''x''\<rparr>"

lemma answer_is_counted_witness:
  "\<exists>w m. metered_serve (\<lambda>r. ''/jobs/x'') (\<lambda>b. '''') 0 sample_api sample_handlers '''' EP_GetJob missing_request (metered_solo True NewFSM fresh_metrics)
      = Some (w, (metered_solo True NewFSM fresh_metrics)\<lparr>Met_global := m\<rparr>, ''GET'', ''/jobs'', 404) \<and> sent_status w = 404 \<and>
     reported HTTPRequests (\<lambda>as. (''method'', AString ''GET'') \<in> set as) m = 1"
proof -
  let ?n = "metered_solo True NewFSM fresh_metrics"
  define m1 where "m1 = logged HTTPErrors 1 [(''method'', AString ''ERROR''), (''endpoint'', AString ''error''), (''status_code'', AInt 404)]
    (logged HTTPRequests 1 [(''method'', AString ''ERROR''), (''endpoint'', AString ''error''), (''status_code'', AInt 404)] fresh_metrics)"
  have e: "metered_endpoint sample_api sample_handlers '''' 0 EP_GetJob missing_request ?n =
      Some (writeError 404 ''Job not found'', ?n\<lparr>Met_global := m1\<rparr>)"
    by (simp add: Handler_GetJob_def missing_request_def Store_GetJob_def GetJob_def NewFSM_def metered_reply_def
        metered_writeError_def writeError_def IncrementHTTPRequests_def m1_def)
  have r: "reported HTTPRequests (\<lambda>as. (''method'', AString ''GET'') \<in> set as) m1 = 0"
    by (simp add: m1_def) (simp add: fresh_metrics_def reported_def)
  show ?thesis
    using answer_is_counted [OF e _ _ refl, where URL_Path = "\<lambda>r. ''/jobs/x''" and encode = "\<lambda>b. ''''"
        and p = "\<lambda>as. (''method'', AString ''GET'') \<in> set as"] r
    by (auto simp: m1_def writeError_def final_status_def missing_request_def sample_request_def)
qed


lemma RecordJobAdded_solo:
  "\<exists>k. RecordJobAdded solo_env sample_limits sample_job (metered_solo True NewFSM fresh_metrics) = (None, k) \<and>
     Met_global k = fresh_metrics"
proof -
  let ?n = "metered_solo True NewFSM fresh_metrics"
  have s: "solo_leader (St_raft ?n)" by simp
  have zero: "memoryUsage (NewFSM :: disk FSM) = 0" "jobCount (NewFSM :: disk FSM) = 0" by (simp_all add: NewFSM_def)
  obtain k where "RecordJobAdded solo_env sample_limits sample_job ?n = (None, k)"
    using RecordJobAdded_steady [of solo_env solo_leader ?n 193 sample_limits sample_job, OF _ s] zero
    by (auto simp: solo_steady sample_size)
  with RecordJob_keeps_global(1) [of solo_env sample_limits sample_job ?n] show ?thesis by simp
qed


lemma created_job_counted_twice_witness:
  "\<exists>n'. metered_create_and_record sample_api sample_handlers sample_job (metered_solo True NewFSM fresh_metrics)
       = Some (respond (JobBody sample_job), n') \<and> shown JobsTotal n' = 2"
proof -
  let ?n = "metered_solo True NewFSM fresh_metrics"
  obtain new where "create_and_record sample_api sample_handlers sample_job ?n = Some (respond (JobBody sample_job), new)"
    using create_and_record_steady [of sample_api solo_leader ?n sample_job 105 sample_handlers sample_limits 193]
    by (auto simp: solo_steady sample_size NewFSM_def)
  with measured_create [of ?n sample_api sample_handlers sample_job] obtain n' where
    n': "metered_create_and_record sample_api sample_handlers sample_job ?n = Some (respond (JobBody sample_job), n')"
    by (auto simp: measured_def metrics_ok_def)
  from created_job_counted_twice [of sample_api solo_leader ?n sample_handlers sample_job n'] n' show ?thesis
    by (simp add: solo_steady) (simp add: shown_def fresh_metrics_def reported_def)
qed

end
