(* ===== verification/Run_Measurements.thy ===== *)
theory Run_Measurements
  imports Measurements
begin

text \<open>
  Where the worker measures: the callback on status changes that \<open>NewExecutionManager\<close> installs, the
  measurements inside \<open>Execute\<close> (\<open>internal/slots/execution_manager.go\<close>) and those of the worker
  around it (\<open>internal/slots/worker.go\<close>). The operations are those of the execution manager and
  the tracker with the measurements at their places; the relation \<open>counts\<close> says that such an
  operation does what the plain one does and how much it adds to the counters of a run.
\<close>

section \<open>Operations\<close>

definition slot_metrics :: "Slot \<Rightarrow> Duration \<Rightarrow> ('c, 'r, 'z) MeteredNode_scheme \<Rightarrow> ('c, 'r, 'z) MeteredNode_scheme option" where
  "slot_metrics slot elapsed = with_metrics (\<lambda>m. do {
     m \<leftarrow> IncrementSlotsProcessed (int (length (QS_Jobs slot))) m;
     RecordSlotProcessingDuration elapsed m
   })"

fun status_string :: "JobStatus \<Rightarrow> string" where
  "status_string StatusPending = ''pending''"
| "status_string StatusInProgress = ''in_progress''"
| "status_string StatusCompleted = ''completed''"
| "status_string StatusFailed = ''failed''"
| "status_string StatusCancelled = ''cancelled''"
| "status_string StatusTimeout = ''timeout''"
| "status_string (OtherStatus s) = s"

definition status_change_metrics ::
  "JobStatus \<Rightarrow> JobStatus \<Rightarrow> ('c, 'r, 'z) MeteredNode_scheme \<Rightarrow> ('c, 'r, 'z) MeteredNode_scheme option" where
  "status_change_metrics oldStatus newStatus = with_metrics (\<lambda>m. do {
     m \<leftarrow> UpdateJobsByStatus (status_string oldStatus) (- 1) m;
     UpdateJobsByStatus (status_string newStatus) 1 m
   })"

definition failure_metrics ::
  "string \<Rightarrow> int \<Rightarrow> ('c, 'r, 'z) MeteredNode_scheme \<Rightarrow> ('c, 'r, 'z) MeteredNode_scheme option" where
  "failure_metrics errorType attemptNum n = do {
     n \<leftarrow> with_metrics (IncrementExecutionFailures errorType) n;
     if attemptNum > 1 then with_metrics (RecordRetryCount (attemptNum - 1)) n else Some n
   }"

definition success_metrics :: "int \<Rightarrow> ('c, 'r, 'z) MeteredNode_scheme \<Rightarrow> ('c, 'r, 'z) MeteredNode_scheme option" where
  "success_metrics attemptNum n =
     (if attemptNum > 1 then with_metrics (RecordRetryCount (attemptNum - 1)) n else Some n)"

text \<open>The callback is the last step of a change of status that succeeds; it gets the status before the change.\<close>

definition tell :: "JobStatus \<Rightarrow> JobStatus \<Rightarrow> store_error option \<times> ('c, 'r, 'z) MeteredNode_scheme
     \<Rightarrow> (store_error option \<times> ('c, 'r, 'z) MeteredNode_scheme) option" where
  "tell prevStatus newStatus en = (case en of
       (Some err, n) \<Rightarrow> Some (Some err, n)
     | (None, n) \<Rightarrow> map_option (Pair None) (status_change_metrics prevStatus newStatus n))"

definition metered_MarkInProgress ::
  "('c, 'r) Env \<Rightarrow> int \<Rightarrow> string \<Rightarrow> string \<Rightarrow> ('c, 'r, 'z) MeteredNode_scheme
     \<Rightarrow> (store_error option \<times> ('c, 'r, 'z) MeteredNode_scheme) option" where
  "metered_MarkInProgress E now jobID nodeID n =
     tell (prev_status (Store_StatusStore E) StatusPending jobID n) StatusInProgress
       (MarkInProgress (Store_StatusStore E) None now jobID nodeID n)"

definition metered_MarkCompleted ::
  "('c, 'r) Env \<Rightarrow> int \<Rightarrow> int \<Rightarrow> string \<Rightarrow> ExecutionAttempt option \<Rightarrow> ('c, 'r, 'z) MeteredNode_scheme
     \<Rightarrow> (store_error option \<times> ('c, 'r, 'z) MeteredNode_scheme) option" where
  "metered_MarkCompleted E now now' jobID attempt n =
     tell (prev_status (Store_StatusStore E) StatusInProgress jobID n) StatusCompleted
       (MarkCompleted (Store_StatusStore E) None now now' jobID attempt n)"

definition metered_MarkFailed ::
  "('c, 'r) Env \<Rightarrow> int \<Rightarrow> int \<Rightarrow> string \<Rightarrow> ExecutionAttempt option \<Rightarrow> ('c, 'r, 'z) MeteredNode_scheme
     \<Rightarrow> (store_error option \<times> ('c, 'r, 'z) MeteredNode_scheme) option" where
  "metered_MarkFailed E now now' jobID attempt n =
     tell (prev_status (Store_StatusStore E) StatusInProgress jobID n) StatusFailed
       (MarkFailed (Store_StatusStore E) None now now' jobID attempt n)"

definition metered_record_outcome ::
  "('c, 'r) Env \<Rightarrow> readings \<Rightarrow> string \<Rightarrow> ExecutionAttempt \<Rightarrow> int \<Rightarrow> go_error option
     \<Rightarrow> ('c, 'r, 'z) MeteredNode_scheme \<Rightarrow> (exec_error option \<times> ('c, 'r, 'z) MeteredNode_scheme) option" where
  "metered_record_outcome E t jobID attempt httpStatus err n =
     (case err of
        Some err \<Rightarrow>
          if is_cancelled E jobID n then Some (None, n)
          else let attempt = attempt\<lparr>Att_Status := StatusFailed, Att_ErrorMessage := Err_Error err,
                               Att_ErrorType := classifyError (Some err), Att_HTTPStatus := httpStatus\<rparr>
          in do {
            n \<leftarrow> failure_metrics (Att_ErrorType attempt) (Att_AttemptNum attempt) n;
            (markErr, n) \<leftarrow> metered_MarkFailed E (R_record t) (R_status t) jobID (Some attempt) n;
            Some (Some (ErrWebhook err), n)
          }
      | None \<Rightarrow>
          if is_cancelled E jobID n
          then Some (None, snd (RecordAttempt (Store_StatusStore E) (R_record t) jobID (Some attempt) n))
          else let attempt = attempt\<lparr>Att_Status := StatusCompleted, Att_HTTPStatus := httpStatus\<rparr>
          in do {
            n \<leftarrow> success_metrics (Att_AttemptNum attempt) n;
            (e, n) \<leftarrow> metered_MarkCompleted E (R_record t) (R_status t) jobID (Some attempt) n;
            Some (map_option ErrMarkCompleted e, n)
          })"

text \<open>The part of \<open>Execute\<close> after the job is marked.\<close>

definition metered_attempt ::
  "('c, 'r) Env \<Rightarrow> ('c, 'r, 'z) MeteredNode_scheme http_lib \<Rightarrow> readings \<Rightarrow> int \<Rightarrow> Job
     \<Rightarrow> ('c, 'r, 'z) MeteredNode_scheme \<Rightarrow> (exec_error option \<times> ('c, 'r, 'z) MeteredNode_scheme) option" where
  "metered_attempt E H t attemptNum job n =
     (let ctx = EM_contexts n;
          n = n\<lparr>EM_contexts := Suc ctx, EM_cancelFuncs := fmupd (Job_ID job) ctx (EM_cancelFuncs n)\<rparr>;
          attempt = zero_Attempt\<lparr>Att_AttemptNum := attemptNum, Att_StartTime := R_start t, Att_NodeID := EM_nodeID n\<rparr>;
          ((httpStatus, responseTime, err), n) = executeWebhook H t ctx job n;
          attempt = attempt\<lparr>Att_EndTime := R_end t, Att_ResponseTime := responseTime\<rparr>
      in do {
        (result, n) \<leftarrow> metered_record_outcome E t (Job_ID job) attempt httpStatus err n;
        Some (result, release (Job_ID job) ctx n)
      })"

definition metered_Execute ::
  "('c, 'r) Env \<Rightarrow> ('c, 'r, 'z) MeteredNode_scheme http_lib \<Rightarrow> readings \<Rightarrow> Job \<Rightarrow> ('c, 'r, 'z) MeteredNode_scheme
     \<Rightarrow> (exec_error option \<times> ('c, 'r, 'z) MeteredNode_scheme) option" where
  "metered_Execute E H t job n =
     (case CanExecute (Store_StatusStore E) (Job_ID job) n of
        Inl err \<Rightarrow> Some (Some (ErrCheckStatus err), n)
      | Inr False \<Rightarrow> Some (None, n)
      | Inr True \<Rightarrow>
          let attemptNum = (case GetStatus (Store_StatusStore E) (Job_ID job) n of
                              Inl err \<Rightarrow> 1 | Inr state \<Rightarrow> add64 (Exec_AttemptCount state) 1)
          in if attemptNum > EM_maxAttempts n then Some (Some ErrExceededMaxAttempts, n)
          else do {
            (e, n) \<leftarrow> metered_MarkInProgress E (R_mark t) (Job_ID job) (EM_nodeID n) n;
            case e of
              Some err \<Rightarrow> Some (Some (ErrMarkInProgress err), n)
            | None \<Rightarrow> metered_attempt E H t attemptNum job n
          })"

definition metered_executeJob ::
  "('c, 'r) Env \<Rightarrow> ('c, 'r, 'z) MeteredNode_scheme http_lib \<Rightarrow> readings \<Rightarrow> Duration \<Rightarrow> Job
     \<Rightarrow> ('c, 'r, 'z) MeteredNode_scheme \<Rightarrow> ('c, 'r, 'z) MeteredNode_scheme option" where
  "metered_executeJob E H t duration job n = do {
     (err, n) \<leftarrow> metered_Execute E H t job n;
     let success = err = None;
     n \<leftarrow> with_metrics (\<lambda>m. do {
            m \<leftarrow> IncrementJobsExecuted (job_type_string (Job_Type job)) success m;
            RecordJobExecutionDuration duration (job_type_string (Job_Type job)) m }) n;
     with_metrics (\<lambda>m. do {
            m \<leftarrow> (if \<not> success then IncrementWorkerErrors ''job_execution_failed'' m else Some m);
            m \<leftarrow> RecordWorkerProcessingTime duration m;
            RecordWorkerIdleTime 0 m }) n
   }"

text \<open>The loop of \<open>CheckTimeouts\<close> and the check of the worker, with the callback.\<close>

fun metered_timeout_loop ::
  "('c, 'r) Env \<Rightarrow> Duration \<Rightarrow> int \<Rightarrow> (string \<times> JobExecutionState) list \<Rightarrow> string list
     \<Rightarrow> ('c, 'r, 'z) MeteredNode_scheme \<Rightarrow> (string list \<times> ('c, 'r, 'z) MeteredNode_scheme) option" where
  "metered_timeout_loop E timeout now [] timedOutJobs n = Some (timedOutJobs, n)"
| "metered_timeout_loop E timeout now ((jobID, state) # rest) timedOutJobs n =
     (if timed_out timeout now state
      then case applyStatusCommand (Store_StatusStore E) CommandUpdateJobStatus (timeout_command now jobID) n of
             (Some err, n) \<Rightarrow> metered_timeout_loop E timeout now rest timedOutJobs n
           | (None, n) \<Rightarrow> do {
               n \<leftarrow> status_change_metrics StatusInProgress StatusTimeout n;
               metered_timeout_loop E timeout now rest (timedOutJobs @ [jobID]) n
             }
      else metered_timeout_loop E timeout now rest timedOutJobs n)"

definition metered_checkTimeouts ::
  "('c, 'r) Env \<Rightarrow> string key_order \<Rightarrow> Duration \<Rightarrow> int \<Rightarrow> ('c, 'r, 'z) MeteredNode_scheme
     \<Rightarrow> ('c, 'r, 'z) MeteredNode_scheme option" where
  "metered_checkTimeouts E order inProgressTimeout now n =
     (if \<not> IsLeader E n then Some n
      else map_option snd
        (metered_timeout_loop E inProgressTimeout now (range_map order (SS_GetAllExecutionStates (Store_StatusStore E) n)) [] n))"

section \<open>Counting\<close>

text \<open>The counters of a run, and what is added to them when the metrics are there.\<close>

definition run_counters :: "instrument set" where
  "run_counters = {JobsExecuted, JobsFailed, WorkerErrors, ExecutionFailures, JobsByStatus}"

definition adds :: "(instrument \<Rightarrow> rat) \<Rightarrow> metrics \<Rightarrow> metrics \<Rightarrow> bool" where
  "adds f g g' \<longleftrightarrow> (g = None \<and> g' = None) \<or>
     (ready g \<and> ready g' \<and> (\<forall>i \<in> run_counters. reported i (\<lambda>as. True) g' = reported i (\<lambda>as. True) g + f i))"

abbreviation nothing :: "instrument \<Rightarrow> rat" where
  "nothing \<equiv> (\<lambda>i. 0)"

text \<open>The metered operation gives the result of the plain one, and adds \<open>f\<close> to the counters.\<close>

definition counts ::
  "(instrument \<Rightarrow> rat) \<Rightarrow> metrics \<Rightarrow> 'a \<times> ('c, 'r, 'z) MeteredNode_scheme
     \<Rightarrow> ('a \<times> ('c, 'r, 'z) MeteredNode_scheme) option \<Rightarrow> bool" where
  "counts f g p m \<longleftrightarrow> (\<exists>g'. adds f g g' \<and> m = Some (apsnd (\<lambda>n. n\<lparr>Met_global := g'\<rparr>) p))"

text \<open>The client, and what other goroutines do during its call, do not look at the metrics and add
  nothing to the counters of a run.\<close>

definition blind_client :: "('c, 'r, 'z) MeteredNode_scheme http_lib \<Rightarrow> bool" where
  "blind_client H \<longleftrightarrow> (\<forall>req n g. metrics_ok g \<longrightarrow>
     counts nothing g (http_Do H req n) (Some (http_Do H req (n\<lparr>Met_global := g\<rparr>))))"

lemma adds_refl: "metrics_ok g \<Longrightarrow> adds nothing g g"
  by (auto simp: adds_def metrics_ok_def)

lemma adds_trans: "adds f g g1 \<Longrightarrow> adds f' g1 g2 \<Longrightarrow> adds (\<lambda>i. f i + f' i) g g2"
  by (auto simp: adds_def algebra_simps)

lemma adds_ok: "adds f g g' \<Longrightarrow> metrics_ok g \<and> metrics_ok g'"
  by (auto simp: adds_def metrics_ok_def)

lemma with_metrics_adds:
  assumes "metrics_ok g" "\<And>m. ready m \<Longrightarrow> \<exists>m'. h m = Some m' \<and> ready m' \<and>
      (\<forall>i \<in> run_counters. reported i (\<lambda>as. True) m' = reported i (\<lambda>as. True) m + f i)"
  shows "\<exists>g'. adds f g g' \<and> with_metrics h (n\<lparr>Met_global := g\<rparr>) = Some (n\<lparr>Met_global := g'\<rparr>)"
proof (cases "g = None")
  case True
  then show ?thesis by (auto simp: with_metrics_def adds_def)
next
  case False
  then have "ready g" using assms(1) by (auto simp: metrics_ok_def)
  with assms(2) [of g] show ?thesis by (auto simp: adds_def)
qed

lemma status_change_adds:
  "metrics_ok g \<Longrightarrow> \<exists>g'. adds nothing g g' \<and> status_change_metrics old new (n\<lparr>Met_global := g\<rparr>) = Some (n\<lparr>Met_global := g'\<rparr>)"
  unfolding status_change_metrics_def by (rule with_metrics_adds) (auto simp: UpdateJobsByStatus_def ready_not_None)

lemma retry_adds:
  "metrics_ok g \<Longrightarrow> \<exists>g'. adds nothing g g' \<and> with_metrics (RecordRetryCount k) (n\<lparr>Met_global := g\<rparr>) = Some (n\<lparr>Met_global := g'\<rparr>)"
  by (rule with_metrics_adds) (auto simp: RecordRetryCount_def ready_not_None run_counters_def)

lemma success_adds:
  "metrics_ok g \<Longrightarrow> \<exists>g'. adds nothing g g' \<and> success_metrics k (n\<lparr>Met_global := g\<rparr>) = Some (n\<lparr>Met_global := g'\<rparr>)"
  using retry_adds [of g "k - 1" n] adds_refl [of g] by (auto simp: success_metrics_def)

definition one_failure :: "instrument \<Rightarrow> rat" where
  "one_failure i = (if ExecutionFailures = i then 1 else 0)"

lemma failure_adds:
  assumes "metrics_ok g"
  shows "\<exists>g'. adds one_failure g g' \<and> failure_metrics ty k (n\<lparr>Met_global := g\<rparr>) = Some (n\<lparr>Met_global := g'\<rparr>)"
proof -
  obtain g1 where g1: "adds one_failure g g1" "with_metrics (IncrementExecutionFailures ty) (n\<lparr>Met_global := g\<rparr>) = Some (n\<lparr>Met_global := g1\<rparr>)"
    using with_metrics_adds [OF assms, of "IncrementExecutionFailures ty" one_failure n]
    by (auto simp: IncrementExecutionFailures_def one_failure_def ready_not_None)
  obtain g2 where "adds nothing g1 g2" "success_metrics k (n\<lparr>Met_global := g1\<rparr>) = Some (n\<lparr>Met_global := g2\<rparr>)"
    using success_adds [of g1 k n] adds_ok [OF g1(1)] by blast
  with g1 adds_trans [of one_failure g g1 nothing g2] show ?thesis
    by (auto simp: failure_metrics_def success_metrics_def)
qed

section \<open>The operations do not look at the metrics\<close>

definition blind :: "(('c, 'r, 'z) MeteredNode_scheme \<Rightarrow> 'a \<times> ('c, 'r, 'z) MeteredNode_scheme) \<Rightarrow> bool" where
  "blind f \<longleftrightarrow> (\<forall>n g. f (n\<lparr>Met_global := g\<rparr>) = apsnd (\<lambda>n. n\<lparr>Met_global := g\<rparr>) (f n))"

lemma reads_global [simp]:
  "GetStatus (Store_StatusStore E) i (n\<lparr>Met_global := g\<rparr>) = GetStatus (Store_StatusStore E) i n"
  "CanExecute (Store_StatusStore E) i (n\<lparr>Met_global := g\<rparr>) = CanExecute (Store_StatusStore E) i n"
  "prev_status (Store_StatusStore E) st i (n\<lparr>Met_global := g\<rparr>) = prev_status (Store_StatusStore E) st i n"
  "is_cancelled E i (n\<lparr>Met_global := g\<rparr>) = is_cancelled E i n"
  "SS_IsLeader (Store_StatusStore E) (n\<lparr>Met_global := g\<rparr>) = SS_IsLeader (Store_StatusStore E) n"
  "SS_GetAllExecutionStates (Store_StatusStore E) (n\<lparr>Met_global := g\<rparr>) = SS_GetAllExecutionStates (Store_StatusStore E) n"
  by (simp_all add: GetStatus_def CanExecute_def prev_status_def is_cancelled_def Store_StatusStore_def IsLeader_def
      Store_GetExecutionState_def Store_GetAllExecutionStates_def)

lemma blind_status_command: "blind (applyStatusCommand (Store_StatusStore E) ty sc)"
  by (auto simp: blind_def applyStatusCommand_def Store_StatusStore_def Store_Apply_def raftApply_global
      split: prod.splits option.splits)

lemmas status_command_global = blind_status_command [unfolded blind_def, rule_format]

lemma blind_recordAttempt: "blind (recordAttempt (Store_StatusStore E) t i a)" "blind (RecordAttempt (Store_StatusStore E) t i a)"
  by (simp_all add: blind_def recordAttempt_def RecordAttempt_def status_command_global)

lemmas recordAttempt_global = blind_recordAttempt [unfolded blind_def, rule_format]

lemma blind_marks:
  "blind (MarkInProgress (Store_StatusStore E) None t i node)"
  "blind (MarkCompleted (Store_StatusStore E) None t t' i a)"
  "blind (MarkFailed (Store_StatusStore E) None t t' i a)"
  by (auto simp: blind_def MarkInProgress_def MarkCompleted_def MarkFailed_def Let_def notify_def status_command_global
      recordAttempt_global split: prod.splits option.splits)

lemma notify_callback: "notify metrics_callback = notify None"
  by (intro ext) (simp add: notify_def metrics_callback_def)

lemma marks_callback:
  "MarkInProgress S metrics_callback t i node s = MarkInProgress S None t i node s"
  "MarkCompleted S metrics_callback t t' i a s = MarkCompleted S None t t' i a s"
  "MarkFailed S metrics_callback t t' i a s = MarkFailed S None t t' i a s"
  unfolding MarkInProgress_def MarkCompleted_def MarkFailed_def notify_callback by (rule refl)+

section \<open>Composition\<close>

lemma counts_Some: "adds f g g' \<Longrightarrow> counts f g (x, n) (Some (x, n\<lparr>Met_global := g'\<rparr>))"
  by (auto simp: counts_def)

lemma counts_bind:
  assumes "counts f g p m"
    and "\<And>x n g'. p = (x, n) \<Longrightarrow> metrics_ok g' \<Longrightarrow> counts f' g' (F x n) (k (x, n\<lparr>Met_global := g'\<rparr>))"
  shows "counts (\<lambda>i. f i + f' i) g (case p of (x, n) \<Rightarrow> F x n) (m \<bind> k)"
proof -
  obtain x n where p: "p = (x, n)" by (cases p)
  with assms(1) obtain g1 where g1: "adds f g g1" "m = Some (x, n\<lparr>Met_global := g1\<rparr>)" by (auto simp: counts_def)
  with assms(2) [OF p] adds_ok [OF g1(1)] obtain g2 where
    "adds f' g1 g2" "k (x, n\<lparr>Met_global := g1\<rparr>) = Some (apsnd (\<lambda>n. n\<lparr>Met_global := g2\<rparr>) (F x n))"
    by (auto simp: counts_def)
  with g1 p adds_trans [OF g1(1)] show ?thesis by (auto simp: counts_def)
qed

text \<open>A measurement first.\<close>

lemma counts_after:
  assumes "\<exists>g'. adds f g g' \<and> m = Some (n\<lparr>Met_global := g'\<rparr>)"
    and "\<And>g'. metrics_ok g' \<Longrightarrow> counts f' g' p (k (n\<lparr>Met_global := g'\<rparr>))"
  shows "counts (\<lambda>i. f i + f' i) g p (m \<bind> k)"
proof -
  obtain g1 where g1: "adds f g g1" "m = Some (n\<lparr>Met_global := g1\<rparr>)" using assms(1) by blast
  with assms(2) [of g1] adds_ok [OF g1(1)] show ?thesis by (auto simp: counts_def intro: adds_trans)
qed

lemma counts_tell:
  assumes "blind f" "metrics_ok g"
  shows "counts nothing g (f n) (tell old new (f (n\<lparr>Met_global := g\<rparr>)))"
proof -
  obtain e n1 where f: "f n = (e, n1)" by (cases "f n")
  then have "f (n\<lparr>Met_global := g\<rparr>) = (e, n1\<lparr>Met_global := g\<rparr>)" using assms(1) by (simp add: blind_def)
  with f status_change_adds [OF assms(2), of old new n1] adds_refl [OF assms(2)] show ?thesis
    by (auto simp: tell_def counts_def split: option.splits)
qed

lemmas counts_marks = blind_marks [THEN counts_tell]

text \<open>A run fails where its webhook does; nothing else counts as a failure of the execution.\<close>

definition failures_of :: "exec_error option \<Rightarrow> instrument \<Rightarrow> rat" where
  "failures_of r = (case r of Some (ErrWebhook e) \<Rightarrow> one_failure | _ \<Rightarrow> nothing)"

lemma failures_of_simps [simp]:
  "failures_of None = nothing" "failures_of (Some (ErrWebhook e)) = one_failure"
  "failures_of (Some (ErrCheckStatus x)) = nothing" "failures_of (Some ErrExceededMaxAttempts) = nothing"
  "failures_of (Some (ErrMarkInProgress x)) = nothing" "failures_of (Some (ErrMarkCompleted x)) = nothing"
  by (simp_all add: failures_of_def)

lemma counts_keep: "metrics_ok g \<Longrightarrow> counts nothing g (x, n) (Some (x, n\<lparr>Met_global := g\<rparr>))"
  by (simp add: counts_Some adds_refl)

lemma counts_blind: "blind f \<Longrightarrow> metrics_ok g \<Longrightarrow> counts nothing g (f n) (Some (f (n\<lparr>Met_global := g\<rparr>)))"
  using adds_refl by (auto simp: counts_def blind_def)

lemma counts_failed:
  assumes "metrics_ok g"
  shows "counts one_failure g (case MarkFailed (Store_StatusStore E) None t t' i a n of (e, n) \<Rightarrow> (x, n))
     (failure_metrics ty k (n\<lparr>Met_global := g\<rparr>) \<bind> (\<lambda>n. metered_MarkFailed E t t' i a n \<bind> (\<lambda>(e, n). Some (x, n))))"
proof -
  have "counts (\<lambda>i. 0 + 0) g' (case MarkFailed (Store_StatusStore E) None t t' i a n of (e, n) \<Rightarrow> (x, n))
     (metered_MarkFailed E t t' i a (n\<lparr>Met_global := g'\<rparr>) \<bind> (\<lambda>(e, n). Some (x, n)))" if "metrics_ok g'" for g'
    unfolding metered_MarkFailed_def reads_global
    by (rule counts_bind [OF counts_marks(3) [OF that]]) (simp add: counts_keep)
  from counts_after [OF failure_adds [OF assms] this] show ?thesis by simp
qed

lemma counts_completed:
  assumes "metrics_ok g"
  shows "counts nothing g (case MarkCompleted (Store_StatusStore E) None t t' i a n of (e, n) \<Rightarrow> (h e, n))
     (success_metrics k (n\<lparr>Met_global := g\<rparr>) \<bind> (\<lambda>n. metered_MarkCompleted E t t' i a n \<bind> (\<lambda>(e, n). Some (h e, n))))"
proof -
  have "counts (\<lambda>i. 0 + 0) g' (case MarkCompleted (Store_StatusStore E) None t t' i a n of (e, n) \<Rightarrow> (h e, n))
     (metered_MarkCompleted E t t' i a (n\<lparr>Met_global := g'\<rparr>) \<bind> (\<lambda>(e, n). Some (h e, n)))" if "metrics_ok g'" for g'
    unfolding metered_MarkCompleted_def reads_global
    by (rule counts_bind [OF counts_marks(2) [OF that]]) (simp add: counts_keep)
  from counts_after [OF success_adds [OF assms] this] show ?thesis by simp
qed

lemma counts_outcome:
  assumes "metrics_ok g"
  shows "counts (failures_of (fst (record_outcome E t i a c err n))) g
     (record_outcome E t i a c err n) (metered_record_outcome E t i a c err (n\<lparr>Met_global := g\<rparr>))"
proof (cases err)
  case None
  let ?a = "a\<lparr>Att_Status := StatusCompleted, Att_HTTPStatus := c\<rparr>"
  let ?m = "MarkCompleted (Store_StatusStore E) None (R_record t) (R_status t) i (Some ?a) n"
  have r: "record_outcome E t i a c err n =
      (if is_cancelled E i n then (None, snd (RecordAttempt (Store_StatusStore E) (R_record t) i (Some a) n))
       else case ?m of (e, n) \<Rightarrow> (map_option ErrMarkCompleted e, n))"
    unfolding record_outcome_def None by (auto simp: marks_callback split: prod.splits option.splits)
  have "failures_of (fst (record_outcome E t i a c err n)) = nothing"
    unfolding r by (cases "fst ?m") (auto split: prod.splits)
  then show ?thesis
    using counts_completed [OF assms] assms unfolding r
    by (auto simp: metered_record_outcome_def None Let_def recordAttempt_global snd_apsnd counts_keep)
next
  case (Some e)
  let ?a = "a\<lparr>Att_Status := StatusFailed, Att_ErrorMessage := Err_Error e, Att_ErrorType := classifyError (Some e), Att_HTTPStatus := c\<rparr>"
  have r: "record_outcome E t i a c err n = (if is_cancelled E i n then (None, n)
      else case MarkFailed (Store_StatusStore E) None (R_record t) (R_status t) i (Some ?a) n of (x, n) \<Rightarrow> (Some (ErrWebhook e), n))"
    unfolding record_outcome_def Some by (simp add: marks_callback split: prod.splits)
  show ?thesis
  proof (cases "is_cancelled E i n")
    case True
    then show ?thesis using assms unfolding r by (simp add: metered_record_outcome_def Some counts_keep)
  next
    case False
    then have "failures_of (fst (record_outcome E t i a c err n)) = one_failure" unfolding r by (simp split: prod.splits)
    with False show ?thesis using counts_failed [OF assms] unfolding r by (simp add: metered_record_outcome_def Some Let_def)
  qed
qed

lemma counts_webhook:
  assumes "blind_client H" "metrics_ok g"
  shows "counts nothing g (executeWebhook H t ctx job n) (Some (executeWebhook H t ctx job (n\<lparr>Met_global := g\<rparr>)))"
proof -
  let ?req = "\<lparr>HR_Context = ctx, HR_Timeout = EM_executionTimeout n, HR_URL = Job_WebhookURL job,
      HR_Body = webhook_body (R_payload t) job, HR_ContentType = ''application/json''\<rparr>"
  obtain g' where g': "adds nothing g g'"
      "http_Do H ?req (n\<lparr>Met_global := g\<rparr>) = apsnd (\<lambda>n. n\<lparr>Met_global := g'\<rparr>) (http_Do H ?req n)"
    using assms(1) [unfolded blind_client_def, rule_format, OF assms(2), of ?req n] by (auto simp: counts_def)
  show ?thesis using g' adds_refl [OF assms(2)]
    by (auto simp: executeWebhook_def counts_def Let_def split: option.splits prod.splits sum.splits)
qed

text \<open>\<open>Execute\<close> after the job is marked, without the measurements.\<close>

definition plain_attempt ::
  "('c, 'r) Env \<Rightarrow> ('c, 'r, 'z) MeteredNode_scheme http_lib \<Rightarrow> readings \<Rightarrow> int \<Rightarrow> Job
     \<Rightarrow> ('c, 'r, 'z) MeteredNode_scheme \<Rightarrow> exec_error option \<times> ('c, 'r, 'z) MeteredNode_scheme" where
  "plain_attempt E H t attemptNum job n =
     (case executeWebhook H t (EM_contexts n) job
         (n\<lparr>EM_contexts := Suc (EM_contexts n), EM_cancelFuncs := fmupd (Job_ID job) (EM_contexts n) (EM_cancelFuncs n)\<rparr>) of
        ((code, ms, err), n2) \<Rightarrow>
          (case record_outcome E t (Job_ID job)
              (zero_Attempt\<lparr>Att_AttemptNum := attemptNum, Att_StartTime := R_start t, Att_NodeID := EM_nodeID n,
                 Att_EndTime := R_end t, Att_ResponseTime := ms\<rparr>) code err n2 of
             (r, n3) \<Rightarrow> (r, release (Job_ID job) (EM_contexts n) n3)))"

lemma counts_attempt:
  assumes "blind_client H" "metrics_ok g"
  shows "counts (failures_of (fst (plain_attempt E H t k job n))) g (plain_attempt E H t k job n)
     (metered_attempt E H t k job (n\<lparr>Met_global := g\<rparr>))"
proof -
  define n1 where "n1 = n\<lparr>EM_contexts := Suc (EM_contexts n), EM_cancelFuncs := fmupd (Job_ID job) (EM_contexts n) (EM_cancelFuncs n)\<rparr>"
  obtain c ms err n2 where web: "executeWebhook H t (EM_contexts n) job n1 = ((c, ms, err), n2)" by (metis prod.exhaust)
  obtain g2 where g2: "adds nothing g g2"
      "executeWebhook H t (EM_contexts n) job (n1\<lparr>Met_global := g\<rparr>) = ((c, ms, err), n2\<lparr>Met_global := g2\<rparr>)"
    using counts_webhook [OF assms, of t "EM_contexts n" job n1] by (auto simp: web counts_def)
  define a where "a = zero_Attempt\<lparr>Att_AttemptNum := k, Att_StartTime := R_start t, Att_NodeID := EM_nodeID n,
      Att_EndTime := R_end t, Att_ResponseTime := ms\<rparr>"
  obtain r n3 where out: "record_outcome E t (Job_ID job) a c err n2 = (r, n3)" by (metis prod.exhaust)
  obtain g3 where g3: "adds (failures_of r) g2 g3"
      "metered_record_outcome E t (Job_ID job) a c err (n2\<lparr>Met_global := g2\<rparr>) = Some (r, n3\<lparr>Met_global := g3\<rparr>)"
    using counts_outcome [of g2 E t "Job_ID job" a c err n2] adds_ok [OF g2(1)] by (auto simp: out counts_def)
  have p: "plain_attempt E H t k job n = (r, release (Job_ID job) (EM_contexts n) n3)"
    using web out by (simp add: plain_attempt_def n1_def a_def)
  have n1g: "n\<lparr>Met_global := g, EM_contexts := Suc (EM_contexts n), EM_cancelFuncs := fmupd (Job_ID job) (EM_contexts n) (EM_cancelFuncs n)\<rparr>
      = n1\<lparr>Met_global := g\<rparr>"
    by (simp add: n1_def)
  have "metered_attempt E H t k job (n\<lparr>Met_global := g\<rparr>) = Some (r, (release (Job_ID job) (EM_contexts n) n3)\<lparr>Met_global := g3\<rparr>)"
    using g2(2) g3(2) by (simp add: metered_attempt_def Let_def n1g [simplified] a_def n1_def release_def)
  moreover have "adds (failures_of r) g g3" using adds_trans [OF g2(1) g3(1)] by simp
  ultimately show ?thesis unfolding p by (simp add: counts_Some)
qed

lemma Execute_plain:
  "Execute E H t job n =
     (case CanExecute (Store_StatusStore E) (Job_ID job) n of
        Inl err \<Rightarrow> (Some (ErrCheckStatus err), n)
      | Inr can \<Rightarrow>
          if \<not> can then (None, n)
          else let k = (case GetStatus (Store_StatusStore E) (Job_ID job) n of
                          Inl err \<Rightarrow> 1 | Inr state \<Rightarrow> add64 (Exec_AttemptCount state) 1)
          in if k > EM_maxAttempts n then (Some ErrExceededMaxAttempts, n)
          else case MarkInProgress (Store_StatusStore E) None (R_mark t) (Job_ID job) (EM_nodeID n) n of
            (e, n) \<Rightarrow> (case e of Some err \<Rightarrow> (Some (ErrMarkInProgress err), n) | None \<Rightarrow> plain_attempt E H t k job n))"
  unfolding Execute_def plain_attempt_def marks_callback Let_def
  by (auto split: sum.splits bool.splits prod.splits option.splits)

lemma counts_marked:
  assumes "blind_client H" "metrics_ok g" "mark = MarkInProgress (Store_StatusStore E) None (R_mark t) (Job_ID job) (EM_nodeID n) n"
    and "F = (\<lambda>e n. case e of Some err \<Rightarrow> (Some (ErrMarkInProgress err), n) | None \<Rightarrow> plain_attempt E H t k job n)"
  shows "counts (failures_of (fst (case mark of (e, n) \<Rightarrow> F e n))) g (case mark of (e, n) \<Rightarrow> F e n)
     (metered_MarkInProgress E (R_mark t) (Job_ID job) (EM_nodeID n) (n\<lparr>Met_global := g\<rparr>) \<bind>
      (\<lambda>(e, n). case e of Some err \<Rightarrow> Some (Some (ErrMarkInProgress err), n) | None \<Rightarrow> metered_attempt E H t k job n))"
proof -
  obtain e n1 where m: "mark = (e, n1)" by (cases mark)
  have "counts (\<lambda>i. 0 + failures_of (fst (F e n1)) i) g (case mark of (e, n) \<Rightarrow> F e n)
     (metered_MarkInProgress E (R_mark t) (Job_ID job) (EM_nodeID n) (n\<lparr>Met_global := g\<rparr>) \<bind>
      (\<lambda>(e, n). case e of Some err \<Rightarrow> Some (Some (ErrMarkInProgress err), n) | None \<Rightarrow> metered_attempt E H t k job n))"
    unfolding metered_MarkInProgress_def reads_global assms(3)
  proof (rule counts_bind [OF counts_marks(1) [OF assms(2)]])
    fix x n' g' assume p: "MarkInProgress (Store_StatusStore E) None (R_mark t) (Job_ID job) (EM_nodeID n) n = (x, n')" "metrics_ok g'"
    then have "x = e" "n' = n1" using m assms(3) by simp_all
    with p(2) counts_attempt [OF assms(1) p(2), of E t k job n1]
    show "counts (failures_of (fst (F e n1))) g' (F x n')
       (case (x, n'\<lparr>Met_global := g'\<rparr>) of (e, n) \<Rightarrow>
          case e of Some err \<Rightarrow> Some (Some (ErrMarkInProgress err), n) | None \<Rightarrow> metered_attempt E H t k job n)"
      by (cases e) (simp_all add: assms(4) counts_keep)
  qed
  then show ?thesis by (simp add: m)
qed

lemma counts_Execute:
  assumes "blind_client H" "metrics_ok g"
  shows "counts (failures_of (fst (Execute E H t job n))) g (Execute E H t job n) (metered_Execute E H t job (n\<lparr>Met_global := g\<rparr>))"
proof (cases "CanExecute (Store_StatusStore E) (Job_ID job) n")
  case (Inl err)
  with assms(2) show ?thesis unfolding Execute_plain by (simp add: metered_Execute_def counts_keep)
next
  case (Inr can)
  then show ?thesis using assms(2) counts_marked [OF assms refl refl]
    unfolding Execute_plain by (cases can) (simp_all add: metered_Execute_def Let_def counts_keep)
qed

text \<open>The check of the timeouts.\<close>

lemma timeout_loop_callback:
  "timeout_loop S metrics_callback timeout now xs acc s = timeout_loop S None timeout now xs acc s"
  by (induction S "None :: 'a StatusChangeCallback option" timeout now xs acc s rule: timeout_loop.induct)
    (auto simp: notify_callback split: prod.splits option.splits)

lemma counts_timeout_loop:
  "metrics_ok g \<Longrightarrow> counts nothing g (timeout_loop (Store_StatusStore E) None timeout now xs acc n)
     (metered_timeout_loop E timeout now xs acc (n\<lparr>Met_global := g\<rparr>))"
proof (induction xs arbitrary: acc n g)
  case Nil
  then show ?case by (simp add: counts_keep)
next
  case (Cons x rest)
  obtain i st where x: "x = (i, st)" by (cases x)
  show ?case
  proof (cases "timed_out timeout now st")
    case True
    obtain e n1 where c: "applyStatusCommand (Store_StatusStore E) CommandUpdateJobStatus (timeout_command now i) n = (e, n1)"
      by (metis prod.exhaust)
    then have c': "applyStatusCommand (Store_StatusStore E) CommandUpdateJobStatus (timeout_command now i) (n\<lparr>Met_global := g\<rparr>)
        = (e, n1\<lparr>Met_global := g\<rparr>)" by (simp add: status_command_global)
    show ?thesis
    proof (cases e)
      case (Some err)
      with Cons True c c' x show ?thesis by simp
    next
      case None
      from counts_after [OF status_change_adds [OF Cons.prems, of StatusInProgress StatusTimeout n1] Cons.IH] None True c c' x
      show ?thesis by (simp add: notify_def)
    qed
  qed (use Cons x in simp)
qed

lemma checkTimeouts_measured:
  assumes "metrics_ok (Met_global n)"
  shows "\<exists>g'. adds nothing (Met_global n) g' \<and>
     metered_checkTimeouts E order d now n = Some ((checkTimeouts E order d now n)\<lparr>Met_global := g'\<rparr>)"
proof -
  let ?xs = "range_map order (SS_GetAllExecutionStates (Store_StatusStore E) n)"
  have l: "SS_IsLeader (Store_StatusStore E) n = IsLeader E n" by (simp add: Store_StatusStore_def)
  show ?thesis
    using counts_timeout_loop [OF assms, of E d now ?xs "[]" n] adds_refl [OF assms]
    by (auto simp: metered_checkTimeouts_def checkTimeouts_def CheckTimeouts_def l timeout_loop_callback counts_def
        split: prod.splits)
qed

section \<open>Properties\<close>

text \<open>The measurements of the worker around a run.\<close>

definition outcome_of :: "bool \<Rightarrow> instrument \<Rightarrow> rat" where
  "outcome_of success i =
     (if success then (if JobsExecuted = i then 1 else 0) else (if JobsFailed = i \<or> WorkerErrors = i then 1 else 0))"

lemma executed_adds:
  assumes "metrics_ok g"
  shows "\<exists>g'. adds (\<lambda>i. if (if success then JobsExecuted else JobsFailed) = i then 1 else 0) g g' \<and>
     with_metrics (\<lambda>m. do { m \<leftarrow> IncrementJobsExecuted ty success m; RecordJobExecutionDuration d ty m }) (n\<lparr>Met_global := g\<rparr>)
       = Some (n\<lparr>Met_global := g'\<rparr>)"
  by (rule with_metrics_adds [OF assms])
    (cases success; simp add: IncrementJobsExecuted_def RecordJobExecutionDuration_def run_counters_def)

lemma errors_adds:
  assumes "metrics_ok g"
  shows "\<exists>g'. adds (\<lambda>i. if \<not> success \<and> WorkerErrors = i then 1 else 0) g g' \<and>
     with_metrics (\<lambda>m. do {
        m \<leftarrow> (if \<not> success then IncrementWorkerErrors ''job_execution_failed'' m else Some m);
        m \<leftarrow> RecordWorkerProcessingTime d m;
        RecordWorkerIdleTime 0 m }) (n\<lparr>Met_global := g\<rparr>) = Some (n\<lparr>Met_global := g'\<rparr>)"
  by (rule with_metrics_adds [OF assms])
    (cases success; simp add: IncrementWorkerErrors_def RecordWorkerProcessingTime_def RecordWorkerIdleTime_def run_counters_def)

lemma worker_adds:
  assumes "metrics_ok g"
  shows "\<exists>g'. adds (outcome_of success) g g' \<and>
     (do { n \<leftarrow> with_metrics (\<lambda>m. do { m \<leftarrow> IncrementJobsExecuted ty success m; RecordJobExecutionDuration d ty m }) (n\<lparr>Met_global := g\<rparr>);
           with_metrics (\<lambda>m. do {
              m \<leftarrow> (if \<not> success then IncrementWorkerErrors ''job_execution_failed'' m else Some m);
              m \<leftarrow> RecordWorkerProcessingTime d m;
              RecordWorkerIdleTime 0 m }) n }) = Some (n\<lparr>Met_global := g'\<rparr>)"
proof -
  obtain g1 where g1: "adds (\<lambda>i. if (if success then JobsExecuted else JobsFailed) = i then 1 else 0) g g1"
      "with_metrics (\<lambda>m. do { m \<leftarrow> IncrementJobsExecuted ty success m; RecordJobExecutionDuration d ty m }) (n\<lparr>Met_global := g\<rparr>)
         = Some (n\<lparr>Met_global := g1\<rparr>)"
    using executed_adds [OF assms] by blast
  from errors_adds [OF adds_ok [OF g1(1), THEN conjunct2]] obtain g2 where
    g2: "adds (\<lambda>i. if \<not> success \<and> WorkerErrors = i then 1 else 0) g1 g2"
      "with_metrics (\<lambda>m. do {
          m \<leftarrow> (if \<not> success then IncrementWorkerErrors ''job_execution_failed'' m else Some m);
          m \<leftarrow> RecordWorkerProcessingTime d m;
          RecordWorkerIdleTime 0 m }) (n\<lparr>Met_global := g1\<rparr>) = Some (n\<lparr>Met_global := g2\<rparr>)"
    by blast
  have "(\<lambda>i. (if (if success then JobsExecuted else JobsFailed) = i then 1 else 0) + (if \<not> success \<and> WorkerErrors = i then 1 else 0))
      = outcome_of success"
    by (auto simp: outcome_of_def fun_eq_iff)
  then have "adds (outcome_of success) g g2" using adds_trans [OF g1(1) g2(1)] by simp
  with g1(2) g2(2) show ?thesis by (metis bind.bind_lunit)
qed

text \<open>C32: Every run is counted for what it was, and measuring it changes nothing else: the node
  afterwards is that of the unmeasured run but for the metrics; one of the counters of executed
  and of failed jobs grows by one, as the run returned an error or not; the failures of
  executions grow by one exactly when the webhook failed; and the labels of the statuses add
  up to what they were.\<close>
theorem run_is_counted:
  assumes "ready (Met_global n)" "blind_client H" "Execute E H t job n = (err, n1)"
  shows "\<exists>m. metered_executeJob E H t d job n = Some (n1\<lparr>Met_global := m\<rparr>) \<and> executeJob E H t job n = n1 \<and> ready m \<and>
     reported JobsExecuted (\<lambda>as. True) m = shown JobsExecuted n + (if err = None then 1 else 0) \<and>
     reported JobsFailed (\<lambda>as. True) m = shown JobsFailed n + (if err = None then 0 else 1) \<and>
     reported WorkerErrors (\<lambda>as. True) m = shown WorkerErrors n + (if err = None then 0 else 1) \<and>
     reported ExecutionFailures (\<lambda>as. True) m = shown ExecutionFailures n + (if \<exists>e. err = Some (ErrWebhook e) then 1 else 0) \<and>
     reported JobsByStatus (\<lambda>as. True) m = shown JobsByStatus n"
proof -
  let ?g = "Met_global n"
  have ok: "metrics_ok ?g" using assms(1) by (simp add: metrics_ok_def)
  obtain g1 where g1: "adds (failures_of err) ?g g1" "metered_Execute E H t job n = Some (err, n1\<lparr>Met_global := g1\<rparr>)"
    using counts_Execute [OF assms(2) ok, of E t job n] assms(3) by (auto simp: counts_def)
  obtain m where m: "adds (outcome_of (err = None)) g1 m" "metered_executeJob E H t d job n = Some (n1\<lparr>Met_global := m\<rparr>)"
    using worker_adds [of g1 "err = None" "job_type_string (Job_Type job)" d n1] adds_ok [OF g1(1)] g1(2)
    by (auto simp: metered_executeJob_def)
  have a: "adds (\<lambda>i. failures_of err i + outcome_of (err = None) i) ?g m" using adds_trans [OF g1(1) m(1)] .
  then have c: "ready m" "\<And>i. i \<in> run_counters \<Longrightarrow>
      reported i (\<lambda>as. True) m = shown i n + (failures_of err i + outcome_of (err = None) i)"
    using assms(1) by (auto simp: adds_def shown_def)
  have f: "failures_of err i = (if ExecutionFailures = i \<and> (\<exists>e. err = Some (ErrWebhook e)) then 1 else 0)" for i
    by (auto simp: failures_of_def one_failure_def split: option.splits exec_error.splits)
  show ?thesis
    by (intro exI [of _ m] conjI m(2) c(1))
      (simp_all add: c(2) run_counters_def f outcome_of_def executeJob_def assms(3))
qed

text \<open>A change of status moves one job from a label to another, and a job that is created has no label:
  the labels of \<open>jobs_by_status\<close> always add up to what they were, so to 0 from the start.\<close>

lemma jobs_by_status_sum:
  "ready (Met_global n) \<Longrightarrow> status_change_metrics old new n = Some n' \<Longrightarrow> shown JobsByStatus n' = shown JobsByStatus n"
  by (auto simp: status_change_metrics_def UpdateJobsByStatus_def shown_def ready_not_None)

text \<open>A job whose execution is skipped, because it is finished or running elsewhere, counts as executed.\<close>

lemma skipped_job_counted_as_executed:
  assumes "ready (Met_global n)" "CanExecute (Store_StatusStore E) (Job_ID job) n = Inr False"
  shows "\<exists>m. metered_executeJob E H t d job n = Some (n\<lparr>Met_global := m\<rparr>) \<and>
     reported JobsExecuted (\<lambda>as. True) m = reported JobsExecuted (\<lambda>as. True) (Met_global n) + 1"
  by (rule exI, rule conjI) (use assms in \<open>simp add: metered_executeJob_def metered_Execute_def metrics_methods\<close>, use assms in simp)

section \<open>Witnesses\<close>

definition metered_client :: "(disk, solo) MeteredNode http_lib" where
  "metered_client = \<lparr>http_NewRequest = (\<lambda>url. None), http_Do = (\<lambda>req n. (Inr 200, n))\<rparr>"

lemma metered_client_blind: "blind_client metered_client"
  using adds_refl by (auto simp: blind_client_def metered_client_def counts_def)

lemma run_is_counted_witness:
  "\<exists>m. metered_executeJob solo_env metered_client sample_readings 0 hook_job (metered_solo True sample_fsm fresh_metrics)
       = Some ((executeJob solo_env metered_client sample_readings hook_job (metered_solo True sample_fsm fresh_metrics))\<lparr>Met_global := m\<rparr>) \<and>
     reported JobsExecuted (\<lambda>as. True) m + reported JobsFailed (\<lambda>as. True) m = 1 \<and> reported JobsByStatus (\<lambda>as. True) m = 0"
proof -
  let ?n = "metered_solo True sample_fsm fresh_metrics"
  obtain err n1 where e: "Execute solo_env metered_client sample_readings hook_job ?n = (err, n1)" by (metis prod.exhaust)
  have z: "shown i ?n = 0" for i by (simp add: shown_def fresh_metrics_def reported_def)
  show ?thesis using run_is_counted [OF _ metered_client_blind e, where d = 0] z by (cases err) auto
qed

end
