(* ===== verification/Tick_Measurements.thy ===== *)
theory Tick_Measurements
  imports Run_Measurements
begin

text \<open>
  The tick of the worker with all its measurements (\<open>processSlots\<close> of \<open>internal/slots/worker.go\<close>): the
  slot, every run, and the events that the deletion and the creation of jobs send to the handler
  of the application. The queue and the store do not look at the metrics, so the tick is the one
  without measurements but for the metrics.
\<close>

section \<open>The tick\<close>

text \<open>What the clock says of the durations: since the tick began, in every turn, and of every run.\<close>

record durations =
  D_elapsed :: "nat \<Rightarrow> Duration"
  D_run :: "nat \<Rightarrow> string \<Rightarrow> Duration"

fun metered_run_jobs ::
  "('c, 'r, ('c, 'r, 'z) MeteredNode_scheme) outside \<Rightarrow> durations \<Rightarrow> nat \<Rightarrow> int \<Rightarrow> Job list \<Rightarrow> batch
     \<Rightarrow> ('c, 'r, 'z) MeteredNode_scheme \<Rightarrow> (batch \<times> ('c, 'r, 'z) MeteredNode_scheme) option" where
  "metered_run_jobs W D i now [] b n = Some (b, n)"
| "metered_run_jobs W D i now (job # js) b n = do {
     n \<leftarrow> (if shouldExecuteJob job now
          then metered_executeJob (O_env W) (O_http W) (O_exec W i (Job_ID job)) (D_run D i (Job_ID job)) job n
          else Some n);
     metered_run_jobs W D i now js (sort_job (O_cron W) now job b) n
   }"

definition metered_remove_done ::
  "('c, 'r, ('c, 'r, 'z) MeteredNode_scheme) outside \<Rightarrow> nat \<Rightarrow> string \<Rightarrow> ('c, 'r, 'z) MeteredNode_scheme
     \<Rightarrow> ('c, 'r, 'z) MeteredNode_scheme option" where
  "metered_remove_done W i jobID n = do {
     n \<leftarrow> (if IsLeader (O_env W) n
          then map_option snd (DeleteJob (O_env W)
                 (Some (metered_eventHandler (O_env W) (O_order W) (O_event W i jobID))) jobID n)
          else Some n);
     RemoveJob (O_env W) (O_order W) jobID n
   }"

definition metered_reschedule ::
  "('c, 'r, ('c, 'r, 'z) MeteredNode_scheme) outside \<Rightarrow> nat \<Rightarrow> Job \<Rightarrow> ('c, 'r, 'z) MeteredNode_scheme
     \<Rightarrow> ('c, 'r, 'z) MeteredNode_scheme option" where
  "metered_reschedule W i job n =
     (if IsLeader (O_env W) n
      then map_option snd (CreateJob (O_env W)
             (Some (metered_eventHandler (O_env W) (O_order W) (O_event W i (Job_ID job)))) job n)
      else Some n)"

definition metered_process_slot ::
  "('c, 'r, ('c, 'r, 'z) MeteredNode_scheme) outside \<Rightarrow> durations \<Rightarrow> nat \<Rightarrow> int \<Rightarrow> Slot \<Rightarrow> ('c, 'r, 'z) MeteredNode_scheme
     \<Rightarrow> (bool \<times> ('c, 'r, 'z) MeteredNode_scheme) option" where
  "metered_process_slot W D i now slot n = do {
     n \<leftarrow> slot_metrics slot (D_elapsed D i) n;
     (b, n) \<leftarrow> metered_run_jobs W D i now (QS_Jobs slot) empty_batch n;
     n \<leftarrow> each (metered_remove_done W i) (jobsToRemove b) n;
     n \<leftarrow> each (metered_reschedule W i) (jobsToReschedule b) n;
     Some (\<not> anyJobExecuted b \<and> hasJobsNotReady b, n)
   }"

fun metered_process_loop ::
  "('c, 'r, ('c, 'r, 'z) MeteredNode_scheme) outside \<Rightarrow> durations \<Rightarrow> int \<Rightarrow> nat \<Rightarrow> nat \<Rightarrow> ('c, 'r, 'z) MeteredNode_scheme
     \<Rightarrow> ('c, 'r, 'z) MeteredNode_scheme option" where
  "metered_process_loop W D now 0 i n = Some n"
| "metered_process_loop W D now (Suc k) i n = do {
     (slot, n) \<leftarrow> GetNextSlot (O_env W) (O_order W) (fst (O_next W i)) (snd (O_next W i)) n;
     case slot of
       None \<Rightarrow> Some n
     | Some slot \<Rightarrow>
         if now < QS_MinTime slot then Some n
         else do {
           (stop, n) \<leftarrow> metered_process_slot W D i now slot n;
           if stop then Some n else metered_process_loop W D now k (Suc i) n
         }
   }"

definition metered_processSlots ::
  "('c, 'r, ('c, 'r, 'z) MeteredNode_scheme) outside \<Rightarrow> durations \<Rightarrow> int \<Rightarrow> ('c, 'r, 'z) MeteredNode_scheme
     \<Rightarrow> ('c, 'r, 'z) MeteredNode_scheme option" where
  "metered_processSlots W D now n = metered_process_loop W D now maxSlotsToCheck 0 n"

section \<open>The queue does not look at the metrics\<close>

abbreviation set_global :: "metrics \<Rightarrow> ('c, 'r, 'z) MeteredNode_scheme \<Rightarrow> ('c, 'r, 'z) MeteredNode_scheme" where
  "set_global g n \<equiv> n\<lparr>Met_global := g\<rparr>"

text \<open>An operation that may panic, and one that returns a value as well.\<close>

definition unmetered :: "(('c, 'r, 'z) MeteredNode_scheme \<Rightarrow> ('c, 'r, 'z) MeteredNode_scheme option) \<Rightarrow> bool" where
  "unmetered f \<longleftrightarrow> (\<forall>n g. f (set_global g n) = map_option (set_global g) (f n))"

definition unmetered_result :: "(('c, 'r, 'z) MeteredNode_scheme \<Rightarrow> ('a \<times> ('c, 'r, 'z) MeteredNode_scheme) option) \<Rightarrow> bool" where
  "unmetered_result f \<longleftrightarrow> (\<forall>n g. f (set_global g n) = map_option (apsnd (set_global g)) (f n))"

lemma store_global [simp]:
  "Store_GetSlot E (set_global g n) k = Store_GetSlot E n k" "Store_GetJob (set_global g n) = Store_GetJob n"
  "Store_GetAllSlots (set_global g n) = Store_GetAllSlots n" "IsColdSpillingEnabled (set_global g n) = IsColdSpillingEnabled n"
  "cold_slot E (set_global g n) = cold_slot E n" "Store_GetColdSlotKeys order (set_global g n) = Store_GetColdSlotKeys order n"
  "getSlotKey (set_global g n) t = getSlotKey n t"
  by (simp_all add: Store_GetSlot_def Store_GetJob_def Store_GetAllSlots_def IsColdSpillingEnabled_def cold_slot_def fun_eq_iff
      GetColdSlotData_def Store_GetColdSlotKeys_def getSlotKey_def)

lemma if_leader_global [simp]:
  "if_leader E (CreateSlot E d) (set_global g n) = set_global g (if_leader E (CreateSlot E d) n)"
  "if_leader E (DeleteSlot E k) (set_global g n) = set_global g (if_leader E (DeleteSlot E k) n)"
  by (simp_all add: if_leader_def CreateSlot_def DeleteSlot_def raftApply_global snd_apsnd)

lemma update_global [simp]:
  "(set_global g n)\<lparr>Q_wheel := w\<rparr> = set_global g (n\<lparr>Q_wheel := w\<rparr>)"
  "(set_global g n)\<lparr>Q_jobToSlot := j\<rparr> = set_global g (n\<lparr>Q_jobToSlot := j\<rparr>)"
  by simp_all

lemma on_wheel_global [simp]: "on_wheel f (set_global g n) = map_option (set_global g) (on_wheel f n)"
  by (simp add: on_wheel_def option.map_comp comp_def)

lemma unmetered_AddJob: "unmetered (AddJob E now job)"
  by (auto simp: unmetered_def AddJob_def Let_def split: option.splits bind_splits)

lemma unmetered_drop: "drop_from_slot E key d i (set_global g n) = map_option (set_global g) (drop_from_slot E key d i n)"
  by (simp add: drop_from_slot_def Let_def)

lemma unmetered_fallback:
  "fallback_search E i load keys (set_global g n) = map_option (apsnd (set_global g)) (fallback_search E i load keys n)"
  by (induction keys arbitrary: n) (auto simp: unmetered_drop split: option.splits bind_splits)

lemma map_snd_apsnd [simp]: "map_option snd (map_option (apsnd f) x) = map_option f (map_option snd x)"
  by (cases x) simp_all

lemma unmetered_RemoveJob: "unmetered (RemoveJob E order i)"
  by (auto simp: unmetered_def RemoveJob_def removeJobFallback_def Let_def unmetered_fallback unmetered_drop
      split: option.splits bind_splits)

lemma unmetered_discard: "discard_ready E keys (set_global g n) = map_option (set_global g) (discard_ready E keys n)"
  by (induction keys arbitrary: n) (auto split: option.splits bind_splits)

lemma unmetered_GetNextSlot: "unmetered_result (GetNextSlot E order t0 now)"
  unfolding unmetered_result_def
proof (intro allI)
  fix n :: "('a, 'b, 'c) MeteredNode_scheme" and g
  let ?first = "\<lambda>n. if \<not> initialized (Q_wheel n) then on_wheel (wheel_Init t0) n else Some n"
  have first: "?first (set_global g n) = map_option (set_global g) (?first n)" by simp
  show "GetNextSlot E order t0 now (set_global g n) = map_option (apsnd (set_global g)) (GetNextSlot E order t0 now n)"
  proof (cases "?first n")
    case None
    then show ?thesis unfolding GetNextSlot_def first by simp
  next
    case n1: (Some n1)
    show ?thesis
    proof (cases "wheel_Advance order now (Q_wheel n1)")
      case None
      then show ?thesis unfolding GetNextSlot_def first n1 by simp
    next
      case (Some kw)
      obtain ks w where kw: "kw = (ks, w)" by (cases kw)
      show ?thesis
      proof (cases "discard_ready E ks (n1\<lparr>Q_wheel := w\<rparr>)")
        case None
        then show ?thesis unfolding GetNextSlot_def first n1 by (simp add: Some kw unmetered_discard)
      next
        case n2: (Some n2)
        show ?thesis unfolding GetNextSlot_def first n1
          by (cases "div64 (PeekMin order (Q_wheel n2)) (seconds64 (Q_slotGap n2))")
            (simp_all add: Some kw unmetered_discard n2 Let_def split: option.splits, simp add: div64_def)
      qed
    qed
  qed
qed

lemma unmetered_events: "unmetered (eventHandler E order now event job)"
  by (auto simp: unmetered_def eventHandler_def unmetered_AddJob [unfolded unmetered_def, rule_format]
      unmetered_RemoveJob [unfolded unmetered_def, rule_format] split: option.splits)

lemmas events_global = unmetered_events [unfolded unmetered_def, rule_format]

lemma unmetered_CreateJob: "unmetered_result (CreateJob E (Some (eventHandler E order now)) job)"
  by (auto simp: unmetered_result_def events_global CreateJob_def raftApply_global option.map_comp comp_def
      split: prod.splits option.splits)

lemma unmetered_DeleteJob: "unmetered_result (DeleteJob E (Some (eventHandler E order now)) i)"
  by (auto simp: unmetered_result_def events_global DeleteJob_def Let_def raftApply_global option.map_comp comp_def
      split: prod.splits option.splits)

section \<open>The tick is transparent\<close>

definition follows :: "('c, 'r, 'z) MeteredNode_scheme option \<Rightarrow> ('c, 'r, 'z) MeteredNode_scheme option \<Rightarrow> bool" where
  "follows p m \<longleftrightarrow> (case p of None \<Rightarrow> m = None | Some n \<Rightarrow> \<exists>g. metrics_ok g \<and> m = Some (set_global g n))"

lemma follows_bind:
  assumes "follows p m" "\<And>n g. p = Some n \<Longrightarrow> metrics_ok g \<Longrightarrow> follows (f n) (k (set_global g n))"
  shows "follows (p \<bind> f) (m \<bind> k)"
proof (cases p)
  case (Some n)
  with assms(1) obtain g where "metrics_ok g" "m = Some (set_global g n)" by (auto simp: follows_def)
  with assms(2) [OF Some] Some show ?thesis by simp
qed (use assms(1) in \<open>simp add: follows_def\<close>)

lemma follows_Some: "metrics_ok g \<Longrightarrow> follows (Some n) (Some (set_global g n))"
  by (auto simp: follows_def)

lemma follows_unmetered: "unmetered f \<Longrightarrow> metrics_ok g \<Longrightarrow> follows (f n) (f (set_global g n))"
  by (auto simp: follows_def unmetered_def split: option.splits)

lemma follows_snd: "measured p m \<Longrightarrow> follows (map_option snd p) (map_option snd m)"
  by (auto simp: follows_def measured_def split: option.splits)

lemma measured_unmetered:
  assumes "unmetered_result f" "measured (f (set_global g n)) m"
  shows "measured (f n) m"
  using assms by (cases "f n") (auto simp: unmetered_result_def measured_def)

lemma follows_each:
  assumes "\<And>x n g. metrics_ok g \<Longrightarrow> follows (f x n) (k x (set_global g n))" "metrics_ok g"
  shows "follows (each f xs n) (each k xs (set_global g n))"
  using assms(2) by (induction xs arbitrary: n g) (auto intro!: follows_Some follows_bind assms(1))

lemma follows_remove_done: "metrics_ok g \<Longrightarrow> follows (remove_done W i j n) (metered_remove_done W i j (set_global g n))"
  unfolding remove_done_def metered_remove_done_def
proof (rule follows_bind)
  assume g: "metrics_ok g"
  have "measured (DeleteJob (O_env W) (Some (eventHandler (O_env W) (O_order W) (O_event W i j))) j n)
      (DeleteJob (O_env W) (Some (metered_eventHandler (O_env W) (O_order W) (O_event W i j))) j (set_global g n))"
    by (rule measured_unmetered [OF unmetered_DeleteJob], rule measured_DeleteJob) (use g in simp)
  with g show "follows (if IsLeader (O_env W) n then map_option snd (DeleteJob (O_env W) (Some (eventHandler (O_env W) (O_order W) (O_event W i j))) j n) else Some n)
      (if IsLeader (O_env W) (set_global g n)
       then map_option snd (DeleteJob (O_env W) (Some (metered_eventHandler (O_env W) (O_order W) (O_event W i j))) j (set_global g n))
       else Some (set_global g n))"
    by (auto intro: follows_snd follows_Some)
qed (rule follows_unmetered [OF unmetered_RemoveJob])

lemma follows_reschedule: "metrics_ok g \<Longrightarrow> follows (reschedule W i job n) (metered_reschedule W i job (set_global g n))"
proof -
  assume g: "metrics_ok g"
  have "measured (CreateJob (O_env W) (Some (eventHandler (O_env W) (O_order W) (O_event W i (Job_ID job)))) job n)
      (CreateJob (O_env W) (Some (metered_eventHandler (O_env W) (O_order W) (O_event W i (Job_ID job)))) job (set_global g n))"
    by (rule measured_unmetered [OF unmetered_CreateJob], rule measured_CreateJob) (use g in simp)
  with g show ?thesis by (auto simp: reschedule_def metered_reschedule_def intro: follows_snd follows_Some)
qed

lemma follows_executeJob:
  assumes "blind_client H" "metrics_ok g"
  shows "follows (Some (executeJob E H t job n)) (metered_executeJob E H t d job (set_global g n))"
proof -
  obtain err n1 where e: "Execute E H t job n = (err, n1)" by (metis prod.exhaust)
  obtain g1 where g1: "adds (failures_of err) g g1" "metered_Execute E H t job (set_global g n) = Some (err, set_global g1 n1)"
    using counts_Execute [OF assms, of E t job n] e by (auto simp: counts_def)
  obtain m where "adds (outcome_of (err = None)) g1 m" "metered_executeJob E H t d job (set_global g n) = Some (set_global m n1)"
    using worker_adds [of g1 "err = None" "job_type_string (Job_Type job)" d n1] adds_ok [OF g1(1)] g1(2)
    by (auto simp: metered_executeJob_def)
  then show ?thesis using adds_ok e by (auto simp: executeJob_def follows_def)
qed

lemma measured_run_jobs:
  assumes "blind_client (O_http W)" "metrics_ok g"
  shows "measured (Some (run_jobs W i now js b n)) (metered_run_jobs W D i now js b (set_global g n))"
  using assms(2)
proof (induction js arbitrary: b n g)
  case Nil
  then show ?case by (auto simp: measured_def)
next
  case (Cons job js)
  let ?n = "if shouldExecuteJob job now then executeJob (O_env W) (O_http W) (O_exec W i (Job_ID job)) job n else n"
  have "follows (Some ?n) (if shouldExecuteJob job now
      then metered_executeJob (O_env W) (O_http W) (O_exec W i (Job_ID job)) (D_run D i (Job_ID job)) job (set_global g n)
      else Some (set_global g n))"
    by (simp add: follows_executeJob [OF assms(1) Cons.prems] follows_Some [OF Cons.prems])
  then obtain g' where "metrics_ok g'" "(if shouldExecuteJob job now
      then metered_executeJob (O_env W) (O_http W) (O_exec W i (Job_ID job)) (D_run D i (Job_ID job)) job (set_global g n)
      else Some (set_global g n)) = Some (set_global g' ?n)"
    by (auto simp: follows_def)
  with Cons.IH [of g' "sort_job (O_cron W) now job b" ?n] show ?case by simp
qed

lemma slot_metrics_ok:
  assumes "metrics_ok g"
  shows "\<exists>g'. metrics_ok g' \<and> slot_metrics slot d (set_global g n) = Some (set_global g' n)"
proof -
  let ?f = "\<lambda>m. IncrementSlotsProcessed (int (length (QS_Jobs slot))) m \<bind> RecordSlotProcessingDuration d"
  have "total_method ?f" by (simp add: total_method_def IncrementSlotsProcessed_def RecordSlotProcessingDuration_def)
  from with_metrics_ok [OF this, of "set_global g n"] assms show ?thesis unfolding slot_metrics_def by simp
qed

text \<open>A step that gives a value, inside a measured operation and before a plain one.\<close>

lemma measured_follows:
  assumes "follows p m" "\<And>n g. p = Some n \<Longrightarrow> metrics_ok g \<Longrightarrow> measured (f n) (k (set_global g n))"
  shows "measured (p \<bind> f) (m \<bind> k)"
proof (cases p)
  case (Some n)
  with assms(1) obtain g where "metrics_ok g" "m = Some (set_global g n)" by (auto simp: follows_def)
  with assms(2) [OF Some] Some show ?thesis by simp
qed (use assms(1) in \<open>simp add: follows_def measured_def\<close>)

lemma follows_measured:
  assumes "measured p m" "\<And>x n g. p = Some (x, n) \<Longrightarrow> metrics_ok g \<Longrightarrow> follows (f (x, n)) (k (x, set_global g n))"
  shows "follows (p \<bind> f) (m \<bind> k)"
proof (cases p)
  case (Some xn)
  obtain x n where xn: "xn = (x, n)" by (cases xn)
  with Some assms(1) obtain g where "metrics_ok g" "m = Some (x, set_global g n)" by (auto simp: measured_def)
  with assms(2) Some xn show ?thesis by simp
qed (use assms(1) in \<open>simp add: follows_def measured_def\<close>)

lemma measured_keep: "metrics_ok g \<Longrightarrow> measured (Some (x, n)) (Some (x, set_global g n))"
  by (auto simp: measured_def)

lemma measured_process_slot:
  assumes "blind_client (O_http W)" "metrics_ok g"
  shows "measured (process_slot W i now slot n) (metered_process_slot W D i now slot (set_global g n))"
proof -
  obtain g1 where g1: "metrics_ok g1" "slot_metrics slot (D_elapsed D i) (set_global g n) = Some (set_global g1 n)"
    using slot_metrics_ok [OF assms(2)] by blast
  have "measured (Some (run_jobs W i now (QS_Jobs slot) empty_batch n) \<bind>
      (\<lambda>(b, n). each (remove_done W i) (jobsToRemove b) n \<bind> (\<lambda>n. each (reschedule W i) (jobsToReschedule b) n \<bind>
         (\<lambda>n. Some (\<not> anyJobExecuted b \<and> hasJobsNotReady b, n)))))
      (metered_run_jobs W D i now (QS_Jobs slot) empty_batch (set_global g1 n) \<bind>
      (\<lambda>(b, n). each (metered_remove_done W i) (jobsToRemove b) n \<bind> (\<lambda>n. each (metered_reschedule W i) (jobsToReschedule b) n \<bind>
         (\<lambda>n. Some (\<not> anyJobExecuted b \<and> hasJobsNotReady b, n)))))"
    by (rule measured_bind [OF measured_run_jobs [OF assms(1) g1(1)]])
      (auto intro!: measured_follows [OF follows_each] follows_remove_done follows_reschedule measured_keep)
  then show ?thesis by (simp add: process_slot_def metered_process_slot_def g1(2) Let_def case_prod_beta)
qed

lemma measured_next_slot:
  "metrics_ok g \<Longrightarrow> measured (GetNextSlot E order t0 now n) (GetNextSlot E order t0 now (set_global g n))"
  by (auto simp: unmetered_GetNextSlot [unfolded unmetered_result_def, rule_format] measured_def split: option.splits)

lemma follows_loop:
  assumes "blind_client (O_http W)" "metrics_ok g"
  shows "follows (process_loop W now k i n) (metered_process_loop W D now k i (set_global g n))"
  using assms(2)
proof (induction k arbitrary: i n g)
  case 0
  then show ?case by (simp add: follows_Some)
next
  case (Suc k)
  have turn: "follows (process_slot W i now slot n \<bind> (\<lambda>(stop, n). if stop then Some n else process_loop W now k (Suc i) n))
      (metered_process_slot W D i now slot (set_global g n) \<bind>
        (\<lambda>(stop, n). if stop then Some n else metered_process_loop W D now k (Suc i) n))" if "metrics_ok g" for g slot n
    by (rule follows_measured [OF measured_process_slot [OF assms(1) that]]) (simp add: follows_Some Suc.IH)
  show ?case unfolding process_loop.simps metered_process_loop.simps
    by (rule follows_measured [OF measured_next_slot [OF Suc.prems]]) (simp add: follows_Some turn split: option.splits)
qed

section \<open>Properties\<close>

text \<open>C40: A tick with all its measurements does what the tick does: it panics only where that one does, and
  otherwise the node is the same but for the metrics, which stay complete.\<close>
theorem tick_is_transparent:
  assumes "metrics_ok (Met_global n)" "blind_client (O_http W)"
  shows "case processSlots W now n of
      None \<Rightarrow> metered_processSlots W D now n = None
    | Some n1 \<Rightarrow> \<exists>m. metrics_ok m \<and> metered_processSlots W D now n = Some (n1\<lparr>Met_global := m\<rparr>)"
  using follows_loop [OF assms(2,1), of now maxSlotsToCheck 0 n D]
  unfolding processSlots_def metered_processSlots_def by (simp add: follows_def)

definition metered_outside :: "(disk, solo, (disk, solo) MeteredNode) outside" where
  "metered_outside = \<lparr>O_env = solo_env, O_http = metered_client, O_cron = (\<lambda>e. None), O_order = sorted_list_of_set,
     O_next = (\<lambda>k. (110, 110)), O_exec = (\<lambda>k i. sample_readings), O_event = (\<lambda>k i. 110)\<rparr>"

lemma tick_is_transparent_witness:
  "case processSlots metered_outside 110 (metered_solo True sample_fsm fresh_metrics) of
      None \<Rightarrow> metered_processSlots metered_outside \<lparr>D_elapsed = (\<lambda>i. 0), D_run = (\<lambda>i j. 5)\<rparr> 110 (metered_solo True sample_fsm fresh_metrics) = None
    | Some n1 \<Rightarrow> \<exists>m. metrics_ok m \<and>
        metered_processSlots metered_outside \<lparr>D_elapsed = (\<lambda>i. 0), D_run = (\<lambda>i j. 5)\<rparr> 110 (metered_solo True sample_fsm fresh_metrics)
          = Some (n1\<lparr>Met_global := m\<rparr>)"
  by (rule tick_is_transparent) (simp_all add: metrics_ok_def metered_outside_def metered_client_blind)

end
