(* ===== verification/Logger.thy ===== *)
theory Logger
  imports Execution_Manager
begin

text \<open>
  The logger of \<open>internal/logger/logger.go\<close> and the webhook helper of \<open>internal/store/webhook.go\<close> that
  reports through it. A line of output is the format and the arguments that \<open>log.Printf\<close> gets.
  The aggregated job counts are written by many goroutines, so besides the calls themselves
  there is a step relation with one step for each atomic action, and an invariant of every
  interleaving.
\<close>

section \<open>Levels\<close>

datatype Level = DEBUG | INFO | WARN | ERROR

fun level_number :: "Level \<Rightarrow> int" where
  "level_number DEBUG = 0"
| "level_number INFO = 1"
| "level_number WARN = 2"
| "level_number ERROR = 3"

instantiation Level :: linorder
begin

definition less_eq_Level :: "Level \<Rightarrow> Level \<Rightarrow> bool" where
  "less_eq_Level a b \<longleftrightarrow> level_number a \<le> level_number b"

definition less_Level :: "Level \<Rightarrow> Level \<Rightarrow> bool" where
  "less_Level a b \<longleftrightarrow> level_number a < level_number b"

instance
proof
  show "x \<le> y \<Longrightarrow> y \<le> x \<Longrightarrow> x = y" for x y :: Level
    by (cases x; cases y) (simp_all add: less_eq_Level_def)
qed (auto simp: less_eq_Level_def less_Level_def)

end

type_synonym log_line = "string \<times> string list"

record Logger =
  L_level :: Level
  L_executed :: int
  L_failed :: int
  L_lastMetrics :: int
  L_output :: "log_line list"

text \<open>\<open>init\<close>: \<open>now\<close> is the clock in nanoseconds.\<close>

definition init_logger :: "(string \<Rightarrow> string) \<Rightarrow> int \<Rightarrow> Logger" where
  "init_logger Getenv now =
     (let l = \<lparr>L_level = INFO, L_executed = 0, L_failed = 0, L_lastMetrics = now, L_output = []\<rparr>;
          level = Getenv ''LOG_LEVEL''
      in if level \<noteq> ''''
         then if level = ''DEBUG'' then l\<lparr>L_level := DEBUG\<rparr>
              else if level = ''INFO'' then l\<lparr>L_level := INFO\<rparr>
              else if level = ''WARN'' then l\<lparr>L_level := WARN\<rparr>
              else if level = ''ERROR'' then l\<lparr>L_level := ERROR\<rparr>
              else l
         else l)"

definition shouldLog :: "Logger \<Rightarrow> Level \<Rightarrow> bool" where
  "shouldLog l level \<longleftrightarrow> level \<ge> L_level l"

definition Printf :: "string \<Rightarrow> string list \<Rightarrow> Logger \<Rightarrow> Logger" where
  "Printf msg args l = l\<lparr>L_output := L_output l @ [(msg, args)]\<rparr>"

definition log_Error :: "string \<Rightarrow> string list \<Rightarrow> Logger \<Rightarrow> Logger" where
  "log_Error msg args l = (if shouldLog l ERROR then Printf (''[ERROR] '' @ msg) args l else l)"

definition log_Warn :: "string \<Rightarrow> string list \<Rightarrow> Logger \<Rightarrow> Logger" where
  "log_Warn msg args l = (if shouldLog l WARN then Printf (''[WARN] '' @ msg) args l else l)"

definition log_Info :: "string \<Rightarrow> string list \<Rightarrow> Logger \<Rightarrow> Logger" where
  "log_Info msg args l = (if shouldLog l INFO then Printf (''[INFO] '' @ msg) args l else l)"

definition log_Debug :: "string \<Rightarrow> string list \<Rightarrow> Logger \<Rightarrow> Logger" where
  "log_Debug msg args l = (if shouldLog l DEBUG then Printf (''[DEBUG] '' @ msg) args l else l)"

definition RaftError :: "string \<Rightarrow> string list \<Rightarrow> Logger \<Rightarrow> Logger" where
  "RaftError msg args = log_Error (''raft: '' @ msg) args"

definition RaftWarn :: "string \<Rightarrow> string list \<Rightarrow> Logger \<Rightarrow> Logger" where
  "RaftWarn msg args = log_Warn (''raft: '' @ msg) args"

definition RaftInfo :: "string \<Rightarrow> string list \<Rightarrow> Logger \<Rightarrow> Logger" where
  "RaftInfo msg args = log_Info (''raft: '' @ msg) args"

definition ClusterError :: "string \<Rightarrow> string list \<Rightarrow> Logger \<Rightarrow> Logger" where
  "ClusterError msg args = log_Error (''cluster: '' @ msg) args"

definition ClusterWarn :: "string \<Rightarrow> string list \<Rightarrow> Logger \<Rightarrow> Logger" where
  "ClusterWarn msg args = log_Warn (''cluster: '' @ msg) args"

definition ClusterInfo :: "string \<Rightarrow> string list \<Rightarrow> Logger \<Rightarrow> Logger" where
  "ClusterInfo msg args = log_Info (''cluster: '' @ msg) args"

definition JobError :: "string \<Rightarrow> string \<Rightarrow> string list \<Rightarrow> Logger \<Rightarrow> Logger" where
  "JobError jobID msg args = log_Error (''job %s: '' @ msg) ([jobID] @ args)"

definition JobWarn :: "string \<Rightarrow> string \<Rightarrow> string list \<Rightarrow> Logger \<Rightarrow> Logger" where
  "JobWarn jobID msg args = log_Warn (''job %s: '' @ msg) ([jobID] @ args)"

section \<open>Aggregated job counts\<close>

text \<open>The two readings of the clock are \<open>t\<close> and \<open>t'\<close>.\<close>

definition logMetricsIfNeeded :: "int \<Rightarrow> int \<Rightarrow> Logger \<Rightarrow> Logger" where
  "logMetricsIfNeeded t t' l =
     (if t - L_lastMetrics l > 5 * Minute
      then let executed = L_executed l;
               l = l\<lparr>L_executed := 0\<rparr>;
               failed = L_failed l;
               l = l\<lparr>L_failed := 0\<rparr>;
               l = (if executed > 0 \<or> failed > 0
                    then log_Info ''job_metrics executed=%d failed=%d'' [Sprintf_d executed, Sprintf_d failed] l else l)
           in l\<lparr>L_lastMetrics := t'\<rparr>
      else l)"

definition JobExecuted :: "int \<Rightarrow> int \<Rightarrow> Logger \<Rightarrow> Logger" where
  "JobExecuted t t' l = logMetricsIfNeeded t t' (l\<lparr>L_executed := add64 (L_executed l) 1\<rparr>)"

definition JobFailed :: "int \<Rightarrow> int \<Rightarrow> Logger \<Rightarrow> Logger" where
  "JobFailed t t' l = logMetricsIfNeeded t t' (l\<lparr>L_failed := add64 (L_failed l) 1\<rparr>)"

section \<open>The webhook helper\<close>

text \<open>
  \<open>Post\<close> is the HTTP client with its timeout, URL, content type and body: an error or the
  status. The goroutine is its requests and its lines. \<open>json.Marshal\<close> does not fail on a
  payload that was decoded from JSON, so its error branch is not reached.
\<close>

record post_request =
  PR_Timeout :: Duration
  PR_URL :: string
  PR_ContentType :: string
  PR_Body :: string

definition helper_body :: "int \<Rightarrow> Job \<Rightarrow> string" where
  "helper_body now job =
     Marshal (JObject ([(''job_id'', JString (Job_ID job)), (''type'', JString (job_type_string (Job_Type job))),
                        (''timestamp'', JNumber (Sprintf_d now))] @
                       (case Job_Payload job of None \<Rightarrow> [] | Some p \<Rightarrow> if p = [] then [] else [(''data'', JObject p)])))"

definition ExecuteWebhook ::
  "(post_request \<Rightarrow> string + int) \<Rightarrow> int \<Rightarrow> Job \<Rightarrow> Logger \<Rightarrow> post_request list \<times> Logger" where
  "ExecuteWebhook Post now job l =
     (if Job_WebhookURL job = '''' then ([], l)
      else let req = \<lparr>PR_Timeout = 30 * Second, PR_URL = Job_WebhookURL job, PR_ContentType = ''application/json'',
                      PR_Body = helper_body now job\<rparr>
      in ([req], case Post req of
            Inl err \<Rightarrow> JobError (Job_ID job) ''webhook request failed: %v'' [err] l
          | Inr code \<Rightarrow> if code \<ge> 400 then JobError (Job_ID job) ''webhook returned status %d'' [Sprintf_d code] l else l))"


section \<open>Interleavings\<close>

text \<open>
  Where a goroutine is inside \<open>JobExecuted\<close> or \<open>JobFailed\<close>: outside, after the atomic addition,
  inside the lock, after the first swap, after both.
\<close>

datatype position = Outside | Counted | Inside | TookExecuted int | TookBoth int int

record logger_state =
  LS_logger :: Logger
  LS_mu :: "nat option"
  LS_at :: "nat \<Rightarrow> position"
  LS_executedCalls :: int
  LS_failedCalls :: int
  LS_reports :: "(int \<times> int) list"

definition start_state :: "Logger \<Rightarrow> logger_state" where
  "start_state l = \<lparr>LS_logger = l, LS_mu = None, LS_at = (\<lambda>g. Outside), LS_executedCalls = 0, LS_failedCalls = 0, LS_reports = []\<rparr>"

definition on_logger :: "(Logger \<Rightarrow> Logger) \<Rightarrow> logger_state \<Rightarrow> logger_state" where
  "on_logger f s = s\<lparr>LS_logger := f (LS_logger s)\<rparr>"

definition move :: "nat \<Rightarrow> position \<Rightarrow> logger_state \<Rightarrow> logger_state" where
  "move g p s = s\<lparr>LS_at := (LS_at s)(g := p)\<rparr>"

text \<open>One step of goroutine \<open>g\<close>; \<open>t\<close> is what it reads from the clock. \<open>LS_reports\<close> are the pairs of a report.\<close>

inductive logger_step :: "logger_state \<Rightarrow> logger_state \<Rightarrow> bool" where
  count_executed: "LS_at s g = Outside \<Longrightarrow>
    logger_step s (move g Counted (on_logger (\<lambda>l. l\<lparr>L_executed := add64 (L_executed l) 1\<rparr>) s)
      \<lparr>LS_executedCalls := LS_executedCalls s + 1\<rparr>)"
| count_failed: "LS_at s g = Outside \<Longrightarrow>
    logger_step s (move g Counted (on_logger (\<lambda>l. l\<lparr>L_failed := add64 (L_failed l) 1\<rparr>) s)
      \<lparr>LS_failedCalls := LS_failedCalls s + 1\<rparr>)"
| lock: "LS_at s g = Counted \<Longrightarrow> LS_mu s = None \<Longrightarrow> logger_step s (move g Inside s\<lparr>LS_mu := Some g\<rparr>)"
| too_early: "LS_at s g = Inside \<Longrightarrow> \<not> t - L_lastMetrics (LS_logger s) > 5 * Minute \<Longrightarrow>
    logger_step s (move g Outside s\<lparr>LS_mu := None\<rparr>)"
| take_executed: "LS_at s g = Inside \<Longrightarrow> t - L_lastMetrics (LS_logger s) > 5 * Minute \<Longrightarrow>
    logger_step s (move g (TookExecuted (L_executed (LS_logger s))) (on_logger (\<lambda>l. l\<lparr>L_executed := 0\<rparr>) s))"
| take_failed: "LS_at s g = TookExecuted executed \<Longrightarrow>
    logger_step s (move g (TookBoth executed (L_failed (LS_logger s))) (on_logger (\<lambda>l. l\<lparr>L_failed := 0\<rparr>) s))"
| report: "LS_at s g = TookBoth executed failed \<Longrightarrow>
    logger_step s (move g Outside (on_logger (\<lambda>l. (if executed > 0 \<or> failed > 0
        then log_Info ''job_metrics executed=%d failed=%d'' [Sprintf_d executed, Sprintf_d failed] l else l)
        \<lparr>L_lastMetrics := t\<rparr>) s)
      \<lparr>LS_mu := None, LS_reports := (if executed > 0 \<or> failed > 0 then LS_reports s @ [(executed, failed)] else LS_reports s)\<rparr>)"

text \<open>What a goroutine has taken and not reported yet.\<close>

fun taken_executed :: "position \<Rightarrow> int" where
  "taken_executed (TookExecuted e) = e"
| "taken_executed (TookBoth e f) = e"
| "taken_executed p = 0"

fun taken_failed :: "position \<Rightarrow> int" where
  "taken_failed (TookBoth e f) = f"
| "taken_failed p = 0"

definition in_lock :: "position \<Rightarrow> bool" where
  "in_lock p \<longleftrightarrow> p \<noteq> Outside \<and> p \<noteq> Counted"

definition pending :: "(position \<Rightarrow> int) \<Rightarrow> logger_state \<Rightarrow> int" where
  "pending taken s = (case LS_mu s of None \<Rightarrow> 0 | Some g \<Rightarrow> taken (LS_at s g))"

text \<open>The lock is held by the only goroutine inside, and every call is in one place.\<close>

definition counts_ok :: "logger_state \<Rightarrow> bool" where
  "counts_ok s \<longleftrightarrow> (\<forall>g. in_lock (LS_at s g) \<longleftrightarrow> LS_mu s = Some g) \<and>
     0 \<le> L_executed (LS_logger s) \<and> 0 \<le> pending taken_executed s \<and>
     L_executed (LS_logger s) + pending taken_executed s + sum_list (map fst (LS_reports s)) = LS_executedCalls s \<and>
     0 \<le> L_failed (LS_logger s) \<and> 0 \<le> pending taken_failed s \<and>
     L_failed (LS_logger s) + pending taken_failed s + sum_list (map snd (LS_reports s)) = LS_failedCalls s \<and>
     (\<forall>r \<in> set (LS_reports s). 0 \<le> fst r \<and> 0 \<le> snd r)"

definition in_range :: "logger_state \<Rightarrow> bool" where
  "in_range s \<longleftrightarrow> in64 (LS_executedCalls s) \<and> in64 (LS_failedCalls s)"

lemma log_counts [simp]:
  "L_executed (log_Info m as l) = L_executed l" "L_failed (log_Info m as l) = L_failed l"
  "L_lastMetrics (log_Info m as l) = L_lastMetrics l" "L_level (log_Info m as l) = L_level l"
  by (simp_all add: log_Info_def Printf_def)

lemma calls_grow: "logger_step s s' \<Longrightarrow> LS_executedCalls s \<le> LS_executedCalls s' \<and> LS_failedCalls s \<le> LS_failedCalls s'"
  by (induction rule: logger_step.induct) (simp_all add: move_def on_logger_def)

lemma sum_nonneg: "(\<forall>r \<in> set rs. 0 \<le> fst r \<and> 0 \<le> snd r) \<Longrightarrow> 0 \<le> sum_list (map fst rs) \<and> 0 \<le> (sum_list (map snd rs) :: int)" for rs :: "(int \<times> int) list"
  by (induction rs) auto

lemma counts_bound:
  assumes "counts_ok s"
  shows "0 \<le> L_executed (LS_logger s)" "L_executed (LS_logger s) \<le> LS_executedCalls s"
    "0 \<le> L_failed (LS_logger s)" "L_failed (LS_logger s) \<le> LS_failedCalls s"
  using assms sum_nonneg [of "LS_reports s"] by (auto simp: counts_ok_def)


lemma in_lock_simps [simp]:
  "\<not> in_lock Outside" "\<not> in_lock Counted" "in_lock Inside" "in_lock (TookExecuted e)" "in_lock (TookBoth e f)"
  by (simp_all add: in_lock_def)


lemma add64_count: "0 \<le> x \<Longrightarrow> x \<le> c \<Longrightarrow> in64 (c + 1) \<Longrightarrow> add64 x 1 = x + 1"
  by (rule add64_id) (simp add: in64_def)

lemma counts_step:
  assumes "counts_ok s" "logger_step s s'" "in_range s'"
  shows "counts_ok s'"
  using assms(2,1,3)
proof (induction rule: logger_step.induct)
  case (count_executed s g)
  note b = counts_bound [OF count_executed(2)]
  from count_executed(3) have "in64 (LS_executedCalls s + 1)" by (simp add: in_range_def move_def on_logger_def)
  with b have "add64 (L_executed (LS_logger s)) 1 = L_executed (LS_logger s) + 1" by (intro add64_count)
  moreover have "LS_mu s \<noteq> Some g" using count_executed(1,2) by (metis counts_ok_def in_lock_simps(1))
  ultimately show ?case using count_executed(1,2) by (auto simp: counts_ok_def pending_def move_def on_logger_def split: option.splits)
next
  case (count_failed s g)
  note b = counts_bound [OF count_failed(2)]
  from count_failed(3) have "in64 (LS_failedCalls s + 1)" by (simp add: in_range_def move_def on_logger_def)
  with b have "add64 (L_failed (LS_logger s)) 1 = L_failed (LS_logger s) + 1" by (intro add64_count)
  moreover have "LS_mu s \<noteq> Some g" using count_failed(1,2) by (metis counts_ok_def in_lock_simps(1))
  ultimately show ?case using count_failed(1,2) by (auto simp: counts_ok_def pending_def move_def on_logger_def split: option.splits)
next
  case (lock s g)
  then show ?case by (auto simp: counts_ok_def pending_def move_def)
next
  case (too_early s g t)
  then have "LS_mu s = Some g" by (metis counts_ok_def in_lock_simps(3))
  with too_early show ?case by (auto simp: counts_ok_def pending_def move_def)
next
  case (take_executed s g t)
  then have "LS_mu s = Some g" by (metis counts_ok_def in_lock_simps(3))
  with take_executed show ?case by (auto simp: counts_ok_def pending_def move_def on_logger_def)
next
  case (take_failed s g executed)
  then have "LS_mu s = Some g" by (metis counts_ok_def in_lock_simps(4))
  with take_failed show ?case by (auto simp: counts_ok_def pending_def move_def on_logger_def)
next
  case (report s g executed failed t)
  then have m: "LS_mu s = Some g" by (metis counts_ok_def in_lock_simps(5))
  show ?case
  proof (cases "executed > 0 \<or> failed > 0")
    case True
    with report m show ?thesis by (auto simp: counts_ok_def pending_def move_def on_logger_def)
  next
    case False
    with report m have "executed = 0" "failed = 0" by (auto simp: counts_ok_def pending_def)
    with report m False show ?thesis by (auto simp: counts_ok_def pending_def move_def on_logger_def)
  qed
qed

lemma calls_lower: "logger_step\<^sup>*\<^sup>* (start_state l) s \<Longrightarrow> 0 \<le> LS_executedCalls s \<and> 0 \<le> LS_failedCalls s"
  by (induction rule: rtranclp_induct) (auto simp: start_state_def dest: calls_grow)

lemma reachable_counts:
  assumes "logger_step\<^sup>*\<^sup>* (start_state l) s" "L_executed l = 0" "L_failed l = 0"
  shows "in_range s \<Longrightarrow> counts_ok s"
  using assms(1)
proof (induction rule: rtranclp_induct)
  case base
  show ?case using assms(2,3) by (simp add: counts_ok_def start_state_def pending_def)
next
  case (step s s')
  note g = calls_grow [OF step(2)]
  with calls_lower [OF step(1)] step(4) have "in_range s" by (auto simp: in_range_def in64_def)
  with step(3) show ?case using counts_step [OF _ step(2,4)] by blast
qed


text \<open>What is printed are the reports, unless the level hides them.\<close>

definition report_line :: "int \<times> int \<Rightarrow> log_line" where
  "report_line r = (''[INFO] job_metrics executed=%d failed=%d'', [Sprintf_d (fst r), Sprintf_d (snd r)])"

lemma reachable_output:
  "logger_step\<^sup>*\<^sup>* (start_state l) s \<Longrightarrow> L_level (LS_logger s) = L_level l \<and>
     L_output (LS_logger s) = L_output l @ (if L_level l \<le> INFO then map report_line (LS_reports s) else [])"
proof (induction rule: rtranclp_induct)
  case (step s s')
  from step(2,3) show ?case
    by (induction rule: logger_step.induct)
      (auto simp: move_def on_logger_def log_Info_def Printf_def shouldLog_def report_line_def)
qed (simp add: start_state_def)

text \<open>A call that nobody interferes with is a run of the steps of one goroutine.\<close>

lemma critical_section_runs:
  assumes "LS_at s g = Inside"
  shows "\<exists>s'. logger_step\<^sup>*\<^sup>* s s' \<and> LS_logger s' = logMetricsIfNeeded t t' (LS_logger s) \<and>
     LS_at s' = (LS_at s)(g := Outside) \<and> LS_mu s' = None \<and>
     LS_executedCalls s' = LS_executedCalls s \<and> LS_failedCalls s' = LS_failedCalls s"
proof (cases "t - L_lastMetrics (LS_logger s) > 5 * Minute")
  case False
  from too_early [OF assms this] show ?thesis
    by (intro exI [of _ "move g Outside s\<lparr>LS_mu := None\<rparr>"]) (use False in \<open>auto simp: move_def logMetricsIfNeeded_def\<close>)
next
  case True
  define e f where ef: "e = L_executed (LS_logger s)" "f = L_failed (LS_logger s)"
  obtain s1 where s1: "logger_step s s1" "LS_at s1 = (LS_at s)(g := TookExecuted e)" "LS_logger s1 = (LS_logger s)\<lparr>L_executed := 0\<rparr>"
      "LS_executedCalls s1 = LS_executedCalls s" "LS_failedCalls s1 = LS_failedCalls s"
    using take_executed [OF assms True] by (force simp: move_def on_logger_def ef)
  then have a1: "LS_at s1 g = TookExecuted e" by simp
  obtain s2 where s2: "logger_step s1 s2" "LS_at s2 = (LS_at s)(g := TookBoth e f)"
      "LS_logger s2 = (LS_logger s)\<lparr>L_executed := 0, L_failed := 0\<rparr>"
      "LS_executedCalls s2 = LS_executedCalls s1" "LS_failedCalls s2 = LS_failedCalls s1"
    using take_failed [OF a1] s1(2,3) by (force simp: move_def on_logger_def ef)
  then have a2: "LS_at s2 g = TookBoth e f" by simp
  obtain s3 where s3: "logger_step s2 s3" "LS_at s3 = (LS_at s)(g := Outside)" "LS_mu s3 = None"
      "LS_logger s3 = (if e > 0 \<or> f > 0
        then log_Info ''job_metrics executed=%d failed=%d'' [Sprintf_d e, Sprintf_d f] (LS_logger s2) else LS_logger s2)
        \<lparr>L_lastMetrics := t'\<rparr>"
      "LS_executedCalls s3 = LS_executedCalls s2" "LS_failedCalls s3 = LS_failedCalls s2"
    using report [OF a2, of t'] s2(2) by (force simp: move_def on_logger_def)
  have "logger_step\<^sup>*\<^sup>* s s3" using s1(1) s2(1) s3(1) by (meson r_into_rtranclp rtranclp.rtrancl_into_rtrancl)
  moreover have "LS_logger s3 = logMetricsIfNeeded t t' (LS_logger s)"
    using True s3(4) s2(3) by (simp add: logMetricsIfNeeded_def ef Let_def)
  ultimately show ?thesis using s3(2,3,5,6) s2(4,5) s1(4,5) by (metis (no_types))
qed

lemma JobExecuted_runs:
  assumes "LS_at s g = Outside" "LS_mu s = None"
  shows "\<exists>s'. logger_step\<^sup>*\<^sup>* s s' \<and> LS_logger s' = JobExecuted t t' (LS_logger s) \<and> LS_at s' = LS_at s \<and> LS_mu s' = None \<and>
     LS_executedCalls s' = LS_executedCalls s + 1 \<and> LS_failedCalls s' = LS_failedCalls s"
proof -
  obtain s1 where s1: "logger_step s s1" "LS_at s1 = (LS_at s)(g := Counted)" "LS_mu s1 = None"
      "LS_logger s1 = (LS_logger s)\<lparr>L_executed := add64 (L_executed (LS_logger s)) 1\<rparr>"
      "LS_executedCalls s1 = LS_executedCalls s + 1" "LS_failedCalls s1 = LS_failedCalls s"
    using count_executed [OF assms(1)] assms(2) by (force simp: move_def on_logger_def)
  then have a1: "LS_at s1 g = Counted" by simp
  obtain s2 where s2: "logger_step s1 s2" "LS_at s2 = (LS_at s)(g := Inside)" "LS_logger s2 = LS_logger s1"
      "LS_executedCalls s2 = LS_executedCalls s1" "LS_failedCalls s2 = LS_failedCalls s1"
    using lock [OF a1 s1(3)] s1(2) by (force simp: move_def)
  then have a2: "LS_at s2 g = Inside" by simp
  obtain s3 where "logger_step\<^sup>*\<^sup>* s2 s3" "LS_logger s3 = logMetricsIfNeeded t t' (LS_logger s2)"
      "LS_at s3 = (LS_at s2)(g := Outside)" "LS_mu s3 = None"
      "LS_executedCalls s3 = LS_executedCalls s2" "LS_failedCalls s3 = LS_failedCalls s2"
    using critical_section_runs [OF a2] by blast
  with s1 s2 assms(1) show ?thesis
    by (intro exI [of _ s3]) (auto simp: JobExecuted_def intro: converse_rtranclp_into_rtranclp)
qed

section \<open>Properties\<close>

text \<open>C35: No count is lost or reported twice, whatever the goroutines do in whatever order: the jobs that were
  counted are those still in the counter, those taken by the one goroutine that holds the lock, and those in the
  reports, and what is printed are exactly the reports (nothing when the level is above INFO).\<close>
theorem no_count_is_lost:
  assumes "logger_step\<^sup>*\<^sup>* (start_state (init_logger Getenv now)) s" "in_range s"
  shows "L_executed (LS_logger s) + pending taken_executed s + sum_list (map fst (LS_reports s)) = LS_executedCalls s \<and>
     L_failed (LS_logger s) + pending taken_failed s + sum_list (map snd (LS_reports s)) = LS_failedCalls s \<and>
     (in_lock (LS_at s g) \<and> in_lock (LS_at s g') \<longrightarrow> g = g') \<and>
     L_output (LS_logger s) = (if L_level (init_logger Getenv now) \<le> INFO then map report_line (LS_reports s) else [])"
proof -
  have "L_executed (init_logger Getenv now) = 0" "L_failed (init_logger Getenv now) = 0" "L_output (init_logger Getenv now) = []"
    by (simp_all add: init_logger_def Let_def)
  with reachable_counts [OF assms(1)] reachable_output [OF assms(1)] assms(2) show ?thesis by (auto simp: counts_ok_def)
qed


lemma no_count_is_lost_witness:
  "\<exists>s. logger_step\<^sup>*\<^sup>* (start_state (init_logger (\<lambda>key. '''') 0)) s \<and> LS_executedCalls s = 1 \<and>
     sum_list (map fst (LS_reports s)) = 1 \<and> map report_line (LS_reports s) = [(''[INFO] job_metrics executed=%d failed=%d'', [''1'', ''0''])]"
proof -
  let ?l = "init_logger (\<lambda>key. '''') 0"
  obtain s where s: "logger_step\<^sup>*\<^sup>* (start_state ?l) s" "LS_logger s = JobExecuted (6 * Minute) 0 ?l" "LS_mu s = None"
      "LS_executedCalls s = 1" "LS_failedCalls s = 0"
    using JobExecuted_runs [of "start_state ?l" 0 "6 * Minute" 0] by (auto simp: start_state_def)
  have d: "Sprintf_d 1 = ''1''" "Sprintf_d 0 = ''0''" by code_simp+
  have j: "L_executed (LS_logger s) = 0" "L_level ?l = INFO"
      "L_output (LS_logger s) = [(''[INFO] job_metrics executed=%d failed=%d'', [''1'', ''0''])]"
    by (simp_all add: s(2) JobExecuted_def logMetricsIfNeeded_def init_logger_def Minute_def Second_def Let_def log_Info_def
        shouldLog_def Printf_def d add64_def)
  have "in_range s" using s(4,5) by (simp add: in_range_def)
  from no_count_is_lost [OF s(1) this] s j show ?thesis by (auto simp: pending_def)
qed

text \<open>The worker counts successes only: nothing in the program calls \<open>JobFailed\<close>, so the reports of such runs say 0.\<close>

inductive success_step :: "logger_state \<Rightarrow> logger_state \<Rightarrow> bool" where
  "logger_step s s' \<Longrightarrow> LS_failedCalls s' = LS_failedCalls s \<Longrightarrow> success_step s s'"

lemma worker_never_reports_failures:
  assumes "success_step\<^sup>*\<^sup>* (start_state (init_logger Getenv now)) s" "in_range s" "r \<in> set (LS_reports s)"
  shows "snd r = 0"
proof -
  have run: "logger_step\<^sup>*\<^sup>* (start_state (init_logger Getenv now)) s \<and> LS_failedCalls s = 0"
    using assms(1) by (induction rule: rtranclp_induct)
      (auto simp: start_state_def elim!: success_step.cases intro: rtranclp.rtrancl_into_rtrancl)
  have "L_executed (init_logger Getenv now) = 0" "L_failed (init_logger Getenv now) = 0" by (simp_all add: init_logger_def Let_def)
  with reachable_counts [of "init_logger Getenv now" s] run assms(2) have c: "counts_ok s" by blast
  then have "sum_list (map snd (LS_reports s)) \<le> 0" "\<forall>x \<in> set (map snd (LS_reports s)). 0 \<le> x"
    using run by (auto simp: counts_ok_def)
  then show ?thesis using assms(3) member_le_sum_list [of "snd r" "map snd (LS_reports s)"] by force
qed

end
