(* ===== verification/Browser.thy ===== *)
theory Browser
  imports Simulator
begin

text \<open>
  The bindings of \<open>cmd/wasm/main.go\<close> through which a page drives the simulator: the arguments that
  JavaScript passes, the result objects, every exported function, and \<open>main\<close>. \<open>None\<close> is a panic,
  which stops the module: \<open>Value.Float\<close> panics on a value that is no number. A result
  holds the value that the code marshals, before \<open>encoding/json\<close> writes it.
\<close>

section \<open>Values\<close>

text \<open>A JavaScript value; for a value that is neither a string nor a number, the text that \<open>String\<close> gives.\<close>

datatype js_value = JSString string | JSNumber rat | JSOther string

definition js_String :: "(rat \<Rightarrow> string) \<Rightarrow> js_value \<Rightarrow> string" where
  "js_String show_number v = (case v of JSString s \<Rightarrow> s | JSNumber x \<Rightarrow> show_number x | JSOther s \<Rightarrow> s)"

definition js_Float :: "js_value \<Rightarrow> rat option" where
  "js_Float v = (case v of JSNumber x \<Rightarrow> Some x | _ \<Rightarrow> None)"

datatype js_data = DNull | DJob Job | DTick TickResult | DNow int | DState SimState

datatype js_result = SuccessResult js_data | ErrorResult string | StateText SimState | NumberResult rat

definition successResult :: "js_data \<Rightarrow> js_result" where
  "successResult data = SuccessResult data"

definition errorResult :: "string \<Rightarrow> js_result" where
  "errorResult msg = ErrorResult msg"

text \<open>
  What a call gets from outside: the decoder of the request, the texts of errors and numbers,
  the parsers, the random draws, a fresh UUID and the wall clock in seconds.
\<close>

record 'c browser =
  Br_cold :: "'c ColdSlotStore"
  Br_order :: "int key_order"
  Br_Unmarshal :: "string \<Rightarrow> string + CreateJobRequest"
  Br_text :: "sim_error \<Rightarrow> string"
  Br_number :: "rat \<Rightarrow> string"
  Br_time :: time_parser
  Br_cron :: cron_parser
  Br_draw :: "nat \<Rightarrow> int \<times> rat"
  Br_uuid :: string
  Br_now :: int

section \<open>Bindings\<close>

definition js_createJob :: "'c browser \<Rightarrow> js_value list \<Rightarrow> 'c Simulator \<Rightarrow> (js_result \<times> 'c Simulator) option" where
  "js_createJob B args sim =
     (case args of
        [] \<Rightarrow> Some (errorResult ''expected JSON string argument'', sim)
      | arg # _ \<Rightarrow>
          (case Br_Unmarshal B (js_String (Br_number B) arg) of
             Inl err \<Rightarrow> Some (errorResult (''invalid JSON: '' @ err), sim)
           | Inr req \<Rightarrow> do {
               (job, sim) \<leftarrow> Sim_CreateJob (Br_cold B) (Br_time B) (Br_now B) (Br_uuid B) req sim;
               Some (case job of Inl err \<Rightarrow> errorResult (Br_text B err) | Inr job \<Rightarrow> successResult (DJob job), sim)
             }))"

definition js_deleteJob :: "'c browser \<Rightarrow> js_value list \<Rightarrow> 'c Simulator \<Rightarrow> (js_result \<times> 'c Simulator) option" where
  "js_deleteJob B args sim =
     (case args of
        [] \<Rightarrow> Some (errorResult ''expected job ID argument'', sim)
      | arg # _ \<Rightarrow>
          (case Sim_DeleteJob (Br_cold B) (js_String (Br_number B) arg) sim of
             (Some err, sim) \<Rightarrow> Some (errorResult (Br_text B err), sim)
           | (None, sim) \<Rightarrow> Some (successResult DNull, sim)))"

definition js_tick :: "'c browser \<Rightarrow> js_value list \<Rightarrow> 'c Simulator \<Rightarrow> (js_result \<times> 'c Simulator) option" where
  "js_tick B args sim = do {
     (result, sim) \<leftarrow> Sim_Tick (Br_cold B) (Br_order B) (Br_cron B) (Br_draw B) sim;
     Some (successResult (DTick result), sim)
   }"

definition js_advanceTime :: "'c browser \<Rightarrow> js_value list \<Rightarrow> 'c Simulator \<Rightarrow> (js_result \<times> 'c Simulator) option" where
  "js_advanceTime B args sim =
     (case args of
        [] \<Rightarrow> Some (errorResult ''expected seconds argument'', sim)
      | arg # _ \<Rightarrow> do {
          seconds \<leftarrow> js_Float arg;
          let (now, sim) = AdvanceTime seconds sim;
          Some (successResult (DNow now), sim)
        })"

definition js_getState :: "'c browser \<Rightarrow> js_value list \<Rightarrow> 'c Simulator \<Rightarrow> (js_result \<times> 'c Simulator) option" where
  "js_getState B args sim = Some (successResult (DState (GetState sim)), sim)"

definition js_getStateJSON :: "'c browser \<Rightarrow> js_value list \<Rightarrow> 'c Simulator \<Rightarrow> (js_result \<times> 'c Simulator) option" where
  "js_getStateJSON B args sim = Some (StateText (GetState sim), sim)"

definition js_setClockSpeed :: "'c browser \<Rightarrow> js_value list \<Rightarrow> 'c Simulator \<Rightarrow> (js_result \<times> 'c Simulator) option" where
  "js_setClockSpeed B args sim =
     (case args of
        [] \<Rightarrow> Some (errorResult ''expected speed argument'', sim)
      | arg # _ \<Rightarrow> do { speed \<leftarrow> js_Float arg; Some (successResult DNull, SetClockSpeed speed sim) })"

definition js_getClockSpeed :: "'c browser \<Rightarrow> js_value list \<Rightarrow> 'c Simulator \<Rightarrow> (js_result \<times> 'c Simulator) option" where
  "js_getClockSpeed B args sim = Some (NumberResult (CL_speed (SM_clock sim)), sim)"

definition js_setSuccessRate :: "'c browser \<Rightarrow> js_value list \<Rightarrow> 'c Simulator \<Rightarrow> (js_result \<times> 'c Simulator) option" where
  "js_setSuccessRate B args sim =
     (case args of
        [] \<Rightarrow> Some (errorResult ''expected rate argument'', sim)
      | arg # _ \<Rightarrow> do { rate \<leftarrow> js_Float arg; Some (successResult DNull, Sim_SetSuccessRate rate sim) })"

text \<open>\<open>int64\<close> of a float outside the range is left to the implementation; here it wraps.\<close>

definition js_setTime :: "'c browser \<Rightarrow> js_value list \<Rightarrow> 'c Simulator \<Rightarrow> (js_result \<times> 'c Simulator) option" where
  "js_setTime B args sim =
     (case args of
        [] \<Rightarrow> Some (errorResult ''expected timestamp argument'', sim)
      | arg # _ \<Rightarrow> do { t \<leftarrow> js_Float arg; Some (successResult DNull, Sim_SetTime (i64 (truncate_rat t)) sim) })"

definition js_getNow :: "'c browser \<Rightarrow> js_value list \<Rightarrow> 'c Simulator \<Rightarrow> (js_result \<times> 'c Simulator) option" where
  "js_getNow B args sim = Some (NumberResult (of_int (CL_now (SM_clock sim))), sim)"

definition js_reset :: "'c browser \<Rightarrow> js_value list \<Rightarrow> 'c Simulator \<Rightarrow> (js_result \<times> 'c Simulator) option" where
  "js_reset B args sim = do { sim \<leftarrow> Sim_Reset (Br_now B) sim; Some (successResult DNull, sim) }"

text \<open>The object that \<open>main\<close> exports, by name.\<close>

definition exports :: "(string \<times> ('c browser \<Rightarrow> js_value list \<Rightarrow> 'c Simulator \<Rightarrow> (js_result \<times> 'c Simulator) option)) list" where
  "exports =
     [(''createJob'', js_createJob), (''deleteJob'', js_deleteJob), (''tick'', js_tick), (''advanceTime'', js_advanceTime),
      (''getState'', js_getState), (''getStateJSON'', js_getStateJSON), (''setClockSpeed'', js_setClockSpeed),
      (''getClockSpeed'', js_getClockSpeed), (''setSuccessRate'', js_setSuccessRate), (''setTime'', js_setTime),
      (''getNow'', js_getNow), (''reset'', js_reset)]"

definition wasm_config :: SimConfig where
  "wasm_config = DefaultConfig\<lparr>SimCfg_SlotGap := 10 * Second, SimCfg_SuccessRate := 95 / 100, SimCfg_LatencyMs := 100\<rparr>"

definition wasm_main :: "int \<Rightarrow> 'c Simulator option" where
  "wasm_main now = NewSimulator now wasm_config"


section \<open>Pages\<close>

definition clocks_ok :: "'c browser \<Rightarrow> 'c Simulator \<Rightarrow> bool" where
  "clocks_ok B sim \<longleftrightarrow> 0 \<le> CL_now (SM_clock sim) \<and> CL_now (SM_clock sim) < time_bound \<and> 0 \<le> Br_now B \<and> Br_now B < time_bound"

text \<open>A number where the function reads one.\<close>

definition arguments_ok :: "string \<Rightarrow> js_value list \<Rightarrow> bool" where
  "arguments_ok name args \<longleftrightarrow>
     (if name \<in> {''advanceTime'', ''setClockSpeed'', ''setSuccessRate'', ''setTime''}
      then case args of [] \<Rightarrow> True | arg # _ \<Rightarrow> js_Float arg \<noteq> None else True)"

text \<open>A page loads the module and calls exported functions, in any order and with any arguments.\<close>

inductive page_reaches :: "'c ColdSlotStore \<Rightarrow> int key_order \<Rightarrow> 'c Simulator \<Rightarrow> bool"
  for C :: "'c ColdSlotStore" and order :: "int key_order" where
  load: "0 \<le> now \<Longrightarrow> now < time_bound \<Longrightarrow> wasm_main now = Some sim \<Longrightarrow> page_reaches C order sim"
| call: "page_reaches C order sim \<Longrightarrow> Br_cold B = C \<Longrightarrow> Br_order B = order \<Longrightarrow> clocks_ok B sim \<Longrightarrow>
    (name, f) \<in> set exports \<Longrightarrow> f B args sim = Some (r, sim') \<Longrightarrow> page_reaches C order sim'"

lemmas binding_defs = js_createJob_def js_deleteJob_def js_tick_def js_advanceTime_def js_getState_def js_getStateJSON_def
  js_setClockSpeed_def js_getClockSpeed_def js_setSuccessRate_def js_setTime_def js_getNow_def js_reset_def

definition sim_ok :: "'c Simulator \<Rightarrow> bool" where
  "sim_ok s \<longleftrightarrow> idle s \<and> SM_slotGap s = 10 * Second"

lemma wasm_main_ok:
  assumes "0 \<le> now" "now < time_bound"
  shows "\<exists>sim. wasm_main now = Some sim" "wasm_main now = Some sim \<Longrightarrow> sim_ok sim"
  using idle_new(2) [of wasm_config 10 now sim] idle_new(1) [of wasm_config 10 now] assms
  by (auto simp: wasm_main_def sim_ok_def wasm_config_def DefaultConfig_def)

lemma create_returns:
  assumes "sim_ok s"
  shows "\<exists>r s'. Sim_CreateJob C tp now uuid req s = Some (r, s') \<and> sim_ok s' \<and> (\<forall>err. r = Inl err \<longrightarrow> s' = s)"
proof (cases "ToJob tp now uuid req")
  case (Inl err)
  then show ?thesis using assms by (simp add: Sim_CreateJob_def)
next
  case (Inr job)
  let ?s = "apply_sim C (zero_Command\<lparr>Cmd_Type := CommandCreateJob, Cmd_Job := Some job\<rparr>) s"
  have g: "SM_slotGap ?s = 10 * Second" using assms by (simp add: sim_ok_def apply_sim_def)
  have "\<exists>s'. file_in_slot C job ?s = Some s' \<and> SM_slotGap s' = 10 * Second"
    using g by (auto simp: file_in_slot_def gap_seconds_def div64_def Let_def split: option.splits)
  then obtain s' where s': "file_in_slot C job ?s = Some s'" "SM_slotGap s' = 10 * Second" by blast
  with file_keeps_wheel [OF s'(1)] assms have "sim_ok s'" by (simp add: sim_ok_def idle_def)
  with s' Inr show ?thesis
    by (simp add: Sim_CreateJob_def Sim_addToWheel_def ApplyCommand_def applyCommandInternal_def applyCreateJob_def Let_def)
qed

lemma delete_ok:
  "sim_ok s \<Longrightarrow> sim_ok (snd (Sim_DeleteJob C i s))" "fst (Sim_DeleteJob C i s) = Some err \<Longrightarrow> snd (Sim_DeleteJob C i s) = s"
  by (auto simp: Sim_DeleteJob_def sim_ok_def idle_def apply_sim_def ApplyCommand_def applyCommandInternal_def applyDeleteJob_def Let_def
      split: if_splits)

lemma reset_ok:
  assumes "sim_ok s" "0 \<le> now" "now < time_bound"
  shows "\<exists>s'. Sim_Reset now s = Some s' \<and> sim_ok s'"
proof -
  note R = wheel_Reset_ok [of "SM_wheel s"]
  have good: "wheel_good (SM_wheel s)" using assms(1) by (simp add: sim_ok_def idle_def)
  obtain w where "wheel_Init now (wheel_Reset (SM_wheel s)) = Some w" "wheel_good w" "held w = {}"
    using wheel.init_law [OF R(1) [OF good] assms(2,3)] R(2) [OF good] by auto
  with assms(1) show ?thesis by (simp add: Sim_Reset_def sim_ok_def idle_def)
qed

lemma tick_ok:
  assumes "sim_ok s" "range_order order" "0 \<le> CL_now (SM_clock s)" "CL_now (SM_clock s) < time_bound"
  shows "\<exists>s'. Sim_Tick C order cron draw s = Some (\<lparr>TR_ExecutedJobs = [], TR_Rescheduled = [], TR_ReadySlots = 0\<rparr>, s') \<and> sim_ok s'"
proof -
  have "idle s" using assms(1) by (simp add: sim_ok_def)
  then obtain ready w where w: "wheel_Advance order (CL_now (SM_clock s)) (SM_wheel s) = Some (ready, w)" "wheel_good w"
      "held (SM_wheel s) = held w \<union> set ready" "held (SM_wheel s) = {}"
    using slot_index.advance_law [OF wheel_slot_index [OF assms(2)]] assms(3,4) unfolding idle_def by blast
  then have "ready = []" "held w = {}" by auto
  then show ?thesis using w assms(1) by (auto simp: Sim_Tick_def ProcessTick_def sim_ok_def idle_def Let_def)
qed

text \<open>One call on a good simulator: it returns, an error changes nothing, and a tick runs nothing.\<close>

definition answers :: "string \<Rightarrow> 'c Simulator \<Rightarrow> (js_result \<times> 'c Simulator) option \<Rightarrow> bool" where
  "answers name sim p \<longleftrightarrow> (\<exists>r sim'. p = Some (r, sim') \<and> sim_ok sim' \<and> (\<forall>msg. r = ErrorResult msg \<longrightarrow> sim' = sim) \<and>
     (name = ''tick'' \<longrightarrow> r = SuccessResult (DTick \<lparr>TR_ExecutedJobs = [], TR_Rescheduled = [], TR_ReadySlots = 0\<rparr>)))"

lemma create_answers: "sim_ok sim \<Longrightarrow> answers ''createJob'' sim (js_createJob B args sim)"
proof (cases args)
  case (Cons arg rest)
  assume ok: "sim_ok sim"
  show ?thesis
  proof (cases "Br_Unmarshal B (js_String (Br_number B) arg)")
    case (Inl err)
    with Cons ok show ?thesis by (simp add: answers_def js_createJob_def errorResult_def)
  next
    case (Inr req)
    obtain r s' where "Sim_CreateJob (Br_cold B) (Br_time B) (Br_now B) (Br_uuid B) req sim = Some (r, s')" "sim_ok s'"
        "\<forall>err. r = Inl err \<longrightarrow> s' = sim" using create_returns [OF ok] by blast
    with Cons Inr show ?thesis
      by (cases r) (simp_all add: answers_def js_createJob_def errorResult_def successResult_def)
  qed
qed (simp add: answers_def js_createJob_def errorResult_def)

lemma delete_answers: "sim_ok sim \<Longrightarrow> answers ''deleteJob'' sim (js_deleteJob B args sim)"
  using delete_ok(1) [of sim "Br_cold B" "js_String (Br_number B) (hd args)"] delete_ok(2) [of "Br_cold B" "js_String (Br_number B) (hd args)" sim]
  by (auto simp: answers_def js_deleteJob_def errorResult_def successResult_def split: list.splits prod.splits option.splits)

lemma setter_answers:
  assumes "sim_ok sim"
  shows "arguments_ok ''advanceTime'' args \<Longrightarrow> answers ''advanceTime'' sim (js_advanceTime B args sim)"
    "arguments_ok ''setClockSpeed'' args \<Longrightarrow> answers ''setClockSpeed'' sim (js_setClockSpeed B args sim)"
    "arguments_ok ''setSuccessRate'' args \<Longrightarrow> answers ''setSuccessRate'' sim (js_setSuccessRate B args sim)"
    "arguments_ok ''setTime'' args \<Longrightarrow> answers ''setTime'' sim (js_setTime B args sim)"
proof -
  have ok: "sim_ok (snd (AdvanceTime x sim))" "sim_ok (SetClockSpeed x sim)" "sim_ok (Sim_SetSuccessRate x sim)" "sim_ok (Sim_SetTime y sim)" for x y
    using assms by (simp_all add: sim_ok_def idle_def AdvanceTime_def Clock_Tick_def SetClockSpeed_def Sim_SetSuccessRate_def Sim_SetTime_def Let_def)
  note defs = answers_def arguments_ok_def errorResult_def successResult_def
  show "arguments_ok ''advanceTime'' args \<Longrightarrow> answers ''advanceTime'' sim (js_advanceTime B args sim)"
    using ok(1) assms by (cases args) (auto simp: defs js_advanceTime_def split: prod.splits dest!: arg_cong [of _ _ snd])
  show "arguments_ok ''setClockSpeed'' args \<Longrightarrow> answers ''setClockSpeed'' sim (js_setClockSpeed B args sim)"
    using ok(2) assms by (cases args) (auto simp: defs js_setClockSpeed_def)
  show "arguments_ok ''setSuccessRate'' args \<Longrightarrow> answers ''setSuccessRate'' sim (js_setSuccessRate B args sim)"
    using ok(3) assms by (cases args) (auto simp: defs js_setSuccessRate_def)
  show "arguments_ok ''setTime'' args \<Longrightarrow> answers ''setTime'' sim (js_setTime B args sim)"
    using ok(4) assms by (cases args) (auto simp: defs js_setTime_def)
qed

lemma getter_answers:
  assumes "sim_ok sim"
  shows "answers ''getState'' sim (js_getState B args sim)" "answers ''getStateJSON'' sim (js_getStateJSON B args sim)"
    "answers ''getClockSpeed'' sim (js_getClockSpeed B args sim)" "answers ''getNow'' sim (js_getNow B args sim)"
  using assms by (simp_all add: answers_def binding_defs)

lemma tick_answers:
  assumes "sim_ok sim" "range_order (Br_order B)" "clocks_ok B sim"
  shows "answers ''tick'' sim (js_tick B args sim)"
proof -
  obtain s' where "Sim_Tick (Br_cold B) (Br_order B) (Br_cron B) (Br_draw B) sim =
      Some (\<lparr>TR_ExecutedJobs = [], TR_Rescheduled = [], TR_ReadySlots = 0\<rparr>, s')" "sim_ok s'"
    using tick_ok [OF assms(1,2)] assms(3) unfolding clocks_ok_def by blast
  then show ?thesis by (simp add: answers_def js_tick_def successResult_def)
qed

lemma reset_answers: "sim_ok sim \<Longrightarrow> clocks_ok B sim \<Longrightarrow> answers ''reset'' sim (js_reset B args sim)"
  using reset_ok [of sim "Br_now B"] by (auto simp: answers_def js_reset_def clocks_ok_def successResult_def)


lemma call_answers:
  assumes "sim_ok sim" "range_order (Br_order B)" "clocks_ok B sim" "(name, f) \<in> set exports" "arguments_ok name args"
  shows "answers name sim (f B args sim)"
  using assms(4,5) unfolding exports_def list.set insert_iff prod.inject empty_iff
  by (elim disjE conjE FalseE; hypsubst)
    (rule create_answers delete_answers setter_answers getter_answers tick_answers reset_answers; use assms(1-3) in blast)+


lemma page_sim_ok:
  assumes "page_reaches C order sim" "range_order order"
  shows "sim_ok sim"
  using assms(1)
proof (induction rule: page_reaches.induct)
  case (load now sim)
  then show ?case using wasm_main_ok(2) by blast
next
  case (call sim B name f args r sim')
  have "arguments_ok name args"
  proof (rule ccontr)
    assume "\<not> arguments_ok name args"
    then have n: "name \<in> {''advanceTime'', ''setClockSpeed'', ''setSuccessRate'', ''setTime''}" "args \<noteq> []" "js_Float (hd args) = None"
      by (auto simp: arguments_ok_def split: if_splits list.splits)
    then have "f B args sim = None" using call(5) unfolding exports_def list.set insert_iff prod.inject empty_iff
      by (elim disjE conjE FalseE; hypsubst) (auto simp: js_advanceTime_def js_setClockSpeed_def js_setSuccessRate_def js_setTime_def neq_Nil_conv)
    then show False using call(6) by simp
  qed
  with call_answers [of sim B name f args] call assms(2) show ?case by (auto simp: answers_def)
qed

section \<open>Properties\<close>


definition sample_browser :: "disk browser" where
  "sample_browser = \<lparr>Br_cold = memory_archive, Br_order = sorted_list_of_set, Br_Unmarshal = (\<lambda>s. Inl ''bad''), Br_text = (\<lambda>e. ''''),
     Br_number = (\<lambda>x. ''''), Br_time = (\<lambda>l t. None), Br_cron = (\<lambda>c. None), Br_draw = (\<lambda>i. (0, 0)), Br_uuid = ''u'', Br_now = 100\<rparr>"


end
