(* ===== verification/Startup.thy ===== *)
theory Startup
  imports Application Metrics
begin

text \<open>
  How a node comes up and goes down: \<open>NewStoreWithColdSpilling\<close> of \<open>internal/store/store.go\<close> with
  the constructor of the cold store (\<open>cold_store.go\<close>), the error paths of \<open>NewApp\<close> in
  \<open>internal/app.go\<close>, and the rest of \<open>main\<close> in \<open>cmd/scheduled-db/main.go\<close>: starting the application,
  the signals and the exit codes. The file system, the resolver, Bolt and the constructors of Raft are
  parameters on a state of the machine; each may return an error. What a run has opened and
  not closed is a list of resources. A path is the directory and the name that \<open>filepath.Join\<close> puts together.
\<close>

section \<open>Addresses and timeouts\<close>

definition JoinHostPort :: "string \<Rightarrow> string \<Rightarrow> string" where
  "JoinHostPort host p = (if IndexByte host (CHR '':'') \<noteq> None then ''['' @ host @ '']:'' @ p else host @ '':'' @ p)"

definition Millisecond :: Duration where
  "Millisecond = 1000000"

definition duration_from_env ::
  "(string \<Rightarrow> Duration option) \<Rightarrow> environment \<Rightarrow> string \<Rightarrow> Duration \<Rightarrow> Duration" where
  "duration_from_env ParseDuration Getenv key fallback =
     (let s = Getenv key in if s \<noteq> '''' then (case ParseDuration s of Some t \<Rightarrow> t | None \<Rightarrow> fallback) else fallback)"

definition getApplyTimeout :: "(string \<Rightarrow> Duration option) \<Rightarrow> environment \<Rightarrow> Duration" where
  "getApplyTimeout ParseDuration Getenv = duration_from_env ParseDuration Getenv ''RAFT_APPLY_TIMEOUT'' (5 * Second)"

definition pod_advertise :: "environment \<Rightarrow> string \<Rightarrow> string" where
  "pod_advertise Getenv raftAdvertise =
     (if Getenv ''POD_IP'' \<noteq> '''' \<and> Getenv ''DISCOVERY_STRATEGY'' = ''kubernetes''
      then case SplitHostPort raftAdvertise of
             Inl err \<Rightarrow> raftAdvertise
           | Inr (host, p) \<Rightarrow> JoinHostPort (Getenv ''POD_IP'') p
      else raftAdvertise)"

definition NewRaftAddressProvider :: "string \<Rightarrow> string \<Rightarrow> string \<Rightarrow> int \<Rightarrow> dnsAddressProvider" where
  "NewRaftAddressProvider name ns cluster_domain p = \<lparr>serviceName = name, namespace = ns, domain = cluster_domain, port = p\<rparr>"

section \<open>The store\<close>

record raft_config =
  RC_LocalID :: string
  RC_HeartbeatTimeout :: Duration
  RC_ElectionTimeout :: Duration
  RC_CommitTimeout :: Duration
  RC_LeaderLeaseTimeout :: Duration

type_synonym path = "string \<times> string"

datatype resource = ColdDB path | Transport string | Snapshots string | LogStore path | StableStore path | RaftNode

text \<open>\<open>'f\<close> is the state of the machine; an operation returns its error, if any, and the state after it.\<close>

record ('c, 'r, 'f) startup =
  SU_Getenv :: environment
  SU_ParseDuration :: "string \<Rightarrow> Duration option"
  SU_MkdirAll :: "string \<Rightarrow> 'f \<Rightarrow> string option \<times> 'f"
  SU_BoltOpen :: "path \<Rightarrow> 'f \<Rightarrow> (string + 'c) \<times> 'f"
  SU_CreateBucket :: "string \<Rightarrow> 'c \<Rightarrow> 'f \<Rightarrow> (string + 'c) \<times> 'f"
  SU_ResolveTCPAddr :: "string \<Rightarrow> string + string"
  SU_NewTransport :: "string \<Rightarrow> string \<Rightarrow> dnsAddressProvider \<Rightarrow> nat \<Rightarrow> Duration \<Rightarrow> 'f \<Rightarrow> (string + string) \<times> 'f"
  SU_NewSnapshots :: "string \<Rightarrow> nat \<Rightarrow> 'f \<Rightarrow> string option \<times> 'f"
  SU_NewBoltStore :: "path \<Rightarrow> 'f \<Rightarrow> string option \<times> 'f"
  SU_NewRaft :: "raft_config \<Rightarrow> 'c FSM \<Rightarrow> 'f \<Rightarrow> (string + 'r \<times> 'c FSM) \<times> 'f"

text \<open>A failed bucket closes the database again.\<close>

definition NewBoltColdSlotStore ::
  "('c, 'r, 'f) startup \<Rightarrow> string \<Rightarrow> 'f \<Rightarrow> (string + 'c) \<times> 'f" where
  "NewBoltColdSlotStore U dataDir f =
     (let dbPath = (dataDir, ''cold_slots.db'')
      in case SU_BoltOpen U dbPath f of
           (Inl err, f) \<Rightarrow> (Inl (''failed to open cold slots database: '' @ err), f)
         | (Inr db, f) \<Rightarrow>
             (case SU_CreateBucket U ''cold_slots'' db f of
                (Inl err, f) \<Rightarrow> (Inl (''failed to create cold slots bucket: '' @ err), f)
              | (Inr db, f) \<Rightarrow> (Inr db, f)))"

definition store_raft_config :: "string \<Rightarrow> raft_config" where
  "store_raft_config nodeID =
     \<lparr>RC_LocalID = nodeID, RC_HeartbeatTimeout = 5000 * Millisecond, RC_ElectionTimeout = 5000 * Millisecond,
      RC_CommitTimeout = 200 * Millisecond, RC_LeaderLeaseTimeout = 4000 * Millisecond\<rparr>"

definition final_advertise :: "('c, 'r, 'f) startup \<Rightarrow> string \<Rightarrow> string \<Rightarrow> string" where
  "final_advertise U nodeID advertiseAddr =
     (if HasPrefix nodeID ''scheduled-db-''
      then case SU_ResolveTCPAddr U (nodeID @ ''.scheduled-db.default.svc.cluster.local:7000'') of
             Inl err \<Rightarrow> advertiseAddr
           | Inr addr \<Rightarrow> addr
      else advertiseAddr)"

text \<open>
  The part after the addresses are known: transport, snapshots, the two Bolt stores, Raft.
  The transport's address is the one that \<open>LocalAddr\<close> gives. \<open>opened\<close> is what is open so far.
\<close>

definition open_raft ::
  "('c, 'r, 'f) startup \<Rightarrow> string \<Rightarrow> string \<Rightarrow> string \<Rightarrow> string \<Rightarrow> string \<Rightarrow> dnsAddressProvider \<Rightarrow> 'c FSM
     \<Rightarrow> resource list \<Rightarrow> 'f \<Rightarrow> (string + ('c, 'r) Store) \<times> resource list \<times> 'f" where
  "open_raft U dataDir raftBind raftAdvertise nodeID advertiseAddr addrProvider fsm opened f =
     (let timeout = duration_from_env (SU_ParseDuration U) (SU_Getenv U) ''RAFT_TRANSPORT_TIMEOUT'' (10 * Second)
      in case SU_NewTransport U raftBind (final_advertise U nodeID advertiseAddr) addrProvider 3 timeout f of
           (Inl err, f) \<Rightarrow> (Inl (''failed to create transport: '' @ err), opened, f)
         | (Inr localAddr, f) \<Rightarrow> let opened = opened @ [Transport raftBind] in
     (case SU_NewSnapshots U dataDir 2 f of
        (Some err, f) \<Rightarrow> (Inl (''failed to create snapshot store: '' @ err), opened, f)
      | (None, f) \<Rightarrow> let opened = opened @ [Snapshots dataDir] in
     (case SU_NewBoltStore U (dataDir, ''logs.db'') f of
        (Some err, f) \<Rightarrow> (Inl (''failed to create log store: '' @ err), opened, f)
      | (None, f) \<Rightarrow> let opened = opened @ [LogStore (dataDir, ''logs.db'')] in
     (case SU_NewBoltStore U (dataDir, ''stable.db'') f of
        (Some err, f) \<Rightarrow> (Inl (''failed to create stable store: '' @ err), opened, f)
      | (None, f) \<Rightarrow> let opened = opened @ [StableStore (dataDir, ''stable.db'')] in
     (case SU_NewRaft U (store_raft_config nodeID) fsm f of
        (Inl err, f) \<Rightarrow> (Inl (''failed to create raft: '' @ err), opened, f)
      | (Inr (ra, fsm), f) \<Rightarrow>
          (Inr \<lparr>St_raft = ra, St_fsm = fsm, St_nodeID = nodeID, St_raftBind = raftBind, St_raftAdvertise = raftAdvertise,
                St_httpBind = None, St_localAddr = localAddr\<rparr>, opened @ [RaftNode], f))))))"

definition NewStoreWithColdSpilling ::
  "('c, 'r, 'f) startup \<Rightarrow> string \<Rightarrow> string \<Rightarrow> string \<Rightarrow> string \<Rightarrow> string list \<Rightarrow> bool \<Rightarrow> dnsAddressProvider option
     \<Rightarrow> 'f \<Rightarrow> (string + ('c, 'r) Store) \<times> resource list \<times> 'f" where
  "NewStoreWithColdSpilling U dataDir raftBind raftAdvertise nodeID peers enableColdSpilling addrProvider f =
     (let raftAdvertise = pod_advertise (SU_Getenv U) raftAdvertise;
          addrProvider = (case addrProvider of
              None \<Rightarrow> NewRaftAddressProvider ''scheduled-db'' ''default'' ''cluster.local'' 7000
            | Some p \<Rightarrow> p);
          (cold, f) = (if enableColdSpilling
            then case NewBoltColdSlotStore U dataDir f of
                   (Inl err, f) \<Rightarrow> (Inl (''failed to create cold slot store: '' @ err), f)
                 | (Inr c, f) \<Rightarrow> (Inr (NewFSMWithColdStore c, [ColdDB (dataDir, ''cold_slots.db'')]), f)
            else (Inr (NewFSM, []), f))
      in case cold of
           Inl err \<Rightarrow> (Inl err, [], f)
         | Inr (fsm, opened) \<Rightarrow>
             (case SU_MkdirAll U dataDir f of
                (Some err, f) \<Rightarrow> (Inl (''failed to create data directory: '' @ err), opened, f)
              | (None, f) \<Rightarrow>
                  (case SU_ResolveTCPAddr U raftAdvertise of
                     Inl err \<Rightarrow> (Inl (''failed to resolve raft advertise address: '' @ err), opened, f)
                   | Inr advertiseAddr \<Rightarrow>
                       open_raft U dataDir raftBind raftAdvertise nodeID advertiseAddr addrProvider fsm opened f)))"

definition NewStore ::
  "('c, 'r, 'f) startup \<Rightarrow> string \<Rightarrow> string \<Rightarrow> string \<Rightarrow> string \<Rightarrow> string list
     \<Rightarrow> 'f \<Rightarrow> (string + ('c, 'r) Store) \<times> resource list \<times> 'f" where
  "NewStore U dataDir raftBind raftAdvertise nodeID peers f =
     NewStoreWithColdSpilling U dataDir raftBind raftAdvertise nodeID peers False None f"


section \<open>The application\<close>

definition app_metrics_config :: "string \<Rightarrow> MetricsConfig" where
  "app_metrics_config nodeID =
     \<lparr>MC_ServiceName = ''scheduled-db'', MC_ServiceVersion = ''1.0.0'', MC_NodeID = nodeID,
      MC_Environment = ''production'', MC_MetricsPort = 9090, MC_MetricsPath = ''/metrics''\<rparr>"

text \<open>
  The outcome of \<open>NewApp\<close>: an error with what is still open, or the application; and the global metrics.
  The flag tells whether the exporters of the metrics are running. \<open>None\<close> is a panic.
\<close>

record ('c, 'r, 'f) outcome =
  O_result :: "string + ('c, 'r) App"
  O_opened :: "resource list"
  O_metrics :: metrics
  O_exporting :: bool
  O_machine :: 'f

definition NewApp_run ::
  "'st Strategies \<Rightarrow> ((string, config_value) fmap \<Rightarrow> string \<Rightarrow> string \<Rightarrow> string) \<Rightarrow> otel_lib \<Rightarrow> ('c, 'r, 'f) startup
     \<Rightarrow> 'st Config \<Rightarrow> metrics \<Rightarrow> 'f \<Rightarrow> ('c, 'r, 'f) outcome option" where
  "NewApp_run K str L U config g f =
     (case InitializeWithOTLP L (SU_Getenv U) (app_metrics_config (Cfg_NodeID config)) g of
        (Inl err, g, _) \<Rightarrow> Some \<lparr>O_result = Inl (''failed to initialize metrics: '' @ err), O_opened = [], O_metrics = g, O_exporting = False, O_machine = f\<rparr>
      | (Inr provider, g, _) \<Rightarrow>
          let addrProvider = address_provider K str (Cfg_Topologies config)
          in case NewStoreWithColdSpilling U (Cfg_DataDir config) (Cfg_RaftBind config) (Cfg_RaftAdvertise config)
               (Cfg_NodeID config) (Cfg_Peers config) (Cfg_EnableColdSpilling config) addrProvider f of
               (Inl err, opened, f) \<Rightarrow>
                 Some \<lparr>O_result = Inl (''failed to create store: '' @ err), O_opened = opened, O_metrics = g, O_exporting = False, O_machine = f\<rparr>
             | (Inr jobStore, opened, f) \<Rightarrow>
                 map_option (\<lambda>a. \<lparr>O_result = Inr a, O_opened = opened, O_metrics = g, O_exporting = True, O_machine = f\<rparr>) (NewApp config jobStore))"

text \<open>\<open>main\<close> up to the point where it waits for a signal: the exit code, or the running application.\<close>

definition main_start ::
  "'st Strategies \<Rightarrow> ((string, config_value) fmap \<Rightarrow> string \<Rightarrow> string \<Rightarrow> string) \<Rightarrow> otel_lib \<Rightarrow> ('c, 'r, 'f) startup
     \<Rightarrow> ('c, 'r) Env \<Rightarrow> 'r boot \<Rightarrow> 'st Config \<Rightarrow> metrics \<Rightarrow> 'f \<Rightarrow> (int + ('c, 'r) App) option" where
  "main_start K str L U E B config g f = do {
     r \<leftarrow> NewApp_run K str L U config g f;
     case O_result r of
       Inl err \<Rightarrow> Some (Inl 1)
     | Inr app \<Rightarrow> do {
         (err, app) \<leftarrow> App_Start E B app;
         Some (if err \<noteq> None then Inl 1 else Inr app)
       }
   }"

section \<open>Signals\<close>

text \<open>
  After the start two goroutines wait for the same signals, each on a channel of its own that
  holds one: that of \<open>main\<close>, which stops the application in another goroutine, and
  \<open>handleGracefulShutdown\<close>, which resigns the leadership first. \<open>Stop\<close> always returns nil.
\<close>

datatype stop_state = NotStopping | StopRuns | StopDone

datatype resign_state = AwaitsSignal | WorkerStopped | PeerRemoved | Resigned | AppStops

record process =
  PS_sigCh :: bool
  PS_shutdownSignal :: bool
  PS_shutdownCount :: nat
  PS_stop :: stop_state
  PS_resign :: resign_state
  PS_exit :: "int option"
  PS_signals :: nat

definition running :: process where
  "running = \<lparr>PS_sigCh = False, PS_shutdownSignal = False, PS_shutdownCount = 0, PS_stop = NotStopping, PS_resign = AwaitsSignal,
     PS_exit = None, PS_signals = 0\<rparr>"

text \<open>What the process does by itself; \<open>leader\<close> is the role of the node when its handler looks at it.\<close>

inductive own_step :: "process \<Rightarrow> process \<Rightarrow> bool" where
  main_first: "PS_exit p = None \<Longrightarrow> PS_sigCh p \<Longrightarrow> PS_shutdownCount p = 0 \<Longrightarrow>
    own_step p (p\<lparr>PS_sigCh := False, PS_shutdownCount := 1, PS_stop := StopRuns\<rparr>)"
| main_again: "PS_exit p = None \<Longrightarrow> PS_sigCh p \<Longrightarrow> PS_shutdownCount p \<ge> 1 \<Longrightarrow>
    own_step p (p\<lparr>PS_sigCh := False, PS_shutdownCount := Suc (PS_shutdownCount p), PS_exit := Some 130\<rparr>)"
| stop_returns: "PS_exit p = None \<Longrightarrow> PS_stop p = StopRuns \<Longrightarrow> own_step p (p\<lparr>PS_stop := StopDone\<rparr>)"
| main_done: "PS_exit p = None \<Longrightarrow> PS_stop p = StopDone \<Longrightarrow> own_step p (p\<lparr>PS_exit := Some 0\<rparr>)"
| take_signal: "PS_exit p = None \<Longrightarrow> PS_shutdownSignal p \<Longrightarrow> PS_resign p = AwaitsSignal \<Longrightarrow>
    own_step p (p\<lparr>PS_shutdownSignal := False, PS_resign := (if leader then WorkerStopped else AppStops)\<rparr>)"
| remove_peer: "PS_exit p = None \<Longrightarrow> PS_resign p = WorkerStopped \<Longrightarrow> own_step p (p\<lparr>PS_resign := PeerRemoved\<rparr>)"
| transfer: "PS_exit p = None \<Longrightarrow> PS_resign p = PeerRemoved \<Longrightarrow> own_step p (p\<lparr>PS_resign := Resigned\<rparr>)"
| app_stops: "PS_exit p = None \<Longrightarrow> PS_resign p = Resigned \<Longrightarrow> own_step p (p\<lparr>PS_resign := AppStops\<rparr>)"
| app_exits: "PS_exit p = None \<Longrightarrow> PS_resign p = AppStops \<Longrightarrow> own_step p (p\<lparr>PS_exit := Some 0\<rparr>)"

text \<open>A signal goes to every registered channel; a full channel drops it.\<close>

inductive process_step :: "process \<Rightarrow> process \<Rightarrow> bool" where
  own: "own_step p p' \<Longrightarrow> process_step p p'"
| signal: "PS_exit p = None \<Longrightarrow> process_step p (p\<lparr>PS_sigCh := True, PS_shutdownSignal := True, PS_signals := Suc (PS_signals p)\<rparr>)"


definition process_ok :: "process \<Rightarrow> bool" where
  "process_ok p \<longleftrightarrow> PS_shutdownCount p + (if PS_sigCh p then 1 else 0) \<le> PS_signals p \<and>
     (PS_shutdownSignal p \<or> PS_resign p \<noteq> AwaitsSignal \<longrightarrow> 1 \<le> PS_signals p) \<and>
     (PS_stop p \<noteq> NotStopping \<longleftrightarrow> 1 \<le> PS_shutdownCount p) \<and>
     (1 \<le> PS_signals p \<longrightarrow> PS_sigCh p \<or> 1 \<le> PS_shutdownCount p) \<and>
     (\<forall>c. PS_exit p = Some c \<longrightarrow> c = 0 \<and> 1 \<le> PS_signals p \<or> c = 130 \<and> 2 \<le> PS_signals p)"

lemma own_step_ok: "own_step p p' \<Longrightarrow> process_ok p \<Longrightarrow> process_ok p'"
  by (induction rule: own_step.induct) (auto simp: process_ok_def split: if_splits)

lemma process_step_ok: "process_step p p' \<Longrightarrow> process_ok p \<Longrightarrow> process_ok p'"
  by (induction rule: process_step.induct) (auto simp: own_step_ok, auto simp: process_ok_def split: if_splits)

lemma reachable_process_ok: "process_step\<^sup>*\<^sup>* running p \<Longrightarrow> process_ok p"
  by (induction rule: rtranclp_induct) (auto simp: process_step_ok, simp add: process_ok_def running_def)

text \<open>What is left to do until the exit.\<close>

fun stop_weight :: "stop_state \<Rightarrow> nat" where
  "stop_weight NotStopping = 3"
| "stop_weight StopRuns = 2"
| "stop_weight StopDone = 1"

fun resign_weight :: "resign_state \<Rightarrow> nat" where
  "resign_weight AwaitsSignal = 5"
| "resign_weight WorkerStopped = 4"
| "resign_weight PeerRemoved = 3"
| "resign_weight Resigned = 2"
| "resign_weight AppStops = 1"

definition weight :: "process \<Rightarrow> nat" where
  "weight p = (if PS_exit p = None
     then (if PS_sigCh p then 4 else 0) + stop_weight (PS_stop p) + resign_weight (PS_resign p) else 0)"

lemma own_step_weight: "own_step p p' \<Longrightarrow> weight p' < weight p"
proof (induction rule: own_step.induct)
  case (main_first p)
  then show ?case by (cases "PS_stop p") (simp_all add: weight_def)
qed (simp_all add: weight_def)

lemma own_step_enabled:
  assumes "process_ok p" "1 \<le> PS_signals p" "PS_exit p = None"
  shows "\<exists>p'. own_step p p'"
proof (cases "PS_sigCh p")
  case True
  show ?thesis
  proof (cases "PS_shutdownCount p = 0")
    case z: True
    from own_step.main_first [OF assms(3) True z] show ?thesis by blast
  next
    case False
    then have "PS_shutdownCount p \<ge> 1" by simp
    from own_step.main_again [OF assms(3) True this] show ?thesis by blast
  qed
next
  case False
  then have "PS_stop p \<noteq> NotStopping" using assms by (auto simp: process_ok_def)
  then show ?thesis using own_step.stop_returns [OF assms(3)] own_step.main_done [OF assms(3)] by (cases "PS_stop p") auto
qed

section \<open>Properties\<close>


text \<open>The handler of \<open>main\<close> does not wait for the other one: a leader that gets one signal may exit, with code 0,
  before it has handed over the leadership.\<close>

lemma five_steps: "R a b \<Longrightarrow> R b c \<Longrightarrow> R c d \<Longrightarrow> R d e \<Longrightarrow> R e f \<Longrightarrow> R\<^sup>*\<^sup>* a f"
  by (meson r_into_rtranclp rtranclp.rtrancl_into_rtrancl)

lemma resignation_cut_short:
  "\<exists>p. process_step\<^sup>*\<^sup>* running p \<and> PS_signals p = 1 \<and> PS_exit p = Some 0 \<and> PS_resign p = WorkerStopped"
proof -
  let ?p1 = "running\<lparr>PS_sigCh := True, PS_shutdownSignal := True, PS_signals := Suc (PS_signals running)\<rparr>"
  let ?p2 = "?p1\<lparr>PS_shutdownSignal := False, PS_resign := (if True then WorkerStopped else AppStops)\<rparr>"
  let ?p3 = "?p2\<lparr>PS_sigCh := False, PS_shutdownCount := 1, PS_stop := StopRuns\<rparr>"
  let ?p4 = "?p3\<lparr>PS_stop := StopDone\<rparr>"
  have "process_step running ?p1" by (rule signal) (simp add: running_def)
  moreover have "process_step ?p1 ?p2" by (rule own, rule take_signal) (simp_all add: running_def)
  moreover have "process_step ?p2 ?p3" by (rule own, rule main_first) (simp_all add: running_def)
  moreover have "process_step ?p3 ?p4" by (rule own, rule stop_returns) (simp_all add: running_def)
  moreover have "process_step ?p4 (?p4\<lparr>PS_exit := Some 0\<rparr>)" by (rule own, rule main_done) (simp_all add: running_def)
  ultimately have "process_step\<^sup>*\<^sup>* running (?p4\<lparr>PS_exit := Some 0\<rparr>)" by (rule five_steps)
  then show ?thesis by (intro exI [of _ "?p4\<lparr>PS_exit := Some 0\<rparr>"]) (simp add: running_def)
qed



section \<open>The store, started\<close>

definition raft_resources :: "string \<Rightarrow> string \<Rightarrow> resource list" where
  "raft_resources dataDir raftBind =
     [Transport raftBind, Snapshots dataDir, LogStore (dataDir, ''logs.db''), StableStore (dataDir, ''stable.db''), RaftNode]"

lemma open_raft_outcome:
  assumes "open_raft U dataDir raftBind raftAdvertise nodeID addr provider fsm opened f = (r, opened', f')"
  shows "case r of
      Inr s \<Rightarrow> opened' = opened @ raft_resources dataDir raftBind \<and> St_nodeID s = nodeID \<and> St_raftBind s = raftBind \<and>
        St_raftAdvertise s = raftAdvertise \<and> St_httpBind s = None
    | Inl err \<Rightarrow> \<exists>k < 5. opened' = opened @ take k (raft_resources dataDir raftBind)"
  using assms unfolding open_raft_def Let_def
  by (auto simp: raft_resources_def split: prod.splits sum.splits option.splits
      intro: exI [of _ 0] exI [of _ 1] exI [of _ 2] exI [of _ 3] exI [of _ 4])

text \<open>Before Raft: the archive, the directory, the address.\<close>

definition cold_resources :: "bool \<Rightarrow> string \<Rightarrow> resource list" where
  "cold_resources cold dataDir = (if cold then [ColdDB (dataDir, ''cold_slots.db'')] else [])"

lemma NewStore_cases:
  assumes "NewStoreWithColdSpilling U dataDir raftBind raftAdvertise nodeID peers cold provider f = (r, opened, f')"
  obtains (early) err where "r = Inl err" "opened = [] \<or> opened = cold_resources cold dataDir"
  | (raft) addr prov fsm f1 where "open_raft U dataDir raftBind (pod_advertise (SU_Getenv U) raftAdvertise) nodeID addr prov fsm
      (cold_resources cold dataDir) f1 = (r, opened, f')"
  using assms unfolding NewStoreWithColdSpilling_def Let_def cold_resources_def
  by (auto split: prod.splits sum.splits option.splits if_splits)

lemma NewStore_error:
  assumes "NewStoreWithColdSpilling U dataDir raftBind raftAdvertise nodeID peers cold provider f = (Inl err, opened, f')"
  shows "RaftNode \<notin> set opened \<and> (\<exists>k. opened = take k (cold_resources cold dataDir @ raft_resources dataDir raftBind))"
  using assms
proof (cases rule: NewStore_cases)
  case (early err')
  have "\<exists>k. opened = take k (cold_resources cold dataDir @ raft_resources dataDir raftBind)"
  proof (cases "opened = []")
    case True
    then show ?thesis by (intro exI [of _ 0]) simp
  next
    case False
    with early(2) show ?thesis by (intro exI [of _ "length (cold_resources cold dataDir)"]) simp
  qed
  moreover have "RaftNode \<notin> set opened" using early(2) by (auto simp: cold_resources_def)
  ultimately show ?thesis by simp
next
  case (raft addr prov fsm f1)
  from open_raft_outcome [OF this] obtain k where
    k: "k < 5" "opened = cold_resources cold dataDir @ take k (raft_resources dataDir raftBind)" by auto
  have "RaftNode \<notin> set (take k (raft_resources dataDir raftBind))"
    using k(1) by (auto simp: raft_resources_def less_Suc_eq numeral_eq_Suc)
  moreover have "RaftNode \<notin> set (cold_resources cold dataDir)" by (simp add: cold_resources_def)
  ultimately have "RaftNode \<notin> set opened" using k(2) by simp
  moreover have "opened = take (length (cold_resources cold dataDir) + k) (cold_resources cold dataDir @ raft_resources dataDir raftBind)"
    using k(2) by simp
  ultimately show ?thesis by blast
qed


text \<open>A start that fails leaves no exporter and no Raft running, and the process exits with 1.\<close>

lemma failed_start:
  assumes "NewApp_run K str L U config g f = Some out" "O_result out = Inl err"
  shows "\<not> O_exporting out" "RaftNode \<notin> set (O_opened out)" "main_start K str L U E B config g f = Some (Inl 1)"
proof -
  show "main_start K str L U E B config g f = Some (Inl 1)" using assms by (simp add: main_start_def)
  show "\<not> O_exporting out" "RaftNode \<notin> set (O_opened out)"
    using assms by (auto simp: NewApp_run_def Let_def split: prod.splits sum.splits dest: NewStore_error)
qed

text \<open>Cold spilling cannot start in a new data directory: the archive is opened before the directory is made, and a
  file in a directory that does not exist cannot be opened.\<close>
theorem cold_spilling_needs_directory:
  assumes "\<And>d name f. \<not> has_dir f d \<Longrightarrow> \<exists>err f'. SU_BoltOpen U (d, name) f = (Inl err, f')" "\<not> has_dir f dataDir"
  shows "\<exists>err f'. NewStoreWithColdSpilling U dataDir raftBind raftAdvertise nodeID peers True provider f =
     (Inl (''failed to create cold slot store: failed to open cold slots database: '' @ err), [], f')"
proof -
  obtain err f' where "SU_BoltOpen U (dataDir, ''cold_slots.db'') f = (Inl err, f')" using assms(1) [OF assms(2)] by blast
  then show ?thesis by (simp add: NewStoreWithColdSpilling_def NewBoltColdSlotStore_def)
qed

text \<open>The timeouts of the store satisfy what Raft demands of its configuration.\<close>

lemma store_raft_config_valid:
  "RC_LeaderLeaseTimeout (store_raft_config i) \<le> RC_HeartbeatTimeout (store_raft_config i)"
  "RC_HeartbeatTimeout (store_raft_config i) \<le> RC_ElectionTimeout (store_raft_config i)"
  "5 * Millisecond \<le> RC_HeartbeatTimeout (store_raft_config i)" "1 * Millisecond \<le> RC_CommitTimeout (store_raft_config i)"
  by (simp_all add: store_raft_config_def Millisecond_def)

section \<open>A machine\<close>

text \<open>A machine whose state is the set of its directories.\<close>

definition toy_machine :: "(disk, solo, string set) startup" where
  "toy_machine = \<lparr>SU_Getenv = (\<lambda>key. ''''), SU_ParseDuration = (\<lambda>s. None), SU_MkdirAll = (\<lambda>d f. (None, insert d f)),
     SU_BoltOpen = (\<lambda>(d, name) f. (if d \<in> f then Inr (\<lambda>k. None) else Inl ''no such file or directory'', f)),
     SU_CreateBucket = (\<lambda>b c f. (Inr c, f)), SU_ResolveTCPAddr = Inr,
     SU_NewTransport = (\<lambda>b a p n t f. (Inr a, f)), SU_NewSnapshots = (\<lambda>d n f. (None, f)),
     SU_NewBoltStore = (\<lambda>p f. (if fst p \<in> f then None else Some ''no such file or directory'', f)),
     SU_NewRaft = (\<lambda>c m f. (Inr (St_raft (solo_store False NewFSM), m), f))\<rparr>"

lemma toy_store_starts:
  "\<exists>s. NewStore toy_machine ''data'' ''b'' ''a:1'' ''n'' [] {} =
     (Inr s, raft_resources ''data'' ''b'', {''data''})"
  by (simp add: NewStore_def NewStoreWithColdSpilling_def open_raft_def toy_machine_def pod_advertise_def raft_resources_def Let_def)


lemma cold_spilling_needs_directory_witness:
  "\<exists>err f'. NewStoreWithColdSpilling toy_machine ''data'' ''b'' ''a:1'' ''n'' [] True None {} =
     (Inl (''failed to create cold slot store: failed to open cold slots database: '' @ err), [], f')"
  by (rule cold_spilling_needs_directory [where has_dir = "\<lambda>f d. d \<in> f"]) (simp_all add: toy_machine_def)

end
